(* ===== verification/Prelude.thy ===== *)
theory Prelude
  imports Main "HOL-Library.Word" "HOL-Library.Product_Lexorder" "HOL-Library.Multiset"
begin

text \<open>
  Shared vocabulary of the development: the basic types, the fact collections, the
  execution type of code that reads and writes a state and may raise, and generic
  lemmas on lists that several components use.

  An execution is a function from the state to an outcome and the state afterwards;
  an exception is the left outcome. The state is kept on both paths, since Python
  code that raises keeps the effects it had before: rolling back is an operation of
  the source (\<open>UnitOfWork.transaction\<close>), not a property of the encoding.
\<close>

section \<open>Basic types\<close>

text \<open>
  A UUID is its 128-bit value. An instant is the number of microseconds since the Unix
  epoch, which is what PostgreSQL's \<open>timestamptz\<close> stores and what an aware Python
  \<open>datetime\<close> in UTC denotes. Text is a list of characters, read as ASCII code points.
\<close>

type_synonym uuid = "128 word"
type_synonym instant = int
type_synonym pystr = string

abbreviation usec_per_sec :: int where "usec_per_sec \<equiv> 1000000"

section \<open>Fact collections\<close>

named_theorems exec_simps \<open>unfolding rules of executions\<close>
named_theorems preserve_intros \<open>preservation rules of executions\<close>
named_theorems model_simps \<open>unfolding rules of the table descriptors\<close>

section \<open>Executions: state, outcome, exceptions\<close>

type_synonym ('e, 's, 'a) exec = "'s \<Rightarrow> ('e + 'a) \<times> 's"

definition returnE :: "'a \<Rightarrow> ('e, 's, 'a) exec" where
  "returnE x s = (Inr x, s)"

definition raiseE :: "'e \<Rightarrow> ('e, 's, 'a) exec" where
  "raiseE e s = (Inl e, s)"

definition bindE :: "('e, 's, 'a) exec \<Rightarrow> ('a \<Rightarrow> ('e, 's, 'b) exec) \<Rightarrow> ('e, 's, 'b) exec" where
  "bindE m k s = (case m s of (Inl e, s') \<Rightarrow> (Inl e, s') | (Inr x, s') \<Rightarrow> k x s')"

definition getsE :: "('s \<Rightarrow> 'a) \<Rightarrow> ('e, 's, 'a) exec" where
  "getsE f s = (Inr (f s), s)"

definition modifyE :: "('s \<Rightarrow> 's) \<Rightarrow> ('e, 's, unit) exec" where
  "modifyE f s = (Inr (), f s)"

definition liftE :: "'e + 'a \<Rightarrow> ('e, 's, 'a) exec" where
  "liftE r s = (r, s)"

text \<open>\<open>if cond: raise e\<close>, the guard clause of the services and handlers.\<close>

definition raise_if :: "bool \<Rightarrow> 'e \<Rightarrow> ('e, 's, unit) exec" where
  "raise_if b e s = (if b then Inl e else Inr (), s)"

text \<open>\<open>x = ...; if not x: raise e\<close> on an optional value.\<close>

definition some_or_raise :: "'a option \<Rightarrow> 'e \<Rightarrow> ('e, 's, 'a) exec" where
  "some_or_raise v e s = (case v of None \<Rightarrow> Inl e | Some x \<Rightarrow> Inr x, s)"

text \<open>\<open>try: m / except: h\<close>; the handler passes on what it does not catch.\<close>

definition catchE :: "('e, 's, 'a) exec \<Rightarrow> ('e \<Rightarrow> ('e, 's, 'a) exec) \<Rightarrow> ('e, 's, 'a) exec" where
  "catchE m h s = (case m s of (Inl e, s') \<Rightarrow> h e s' | (Inr x, s') \<Rightarrow> (Inr x, s'))"

lemmas exec_defs [exec_simps] =
  returnE_def raiseE_def bindE_def getsE_def modifyE_def liftE_def raise_if_def some_or_raise_def
  catchE_def

text \<open>The monad laws, and two case rules for a successful or a failed sequence.\<close>

lemma bindE_returnE: "bindE (returnE x) k = k x"
  by (rule ext) (simp add: exec_simps)

lemma bindE_return_right: "bindE m returnE = m"
  by (rule ext) (simp add: bindE_def returnE_def split: prod.splits sum.splits)

lemma bindE_raiseE: "bindE (raiseE e) k = raiseE e"
  by (rule ext) (simp add: exec_simps)

lemma bindE_assoc: "bindE (bindE m k) h = bindE m (\<lambda>x. bindE (k x) h)"
  by (rule ext) (simp add: bindE_def split: prod.splits sum.splits)

lemma bindE_ok:
  "bindE m k s = (Inr y, t) \<longleftrightarrow> (\<exists>x s'. m s = (Inr x, s') \<and> k x s' = (Inr y, t))"
  by (auto simp: bindE_def split: prod.splits sum.splits)

lemma bindE_err:
  "bindE m k s = (Inl e, t) \<longleftrightarrow>
     m s = (Inl e, t) \<or> (\<exists>x s'. m s = (Inr x, s') \<and> k x s' = (Inl e, t))"
  by (auto simp: bindE_def split: prod.splits sum.splits)

section \<open>State predicates an execution keeps\<close>

definition preserves :: "('s \<Rightarrow> bool) \<Rightarrow> ('e, 's, 'a) exec \<Rightarrow> bool" where
  "preserves I m \<longleftrightarrow> (\<forall>s. I s \<longrightarrow> I (snd (m s)))"

lemma preservesI: "(\<And>s. I s \<Longrightarrow> I (snd (m s))) \<Longrightarrow> preserves I m"
  by (simp add: preserves_def)

lemma preservesD: "preserves I m \<Longrightarrow> I s \<Longrightarrow> I (snd (m s))"
  by (simp add: preserves_def)

lemma preserves_returnE [preserve_intros]: "preserves I (returnE x)"
  by (simp add: preserves_def returnE_def)

lemma preserves_raiseE [preserve_intros]: "preserves I (raiseE e)"
  by (simp add: preserves_def raiseE_def)

lemma preserves_getsE [preserve_intros]: "preserves I (getsE f)"
  by (simp add: preserves_def getsE_def)

lemma preserves_liftE [preserve_intros]: "preserves I (liftE r)"
  by (simp add: preserves_def liftE_def)

lemma preserves_raise_if [preserve_intros]: "preserves I (raise_if b e)"
  by (simp add: preserves_def raise_if_def)

lemma preserves_some_or_raise [preserve_intros]: "preserves I (some_or_raise v e)"
  by (simp add: preserves_def some_or_raise_def)

text \<open>The same at one state, for steps whose effect depends on what an earlier step read.\<close>

lemma bindE_keeps:
  "I (snd (m s)) \<Longrightarrow> (\<And>x s'. m s = (Inr x, s') \<Longrightarrow> I s' \<Longrightarrow> I (snd (k x s'))) \<Longrightarrow> I (snd (bindE m k s))"
  by (auto simp: bindE_def split: prod.splits sum.splits)

lemma preserves_bindE [preserve_intros]:
  assumes "preserves I m" and "\<And>x. preserves I (k x)"
  shows "preserves I (bindE m k)"
proof (rule preservesI)
  fix s assume "I s"
  with assms(1) have "I (snd (m s))" by (rule preservesD)
  then show "I (snd (bindE m k s))"
    by (auto simp: bindE_def dest: preservesD [OF assms(2)] split: prod.splits sum.splits)
qed

lemma preserves_catchE [preserve_intros]:
  assumes "preserves I m" and "\<And>e. preserves I (h e)"
  shows "preserves I (catchE m h)"
proof (rule preservesI)
  fix s assume "I s"
  with assms(1) have "I (snd (m s))" by (rule preservesD)
  then show "I (snd (catchE m h s))"
    by (auto simp: catchE_def dest: preservesD [OF assms(2)] split: prod.splits sum.splits)
qed

lemma preserves_if [preserve_intros]:
  "preserves I m \<Longrightarrow> preserves I n \<Longrightarrow> preserves I (if b then m else n)"
  by simp

lemma preserves_case_option [preserve_intros]:
  "preserves I m \<Longrightarrow> (\<And>x. preserves I (k x)) \<Longrightarrow> preserves I (case v of None \<Rightarrow> m | Some x \<Rightarrow> k x)"
  by (cases v) simp_all

section \<open>Generic lemmas on lists\<close>

lemma filter_map_if_other:
  "(\<And>r. P r \<Longrightarrow> \<not> Q (f r)) \<Longrightarrow> (\<And>r. P r \<Longrightarrow> \<not> Q r) \<Longrightarrow>
     filter Q (map (\<lambda>r. if P r then f r else r) xs) = filter Q xs"
  by (induction xs) auto

lemma distinct_key_unique:
  "distinct (map f xs) \<Longrightarrow> x \<in> set xs \<Longrightarrow> y \<in> set xs \<Longrightarrow> f x = f y \<Longrightarrow> x = y"
  by (auto simp: distinct_map inj_on_def)

lemma filter_key_length:
  "distinct (map f xs) \<Longrightarrow> (\<And>x. x \<in> set xs \<Longrightarrow> P x \<Longrightarrow> f x = k) \<Longrightarrow> length (filter P xs) \<le> 1"
proof (induction xs)
  case Nil
  then show ?case by simp
next
  case (Cons a xs)
  show ?case
  proof (cases "P a")
    case True
    have "filter P xs = []"
      using Cons.prems True by (fastforce simp: filter_empty_conv)
    with True show ?thesis by simp
  next
    case False
    with Cons show ?thesis by simp
  qed
qed

lemma filter_singleton:
  assumes "distinct (map f xs)" and "x \<in> set xs" and "P x"
    and "\<And>y. y \<in> set xs \<Longrightarrow> P y \<Longrightarrow> f y = f x"
  shows "filter P xs = [x]"
proof -
  have "length (filter P xs) \<le> 1"
    by (rule filter_key_length [OF assms(1)]) (rule assms(4))
  moreover have "x \<in> set (filter P xs)"
    using assms(2,3) by simp
  ultimately show ?thesis
    by (cases "filter P xs") (auto simp: Suc_le_eq)
qed

lemma filter_map_if_other_in:
  "(\<And>r. r \<in> set xs \<Longrightarrow> P r \<Longrightarrow> \<not> Q (f r) \<and> \<not> Q r) \<Longrightarrow>
     filter Q (map (\<lambda>r. if P r then f r else r) xs) = filter Q xs"
  by (induction xs) auto

lemma distinct_all_equal_length:
  "distinct xs \<Longrightarrow> (\<And>x y. x \<in> set xs \<Longrightarrow> y \<in> set xs \<Longrightarrow> x = y) \<Longrightarrow> length xs \<le> 1"
  using card_le_Suc0_iff_eq [of "set xs"] distinct_card [of xs] by fastforce

lemma find_Some_distinct:
  assumes "distinct (map f xs)" and "x \<in> set xs"
  shows "find (\<lambda>y. f y = f x) xs = Some x"
  using assms by (induction xs) (auto simp: image_iff)

lemma map_if_same_key:
  "(\<And>r. f (g r) = f r) \<Longrightarrow> map f (map (\<lambda>r. if P r then g r else r) xs) = map f xs"
  by (induction xs) auto

end
