(* ===== verification/PyText.thy ===== *)
theory PyText
  imports Prelude
begin

text \<open>
  The Python string operations the source uses: \<open>str.strip\<close>, \<open>lower\<close>, \<open>upper\<close>,
  \<open>replace\<close>, \<open>str(int)\<close>, \<open>str(uuid.UUID)\<close> and \<open>uuid.UUID(str)\<close>, on text
  read as ASCII code points (letters outside ASCII have no case here). The section ends
  with the round trip of UUID text, which tokens and cursors rely on.
\<close>

section \<open>Stripping and case\<close>

definition py_isspace :: "char \<Rightarrow> bool" where
  "py_isspace c \<longleftrightarrow> (let n = (of_char c :: nat) in (9 \<le> n \<and> n \<le> 13) \<or> (28 \<le> n \<and> n \<le> 32))"

definition strip_while :: "(char \<Rightarrow> bool) \<Rightarrow> pystr \<Rightarrow> pystr" where
  "strip_while P s = rev (dropWhile P (rev (dropWhile P s)))"

definition py_strip :: "pystr \<Rightarrow> pystr" where
  "py_strip = strip_while py_isspace"

definition lower_char :: "char \<Rightarrow> char" where
  "lower_char c = (let n = (of_char c :: nat) in if 65 \<le> n \<and> n \<le> 90 then char_of (n + 32) else c)"

definition upper_char :: "char \<Rightarrow> char" where
  "upper_char c = (let n = (of_char c :: nat) in if 97 \<le> n \<and> n \<le> 122 then char_of (n - 32) else c)"

definition py_lower :: "pystr \<Rightarrow> pystr" where "py_lower = map lower_char"

definition py_upper :: "pystr \<Rightarrow> pystr" where "py_upper = map upper_char"

lemma strip_while_idem [simp]: "strip_while P (strip_while P s) = strip_while P s"
proof -
  let ?t = "dropWhile P s"
  let ?u = "strip_while P s"
  have drop: "dropWhile P ?u = ?u"
  proof (cases "?u = []")
    case False
    have "\<exists>k. ?u = take k ?t"
      unfolding strip_while_def by (metis dropWhile_eq_drop rev_drop rev_rev_ident)
    then obtain k where k: "?u = take k ?t" ..
    with False have "?t \<noteq> []" "hd ?u = hd ?t"
      by (auto simp: hd_conv_nth)
    then have "\<not> P (hd ?u)"
      using hd_dropWhile by metis
    with False show ?thesis by (cases ?u) auto
  qed simp
  have "dropWhile P (rev ?u) = rev ?u"
    by (simp add: strip_while_def dropWhile_idem)
  with drop show ?thesis
    by (simp add: strip_while_def [of P "strip_while P s"])
qed

lemma py_strip_idem [simp]: "py_strip (py_strip s) = py_strip s"
  by (simp add: py_strip_def)

lemma strip_while_none: "\<forall>c \<in> set s. \<not> P c \<Longrightarrow> strip_while P s = s"
proof -
  assume none: "\<forall>c \<in> set s. \<not> P c"
  have keep: "dropWhile P xs = xs" if "\<forall>c \<in> set xs. \<not> P c" for xs
    using that by (cases xs) auto
  from none show ?thesis
    by (simp add: strip_while_def keep)
qed

lemma set_strip_while: "set (strip_while P s) \<subseteq> set s"
  by (auto simp: strip_while_def dest!: set_dropWhileD)

lemma length_strip_while: "length (strip_while P s) \<le> length s"
  unfolding strip_while_def
  by (metis length_dropWhile_le length_rev order_trans)

lemma length_py_strip: "length (py_strip s) \<le> length s"
  by (simp add: py_strip_def length_strip_while)

lemma dropWhile_map_stable: "(\<And>c. P (f c) = P c) \<Longrightarrow> dropWhile P (map f s) = map f (dropWhile P s)"
  by (induction s) auto

lemma strip_while_map: "(\<And>c. P (f c) = P c) \<Longrightarrow> strip_while P (map f s) = map f (strip_while P s)"
  by (simp add: strip_while_def dropWhile_map_stable rev_map)

lemma of_char_upper:
  "(of_char (upper_char c) :: nat) =
     (let n = of_char c in if 97 \<le> n \<and> n \<le> 122 then n - 32 else n)"
  by (auto simp: upper_char_def Let_def)

lemma of_char_lower:
  "(of_char (lower_char c) :: nat) =
     (let n = of_char c in if 65 \<le> n \<and> n \<le> 90 then n + 32 else n)"
  by (auto simp: lower_char_def Let_def)

lemma upper_char_idem [simp]: "upper_char (upper_char c) = upper_char c"
  by (auto simp: upper_char_def Let_def)

lemma lower_char_idem [simp]: "lower_char (lower_char c) = lower_char c"
  by (auto simp: lower_char_def Let_def)

lemma py_isspace_upper [simp]: "py_isspace (upper_char c) = py_isspace c"
  by (simp add: py_isspace_def of_char_upper Let_def) presburger

lemma py_isspace_lower [simp]: "py_isspace (lower_char c) = py_isspace c"
  by (simp add: py_isspace_def of_char_lower Let_def)

lemma py_upper_idem [simp]: "py_upper (py_upper s) = py_upper s"
  by (simp add: py_upper_def)

lemma py_lower_idem [simp]: "py_lower (py_lower s) = py_lower s"
  by (simp add: py_lower_def)

lemma py_strip_upper: "py_strip (py_upper s) = py_upper (py_strip s)"
  by (simp add: py_strip_def py_upper_def strip_while_map)

lemma py_strip_lower: "py_strip (py_lower s) = py_lower (py_strip s)"
  by (simp add: py_strip_def py_lower_def strip_while_map)

lemma length_py_upper [simp]: "length (py_upper s) = length s"
  by (simp add: py_upper_def)

lemma length_py_lower [simp]: "length (py_lower s) = length s"
  by (simp add: py_lower_def)

section \<open>Decimal and hexadecimal text\<close>

fun nat_digits :: "nat \<Rightarrow> pystr" where
  "nat_digits n = (if n < 10 then [char_of (48 + n)] else nat_digits (n div 10) @ [char_of (48 + n mod 10)])"

declare nat_digits.simps [simp del]

definition py_str_int :: "int \<Rightarrow> pystr" where
  "py_str_int i = (if i < 0 then CHR ''-'' # nat_digits (nat (- i)) else nat_digits (nat i))"

definition hex_char :: "nat \<Rightarrow> char" where
  "hex_char d = (if d < 10 then char_of (48 + d) else char_of (87 + d))"

text \<open>The \<open>k\<close> lowest hexadecimal digits of \<open>n\<close>, most significant first.\<close>

fun hex_digits :: "nat \<Rightarrow> nat \<Rightarrow> pystr" where
  "hex_digits 0 n = []"
| "hex_digits (Suc k) n = hex_digits k (n div 16) @ [hex_char (n mod 16)]"

definition uuid_str :: "uuid \<Rightarrow> pystr" where
  "uuid_str u =
     (let h = hex_digits 32 (unat u) in
      take 8 h @ ''-'' @ take 4 (drop 8 h) @ ''-'' @ take 4 (drop 12 h) @ ''-'' @
      take 4 (drop 16 h) @ ''-'' @ drop 20 h)"

text \<open>\<open>uuid.uuid4().hex\<close>, the 32 digits without separators.\<close>

definition uuid_hex :: "uuid \<Rightarrow> pystr" where
  "uuid_hex u = hex_digits 32 (unat u)"

section \<open>Parsing UUID text: \<open>uuid.UUID(s)\<close>\<close>

definition hex_val :: "char \<Rightarrow> nat option" where
  "hex_val c =
     (let n = (of_char c :: nat) in
      if 48 \<le> n \<and> n \<le> 57 then Some (n - 48)
      else if 97 \<le> n \<and> n \<le> 102 then Some (n - 87)
      else if 65 \<le> n \<and> n \<le> 70 then Some (n - 55)
      else None)"

text \<open>\<open>s.replace(old, "")\<close>, left to right, for a non-empty \<open>old\<close>.\<close>

fun py_remove :: "pystr \<Rightarrow> pystr \<Rightarrow> pystr" where
  "py_remove old [] = []"
| "py_remove old (c # cs) =
     (if old \<noteq> [] \<and> take (length old) (c # cs) = old
      then py_remove old (drop (length old - 1) cs)
      else c # py_remove old cs)"

text \<open>
  The digits of \<open>int(s, 16)\<close>: a single underscore is allowed between two digits, and
  the flag says whether the last character was a digit.
\<close>

fun hex_run :: "nat \<Rightarrow> bool \<Rightarrow> pystr \<Rightarrow> nat option" where
  "hex_run acc d [] = (if d then Some acc else None)"
| "hex_run acc d (c # cs) =
     (if c = CHR ''_'' then (if d then hex_run acc False cs else None)
      else (case hex_val c of None \<Rightarrow> None | Some v \<Rightarrow> hex_run (16 * acc + v) True cs))"

definition hex_body :: "pystr \<Rightarrow> nat option" where
  "hex_body s =
     (if take 2 s = ''0x'' \<or> take 2 s = ''0X''
      then (let r = drop 2 s in hex_run 0 False (if take 1 r = ''_'' then drop 1 r else r))
      else hex_run 0 False s)"

definition py_int16 :: "pystr \<Rightarrow> int option" where
  "py_int16 s =
     (case py_strip s of
        [] \<Rightarrow> None
      | c # cs \<Rightarrow>
          if c = CHR ''-'' then map_option (\<lambda>n. - int n) (hex_body cs)
          else if c = CHR ''+'' then map_option int (hex_body cs)
          else map_option int (hex_body (c # cs)))"

definition uuid_of_str :: "pystr \<Rightarrow> uuid option" where
  "uuid_of_str s =
     (let h = py_remove ''uuid:'' (py_remove ''urn:'' s);
          h = strip_while (\<lambda>c. c = CHR ''{'' \<or> c = CHR ''}'') h;
          h = filter (\<lambda>c. c \<noteq> CHR ''-'') h
      in if length h \<noteq> 32 then None
         else (case py_int16 h of
                 None \<Rightarrow> None
               | Some v \<Rightarrow> if 0 \<le> v \<and> v < 2 ^ 128 then Some (word_of_int v) else None))"

section \<open>The round trip of UUID text\<close>

lemma less_16_cases:
  "d < (16::nat) \<Longrightarrow> d = 0 \<or> d = 1 \<or> d = 2 \<or> d = 3 \<or> d = 4 \<or> d = 5 \<or> d = 6 \<or> d = 7 \<or>
     d = 8 \<or> d = 9 \<or> d = 10 \<or> d = 11 \<or> d = 12 \<or> d = 13 \<or> d = 14 \<or> d = 15"
  by arith

lemma hex_char_values:
  "hex_char 0 = CHR ''0''" "hex_char 1 = CHR ''1''" "hex_char 2 = CHR ''2''" "hex_char 3 = CHR ''3''"
  "hex_char 4 = CHR ''4''" "hex_char 5 = CHR ''5''" "hex_char 6 = CHR ''6''" "hex_char 7 = CHR ''7''"
  "hex_char 8 = CHR ''8''" "hex_char 9 = CHR ''9''" "hex_char 10 = CHR ''a''" "hex_char 11 = CHR ''b''"
  "hex_char 12 = CHR ''c''" "hex_char 13 = CHR ''d''" "hex_char 14 = CHR ''e''" "hex_char 15 = CHR ''f''"
  by (simp_all add: hex_char_def char_of_def bit_0)

lemma hex_char_table:
  assumes "d < 16"
  shows "hex_val (hex_char d) = Some d \<and> \<not> py_isspace (hex_char d) \<and> hex_char d \<notin> set ''_-+:{}xX''"
  using less_16_cases [OF assms]
  by (elim disjE) (simp_all add: hex_char_values [simplified] hex_val_def py_isspace_def)

lemma hex_val_char: "d < 16 \<Longrightarrow> hex_val (hex_char d) = Some d"
  using hex_char_table by simp

lemma hex_char_not:
  assumes "d < 16"
  shows "hex_char d \<notin> {CHR ''_'', CHR ''-'', CHR ''+'', CHR '':'', CHR ''{'', CHR ''}'', CHR ''x'', CHR ''X''}"
    and "\<not> py_isspace (hex_char d)"
proof -
  from hex_char_table [OF assms] have "\<not> py_isspace (hex_char d)" "hex_char d \<notin> set ''_-+:{}xX''" by blast+
  then show "hex_char d \<notin> {CHR ''_'', CHR ''-'', CHR ''+'', CHR '':'', CHR ''{'', CHR ''}'', CHR ''x'', CHR ''X''}"
    and "\<not> py_isspace (hex_char d)"
    by auto
qed

lemma length_hex_digits [simp]: "length (hex_digits k n) = k"
  by (induction k n rule: hex_digits.induct) auto

lemma set_hex_digits: "c \<in> set (hex_digits k n) \<Longrightarrow> \<exists>d < 16. c = hex_char d"
  by (induction k n rule: hex_digits.induct) (auto intro: exI [of _ "_ mod 16"])

lemma hex_run_append_digit:
  "hex_run acc d xs = Some v \<Longrightarrow> b < 16 \<Longrightarrow> hex_run acc d (xs @ [hex_char b]) = Some (16 * v + b)"
proof (induction acc d xs rule: hex_run.induct)
  case (1 acc d)
  then show ?case
    using hex_char_not(1) [of b] by (auto simp: hex_val_char split: if_splits)
next
  case (2 acc d c cs)
  then show ?case by (auto split: if_splits option.splits)
qed

lemma hex_run_digits: "k > 0 \<Longrightarrow> hex_run 0 False (hex_digits k n) = Some (n mod 16 ^ k)"
proof (induction k arbitrary: n)
  case 0
  then show ?case by simp
next
  case (Suc k)
  have step: "16 * (n div 16 mod 16 ^ k) + n mod 16 = n mod (16 * 16 ^ k)"
    by (simp add: mod_mult2_eq)
  show ?case
  proof (cases "k = 0")
    case True
    then show ?thesis
      using hex_char_not(1) [of "n mod 16"] by (auto simp: hex_val_char)
  next
    case False
    with Suc.IH [of "n div 16"]
    have "hex_run 0 False (hex_digits k (n div 16)) = Some (n div 16 mod 16 ^ k)" by simp
    then show ?thesis
      using step by (simp add: hex_run_append_digit)
  qed
qed

lemma py_remove_absent: "c \<in> set old \<Longrightarrow> c \<notin> set s \<Longrightarrow> py_remove old s = s"
proof (induction old s rule: py_remove.induct)
  case (2 old a as)
  have "take (length old) (a # as) \<noteq> old"
    using "2.prems" set_take_subset [of "length old" "a # as"] by auto
  with "2" show ?case by simp
qed simp

lemma py_int16_digits:
  assumes "k > 1"
  shows "py_int16 (hex_digits k n) = Some (int (n mod 16 ^ k))"
proof -
  let ?h = "hex_digits k n"
  have ne: "?h \<noteq> []" using assms by (metis length_hex_digits list.size(3) not_less_zero)
  then obtain c cs where h: "?h = c # cs" by (cases ?h) auto
  have chars: "\<And>x. x \<in> set ?h \<Longrightarrow> \<exists>d < 16. x = hex_char d" by (rule set_hex_digits)
  have strip: "py_strip ?h = ?h"
    unfolding py_strip_def
    by (rule strip_while_none) (use chars hex_char_not(2) in blast)
  have sign: "c \<noteq> CHR ''-''" "c \<noteq> CHR ''+''"
    using chars [of c] h hex_char_not(1) by auto
  have no_x: "CHR ''x'' \<notin> set ?h" "CHR ''X'' \<notin> set ?h"
    by (auto dest!: chars dest: hex_char_not(1))
  have noprefix: "take 2 ?h \<noteq> ''0x''" "take 2 ?h \<noteq> ''0X''"
    using no_x in_set_takeD [of _ 2 ?h] by fastforce+
  have "hex_body ?h = Some (n mod 16 ^ k)"
    using assms noprefix by (simp add: hex_body_def hex_run_digits)
  then show ?thesis
    using sign strip unfolding py_int16_def h by simp
qed

lemma uuid_str_chars: "c \<in> set (uuid_str u) \<Longrightarrow> c = CHR ''-'' \<or> (\<exists>d < 16. c = hex_char d)"
  unfolding uuid_str_def Let_def
  by (auto dest!: in_set_takeD in_set_dropD set_hex_digits)

lemma uuid_str_no_dash: "filter (\<lambda>c. c \<noteq> CHR ''-'') (uuid_str u) = hex_digits 32 (unat u)"
proof -
  let ?h = "hex_digits 32 (unat u)"
  have keep: "filter (\<lambda>c. c \<noteq> CHR ''-'') xs = xs" if "set xs \<subseteq> set ?h" for xs
    using that by (auto simp: filter_id_conv dest!: subsetD set_hex_digits dest: hex_char_not(1))
  have sub: "set (take n ?h) \<subseteq> set ?h" "set (drop n ?h) \<subseteq> set ?h"
      "set (take n (drop m ?h)) \<subseteq> set ?h" for n m
    by (auto dest: in_set_takeD in_set_dropD)
  have join: "take n (drop m ?h) @ drop (n + m) ?h = drop m ?h" for n m
    using append_take_drop_id [of n "drop m ?h"] by simp
  have parts: "take 8 ?h @ take 4 (drop 8 ?h) @ take 4 (drop 12 ?h) @ take 4 (drop 16 ?h) @ drop 20 ?h = ?h"
    using join [of 4 16] join [of 4 12] join [of 4 8] append_take_drop_id [of 8 ?h] by simp
  show ?thesis
    unfolding uuid_str_def Let_def by (simp add: keep sub parts)
qed

theorem uuid_text_roundtrip: "uuid_of_str (uuid_str u) = Some u"
proof -
  let ?s = "uuid_str u"
  have absent: "CHR '':'' \<notin> set ?s" "\<forall>c \<in> set ?s. \<not> (c = CHR ''{'' \<or> c = CHR ''}'')"
    by (auto dest!: uuid_str_chars dest: hex_char_not(1))
  have "py_remove ''urn:'' ?s = ?s" "py_remove ''uuid:'' ?s = ?s"
    using absent(1) by (auto intro!: py_remove_absent [of "CHR '':''"])
  moreover have "strip_while (\<lambda>c. c = CHR ''{'' \<or> c = CHR ''}'') ?s = ?s"
    by (rule strip_while_none) (rule absent(2))
  moreover have "py_int16 (hex_digits 32 (unat u)) = Some (uint u)"
  proof -
    have "unat u mod 16 ^ 32 = unat u"
      using unsigned_less [of u, where ?'a = nat] by (intro mod_less) simp
    then show ?thesis by (simp add: py_int16_digits)
  qed
  moreover have "0 \<le> uint u" "uint u < 2 ^ 128"
    using uint_lt2p [of u] by auto
  ultimately show ?thesis
    by (simp add: uuid_of_str_def uuid_str_no_dash)
qed

lemma uuid_str_inject: "uuid_str u = uuid_str v \<longleftrightarrow> u = v"
  by (metis uuid_text_roundtrip option.inject)

end
