(* ===== verification/Faults.thy ===== *)
theory Faults
  imports PyText "HOL-Library.AList"
begin

text \<open>
  The exceptions of the program as values (\<open>app/core/exceptions.py\<close>, FastAPI's
  \<open>HTTPException\<close>, and what the database layer raises), and the handlers that turn
  an exception into the RFC 7807 answer of the API (\<open>app/core/middleware.py\<close>).
\<close>

section \<open>Exceptions\<close>

text \<open>
  \<open>AppException\<close> carries the fields its constructor stores (its \<open>extra\<close> dictionary
  is always empty in this code base). \<open>IntegrityError\<close> (a constraint), \<open>DataError\<close>
  (a value a column cannot hold), \<open>MultipleResultsFound\<close>, \<open>StaleDataError\<close> (an
  update of a row that is gone) and \<open>DatabaseError\<close> (a commit
  that fails) come from the database layer, \<open>RedisError\<close> from the Redis client, the rest from
  Python.
\<close>

datatype exn =
    AppException (message: pystr) (status_code: int) (title: pystr) (type_uri: pystr)
  | HTTPException (http_status: int) (http_detail: pystr) (http_headers: "(pystr \<times> pystr) list")
  | IntegrityError
  | DataError
  | MultipleResultsFound
  | DatabaseError
  | StaleDataError
  | PyValueError
  | PyTypeError
  | PyKeyError
  | PyAttributeError
  | RedisError

text \<open>\<open>AppException(message=..., status_code=...)\<close> with the defaults of the other fields.\<close>

definition app_exception :: "pystr \<Rightarrow> int \<Rightarrow> exn" where
  "app_exception msg status = AppException msg status ''Internal Application Error'' ''about:blank''"

definition EntityNotFoundException :: "pystr \<Rightarrow> pystr \<Rightarrow> exn" where
  "EntityNotFoundException entity_name identifier =
     AppException (entity_name @ '' with identifier '' @ [CHR 0x27] @ identifier @ [CHR 0x27] @ '' was not found.'')
       404 ''Entity Not Found'' ''https://api.saas.platform/errors/not-found''"

definition EntityConflictException :: "pystr \<Rightarrow> exn" where
  "EntityConflictException msg =
     AppException msg 409 ''Resource Conflict'' ''https://api.saas.platform/errors/conflict''"

definition ForbiddenOperationException :: "pystr \<Rightarrow> exn" where
  "ForbiddenOperationException msg =
     AppException msg 403 ''Forbidden Operation'' ''https://api.saas.platform/errors/forbidden''"

section \<open>Problem responses\<close>

record error_detail =
  ed_field :: "pystr option"
  ed_issue :: pystr

record problem_detail =
  pd_type :: pystr
  pd_title :: pystr
  pd_status :: int
  pd_detail :: pystr
  pd_instance :: "pystr option"
  pd_request_id :: pystr
  pd_invalid_params :: "error_detail list"
  pd_timestamp :: instant

record json_response =
  resp_status :: int
  resp_content :: problem_detail
  resp_headers :: "(pystr \<times> pystr) list"

text \<open>
  What a handler reads from the request: the path, the \<open>request_id\<close> bound by
  \<open>RequestContextLogMiddleware\<close> in the logging context, if any, and the UUID that
  \<open>uuid.uuid4()\<close> gives for the default.
\<close>

record request_info =
  rq_path :: pystr
  rq_context_id :: "pystr option"
  rq_fresh :: uuid
  rq_now :: instant

definition request_id :: "request_info \<Rightarrow> pystr" where
  "request_id rq = (case rq_context_id rq of Some r \<Rightarrow> r | None \<Rightarrow> uuid_str (rq_fresh rq))"

definition app_exception_handler ::
  "request_info \<Rightarrow> pystr \<Rightarrow> int \<Rightarrow> pystr \<Rightarrow> pystr \<Rightarrow> json_response" where
  "app_exception_handler rq msg status ttl uri =
     \<lparr>resp_status = status,
      resp_content = \<lparr>pd_type = uri, pd_title = ttl, pd_status = status, pd_detail = msg,
        pd_instance = Some (rq_path rq), pd_request_id = request_id rq, pd_invalid_params = [],
        pd_timestamp = rq_now rq\<rparr>,
      resp_headers = [(''X-Request-ID'', request_id rq)]\<rparr>"

definition http_exception_handler ::
  "request_info \<Rightarrow> int \<Rightarrow> pystr \<Rightarrow> (pystr \<times> pystr) list \<Rightarrow> json_response" where
  "http_exception_handler rq status detail hdrs =
     \<lparr>resp_status = status,
      resp_content = \<lparr>pd_type = ''about:blank'', pd_title = ''HTTP Error'', pd_status = status,
        pd_detail = detail, pd_instance = Some (rq_path rq), pd_request_id = request_id rq,
        pd_invalid_params = [], pd_timestamp = rq_now rq\<rparr>,
      resp_headers = fold (\<lambda>(k, v). AList.update k v) hdrs [(''X-Request-ID'', request_id rq)]\<rparr>"

definition global_unhandled_exception_handler :: "request_info \<Rightarrow> json_response" where
  "global_unhandled_exception_handler rq =
     \<lparr>resp_status = 500,
      resp_content = \<lparr>pd_type = ''https://api.saas.platform/errors/internal-error'',
        pd_title = ''Internal Infrastructure Failure'', pd_status = 500,
        pd_detail = ''An internal server error occurred while processing the request.'',
        pd_instance = Some (rq_path rq), pd_request_id = request_id rq, pd_invalid_params = [],
        pd_timestamp = rq_now rq\<rparr>,
      resp_headers = [(''X-Request-ID'', request_id rq)]\<rparr>"

text \<open>
  \<open>validation_exception_handler\<close>: each entry of \<open>exc.errors()\<close> has its location
  parts, already as text, and its message, which may be absent.
\<close>

fun join_with :: "pystr \<Rightarrow> pystr list \<Rightarrow> pystr" where
  "join_with sep [] = []"
| "join_with sep [x] = x"
| "join_with sep (x # xs) = x @ sep @ join_with sep xs"

definition validation_exception_handler ::
  "request_info \<Rightarrow> (pystr list \<times> pystr option) list \<Rightarrow> json_response" where
  "validation_exception_handler rq errs =
     \<lparr>resp_status = 422,
      resp_content = \<lparr>pd_type = ''https://api.saas.platform/errors/validation-failed'',
        pd_title = ''Schema Validation Error'', pd_status = 422,
        pd_detail = ''The supplied request payload failed schema validation constraints.'',
        pd_instance = Some (rq_path rq), pd_request_id = request_id rq,
        pd_invalid_params =
          map (\<lambda>(loc, msg). \<lparr>ed_field = Some (join_with '' -> '' loc),
             ed_issue = (case msg of Some m \<Rightarrow> m | None \<Rightarrow> ''Invalid value'')\<rparr>) errs,
        pd_timestamp = rq_now rq\<rparr>,
      resp_headers = [(''X-Request-ID'', request_id rq)]\<rparr>"

text \<open>
  The handler registered for an exception's class in \<open>create_application\<close>: those of
  \<open>AppException\<close> and \<open>HTTPException\<close>, and the catch-all for every other exception.
\<close>

fun exception_response :: "request_info \<Rightarrow> exn \<Rightarrow> json_response" where
  "exception_response rq (AppException msg status ttl uri) = app_exception_handler rq msg status ttl uri"
| "exception_response rq (HTTPException status detail hdrs) = http_exception_handler rq status detail hdrs"
| "exception_response rq _ = global_unhandled_exception_handler rq"

definition exn_status :: "exn \<Rightarrow> int" where
  "exn_status e = (case e of AppException _ s _ _ \<Rightarrow> s | HTTPException s _ _ \<Rightarrow> s | _ \<Rightarrow> 500)"

lemmas exception_handler_defs =
  app_exception_handler_def http_exception_handler_def global_unhandled_exception_handler_def

lemma resp_status_exception_response: "resp_status (exception_response rq e) = exn_status e"
  by (cases e) (simp_all add: exception_handler_defs exn_status_def)

lemma pd_status_exception_response:
  "pd_status (resp_content (exception_response rq e)) = resp_status (exception_response rq e)"
  by (cases e) (simp_all add: exception_handler_defs)

lemma exn_status_simps [simp]:
  "exn_status (EntityNotFoundException n i) = 404"
  "exn_status (EntityConflictException m) = 409"
  "exn_status (ForbiddenOperationException m) = 403"
  "exn_status (HTTPException s d h) = s"
  "exn_status (app_exception m s) = s"
  by (simp_all add: exn_status_def EntityNotFoundException_def EntityConflictException_def
      ForbiddenOperationException_def app_exception_def)

lemma map_of_fold_update:
  "map_of (fold (\<lambda>(k, v). AList.update k v) hs base) = map_of base ++ map_of (rev hs)"
  by (induction hs arbitrary: base) (auto simp: update_conv' fun_eq_iff map_add_def split: option.splits)

lemma http_handler_keeps_headers:
  "distinct (map fst hs) \<Longrightarrow> (k, v) \<in> set hs \<Longrightarrow>
     map_of (resp_headers (http_exception_handler rq status detail hs)) k = Some v"
  by (simp add: http_exception_handler_def map_of_fold_update map_add_def rev_map [symmetric])

end
