(* ===== verification/Models.thy ===== *)
theory Models
  imports Faults
begin

text \<open>
  The data of the program: the enumerations of \<open>app/models/enums.py\<close>, one record per
  table of \<open>app/models\<close> (columns prefixed by the table's letter, since HOL field names
  are global), the database as the tables' rows in insertion order, and the
  constraints the models declare: primary keys, unique keys, foreign keys, column sizes.
\<close>

section \<open>Enumerations\<close>

datatype org_role = OWNER | ADMIN | MANAGER | MEMBER | VIEWER

datatype task_status = BACKLOG | TODO | IN_PROGRESS | IN_REVIEW | DONE

datatype task_priority = LOW | MEDIUM | HIGH | URGENT

datatype notification_type =
  TASK_ASSIGNED | TASK_STATUS_CHANGED | TASK_COMMENTED | ORG_INVITATION | ROLE_UPDATED

datatype audit_action = AUDIT_CREATE | AUDIT_UPDATE | AUDIT_DELETE | AUDIT_SOFT_DELETE | AUDIT_RESTORE

fun org_role_value :: "org_role \<Rightarrow> pystr" where
  "org_role_value OWNER = ''owner''"
| "org_role_value ADMIN = ''admin''"
| "org_role_value MANAGER = ''manager''"
| "org_role_value MEMBER = ''member''"
| "org_role_value VIEWER = ''viewer''"

fun task_status_value :: "task_status \<Rightarrow> pystr" where
  "task_status_value BACKLOG = ''backlog''"
| "task_status_value TODO = ''todo''"
| "task_status_value IN_PROGRESS = ''in_progress''"
| "task_status_value IN_REVIEW = ''in_review''"
| "task_status_value DONE = ''done''"

fun task_priority_value :: "task_priority \<Rightarrow> pystr" where
  "task_priority_value LOW = ''low''"
| "task_priority_value MEDIUM = ''medium''"
| "task_priority_value HIGH = ''high''"
| "task_priority_value URGENT = ''urgent''"

section \<open>JSON values, for the audit states, the event payloads and the cursors\<close>

text \<open>A number with a fraction or an exponent keeps its literal.\<close>

datatype json =
  JNull | JBool bool | JInt int | JFloat pystr | JStr pystr | JArr "json list" | JObj "(pystr \<times> json) list"

fun json_opt_str :: "pystr option \<Rightarrow> json" where
  "json_opt_str None = JNull"
| "json_opt_str (Some s) = JStr s"

section \<open>Rows\<close>

record user =
  u_id :: uuid
  u_email :: pystr
  u_hashed_password :: pystr
  u_full_name :: pystr
  u_avatar_url :: "pystr option"
  u_is_active :: bool
  u_is_verified :: bool
  u_created_at :: instant
  u_updated_at :: instant

record organization =
  o_id :: uuid
  o_name :: pystr
  o_slug :: pystr
  o_logo_url :: "pystr option"
  o_is_active :: bool
  o_created_at :: instant
  o_updated_at :: instant

record organization_member =
  m_id :: uuid
  m_organization_id :: uuid
  m_user_id :: uuid
  m_role :: org_role
  m_created_at :: instant
  m_updated_at :: instant

record team =
  tm_id :: uuid
  tm_organization_id :: uuid
  tm_name :: pystr
  tm_slug :: pystr
  tm_description :: "pystr option"
  tm_created_at :: instant
  tm_updated_at :: instant

record team_member =
  tmm_id :: uuid
  tmm_organization_id :: uuid
  tmm_team_id :: uuid
  tmm_user_id :: uuid
  tmm_created_at :: instant
  tmm_updated_at :: instant

record project =
  p_id :: uuid
  p_organization_id :: uuid
  p_team_id :: "uuid option"
  p_name :: pystr
  p_key :: pystr
  p_description :: "pystr option"
  p_is_archived :: bool
  p_version_id :: int
  p_created_at :: instant
  p_updated_at :: instant

record task =
  t_id :: uuid
  t_organization_id :: uuid
  t_project_id :: uuid
  t_parent_id :: "uuid option"
  t_reporter_id :: uuid
  t_assignee_id :: "uuid option"
  t_title :: pystr
  t_description :: "pystr option"
  t_status :: task_status
  t_priority :: task_priority
  t_due_date :: "instant option"
  t_version_id :: int
  t_created_at :: instant
  t_updated_at :: instant
  t_is_deleted :: bool
  t_deleted_at :: "instant option"

record comment =
  c_id :: uuid
  c_organization_id :: uuid
  c_task_id :: uuid
  c_author_id :: uuid
  c_content :: pystr
  c_is_edited :: bool
  c_created_at :: instant
  c_updated_at :: instant

record attachment =
  a_id :: uuid
  a_organization_id :: uuid
  a_task_id :: uuid
  a_uploader_id :: uuid
  a_file_name :: pystr
  a_file_size :: int
  a_content_type :: pystr
  a_s3_key :: pystr
  a_created_at :: instant
  a_updated_at :: instant

record audit_log =
  al_id :: uuid
  al_organization_id :: uuid
  al_actor_id :: "uuid option"
  al_entity_type :: pystr
  al_entity_id :: uuid
  al_action :: audit_action
  al_before_state :: "json option"
  al_after_state :: "json option"
  al_ip_address :: "pystr option"
  al_user_agent :: "pystr option"
  al_timestamp :: instant

record notification =
  n_id :: uuid
  n_organization_id :: uuid
  n_user_id :: uuid
  n_actor_id :: "uuid option"
  n_title :: pystr
  n_body :: pystr
  n_event_type :: notification_type
  n_is_read :: bool
  n_read_at :: "instant option"
  n_resource_type :: "pystr option"
  n_resource_id :: "uuid option"
  n_created_at :: instant
  n_updated_at :: instant

record database =
  tbl_users :: "user list"
  tbl_organizations :: "organization list"
  tbl_organization_members :: "organization_member list"
  tbl_teams :: "team list"
  tbl_team_members :: "team_member list"
  tbl_projects :: "project list"
  tbl_tasks :: "task list"
  tbl_comments :: "comment list"
  tbl_attachments :: "attachment list"
  tbl_audit_logs :: "audit_log list"
  tbl_notifications :: "notification list"

definition empty_database :: database where
  "empty_database = \<lparr>tbl_users = [], tbl_organizations = [], tbl_organization_members = [],
     tbl_teams = [], tbl_team_members = [], tbl_projects = [], tbl_tasks = [], tbl_comments = [],
     tbl_attachments = [], tbl_audit_logs = [], tbl_notifications = []\<rparr>"

section \<open>Key sets of the tables\<close>

definition user_ids :: "database \<Rightarrow> uuid set" where
  "user_ids d = u_id ` set (tbl_users d)"

definition organization_ids :: "database \<Rightarrow> uuid set" where
  "organization_ids d = o_id ` set (tbl_organizations d)"

definition team_ids :: "database \<Rightarrow> uuid set" where
  "team_ids d = tm_id ` set (tbl_teams d)"

definition project_ids :: "database \<Rightarrow> uuid set" where
  "project_ids d = p_id ` set (tbl_projects d)"

definition task_ids :: "database \<Rightarrow> uuid set" where
  "task_ids d = t_id ` set (tbl_tasks d)"

lemmas key_set_defs =
  user_ids_def organization_ids_def team_ids_def project_ids_def task_ids_def

text \<open>A nullable foreign key.\<close>

definition opt_ref :: "uuid option \<Rightarrow> uuid set \<Rightarrow> bool" where
  "opt_ref v ids \<longleftrightarrow> (case v of None \<Rightarrow> True | Some i \<Rightarrow> i \<in> ids)"

lemma opt_ref_mono: "opt_ref v A \<Longrightarrow> A \<subseteq> B \<Longrightarrow> opt_ref v B"
  by (auto simp: opt_ref_def split: option.splits)

text \<open>\<open>String(n)\<close> columns, nullable or not, and the range of \<open>Integer\<close> and \<open>BigInteger\<close>.\<close>

definition fits :: "nat \<Rightarrow> pystr \<Rightarrow> bool" where
  "fits n s \<longleftrightarrow> length s \<le> n"

definition fits_opt :: "nat \<Rightarrow> pystr option \<Rightarrow> bool" where
  "fits_opt n v \<longleftrightarrow> (case v of None \<Rightarrow> True | Some s \<Rightarrow> length s \<le> n)"

definition fits_int4 :: "int \<Rightarrow> bool" where
  "fits_int4 i \<longleftrightarrow> - 2147483648 \<le> i \<and> i \<le> 2147483647"

definition fits_int8 :: "int \<Rightarrow> bool" where
  "fits_int8 i \<longleftrightarrow> - 9223372036854775808 \<le> i \<and> i \<le> 9223372036854775807"

lemmas fits_defs = fits_def fits_opt_def fits_int4_def fits_int8_def

end
