(* ===== verification/Tables.thy ===== *)
theory Tables
  imports Models
begin

text \<open>
  Table descriptors: for each model class, how its rows sit in the database and the
  constraints \<open>app/models\<close> declares on them. A descriptor is what the generic
  repositories take as their \<open>model\<close> argument. The locales state what the generic
  operations rely on, and are interpreted on every table of the program.
\<close>

section \<open>Descriptors\<close>

record 'r model =
  model_name :: pystr
  rows_of :: "database \<Rightarrow> 'r list"
  with_rows :: "'r list \<Rightarrow> database \<Rightarrow> database"
  pk_of :: "'r \<Rightarrow> uuid"
  fits_row :: "'r \<Rightarrow> bool"
  refs_row :: "database \<Rightarrow> 'r \<Rightarrow> bool"
  same_key :: "'r \<Rightarrow> 'r \<Rightarrow> bool"
  touch :: "instant \<Rightarrow> 'r \<Rightarrow> 'r"

text \<open>
  A model with \<open>TenantScopedMixin\<close>; \<open>deleted_flag\<close> is the \<open>is_deleted\<close> column of
  \<open>SoftDeleteMixin\<close>, \<open>None\<close> for a model without it (\<open>hasattr(model, "is_deleted")\<close>).
\<close>

record 'r tenant_model = "'r model" +
  org_of :: "'r \<Rightarrow> uuid"
  with_org :: "uuid \<Rightarrow> 'r \<Rightarrow> 'r"
  deleted_flag :: "('r \<Rightarrow> bool) option"
  mark_deleted :: "instant \<Rightarrow> 'r \<Rightarrow> 'r"

text \<open>The constraint a row of the table breaks, if any, in a given database.\<close>

definition violation :: "('r, 'x) model_scheme \<Rightarrow> database \<Rightarrow> 'r \<Rightarrow> exn option" where
  "violation M d r =
     (if \<not> fits_row M r then Some DataError
      else if \<not> refs_row M d r \<or> (\<exists>r' \<in> set (rows_of M d). pk_of M r' \<noteq> pk_of M r \<and> same_key M r' r)
      then Some IntegrityError
      else None)"

definition table_ok :: "('r, 'x) model_scheme \<Rightarrow> database \<Rightarrow> bool" where
  "table_ok M d \<longleftrightarrow>
     distinct (map (pk_of M) (rows_of M d)) \<and> (\<forall>r \<in> set (rows_of M d). violation M d r = None)"

text \<open>The key sets foreign keys point to only grow from one database to the next.\<close>

definition grows :: "database \<Rightarrow> database \<Rightarrow> bool" where
  "grows d d' \<longleftrightarrow> user_ids d \<subseteq> user_ids d' \<and> organization_ids d \<subseteq> organization_ids d' \<and>
     team_ids d \<subseteq> team_ids d' \<and> project_ids d \<subseteq> project_ids d' \<and> task_ids d \<subseteq> task_ids d'"

lemma grows_refl [simp]: "grows d d"
  by (simp add: grows_def)

lemma grows_trans: "grows a b \<Longrightarrow> grows b c \<Longrightarrow> grows a c"
  by (auto simp: grows_def)

section \<open>The tables of the program\<close>

definition User :: "user model" where
  "User = \<lparr>model_name = ''User'', rows_of = tbl_users, with_rows = (\<lambda>xs d. d\<lparr>tbl_users := xs\<rparr>),
     pk_of = u_id,
     fits_row = (\<lambda>r. fits 255 (u_email r) \<and> fits 255 (u_hashed_password r) \<and>
       fits 100 (u_full_name r) \<and> fits_opt 1024 (u_avatar_url r)),
     refs_row = (\<lambda>d r. True),
     same_key = (\<lambda>r r'. u_email r = u_email r'),
     touch = (\<lambda>now r. r\<lparr>u_updated_at := now\<rparr>)\<rparr>"

definition Organization :: "organization model" where
  "Organization = \<lparr>model_name = ''Organization'', rows_of = tbl_organizations,
     with_rows = (\<lambda>xs d. d\<lparr>tbl_organizations := xs\<rparr>), pk_of = o_id,
     fits_row = (\<lambda>r. fits 100 (o_name r) \<and> fits 100 (o_slug r) \<and> fits_opt 1024 (o_logo_url r)),
     refs_row = (\<lambda>d r. True),
     same_key = (\<lambda>r r'. o_slug r = o_slug r'),
     touch = (\<lambda>now r. r\<lparr>o_updated_at := now\<rparr>)\<rparr>"

definition OrganizationMember :: "organization_member model" where
  "OrganizationMember = \<lparr>model_name = ''OrganizationMember'', rows_of = tbl_organization_members,
     with_rows = (\<lambda>xs d. d\<lparr>tbl_organization_members := xs\<rparr>), pk_of = m_id,
     fits_row = (\<lambda>r. True),
     refs_row = (\<lambda>d r. m_organization_id r \<in> organization_ids d \<and> m_user_id r \<in> user_ids d),
     same_key = (\<lambda>r r'. m_organization_id r = m_organization_id r' \<and> m_user_id r = m_user_id r'),
     touch = (\<lambda>now r. r\<lparr>m_updated_at := now\<rparr>)\<rparr>"

definition Team :: "team tenant_model" where
  "Team = \<lparr>model_name = ''Team'', rows_of = tbl_teams, with_rows = (\<lambda>xs d. d\<lparr>tbl_teams := xs\<rparr>),
     pk_of = tm_id,
     fits_row = (\<lambda>r. fits 100 (tm_name r) \<and> fits 100 (tm_slug r)),
     refs_row = (\<lambda>d r. tm_organization_id r \<in> organization_ids d),
     same_key = (\<lambda>r r'. tm_organization_id r = tm_organization_id r' \<and> tm_slug r = tm_slug r'),
     touch = (\<lambda>now r. r\<lparr>tm_updated_at := now\<rparr>),
     org_of = tm_organization_id, with_org = (\<lambda>org r. r\<lparr>tm_organization_id := org\<rparr>),
     deleted_flag = None, mark_deleted = (\<lambda>now r. r)\<rparr>"

definition TeamMember :: "team_member tenant_model" where
  "TeamMember = \<lparr>model_name = ''TeamMember'', rows_of = tbl_team_members,
     with_rows = (\<lambda>xs d. d\<lparr>tbl_team_members := xs\<rparr>), pk_of = tmm_id,
     fits_row = (\<lambda>r. True),
     refs_row = (\<lambda>d r. tmm_organization_id r \<in> organization_ids d \<and> tmm_team_id r \<in> team_ids d \<and>
       tmm_user_id r \<in> user_ids d),
     same_key = (\<lambda>r r'. tmm_team_id r = tmm_team_id r' \<and> tmm_user_id r = tmm_user_id r'),
     touch = (\<lambda>now r. r\<lparr>tmm_updated_at := now\<rparr>),
     org_of = tmm_organization_id, with_org = (\<lambda>org r. r\<lparr>tmm_organization_id := org\<rparr>),
     deleted_flag = None, mark_deleted = (\<lambda>now r. r)\<rparr>"

definition Project :: "project tenant_model" where
  "Project = \<lparr>model_name = ''Project'', rows_of = tbl_projects,
     with_rows = (\<lambda>xs d. d\<lparr>tbl_projects := xs\<rparr>), pk_of = p_id,
     fits_row = (\<lambda>r. fits 100 (p_name r) \<and> fits 10 (p_key r) \<and> fits_int4 (p_version_id r)),
     refs_row = (\<lambda>d r. p_organization_id r \<in> organization_ids d \<and> opt_ref (p_team_id r) (team_ids d)),
     same_key = (\<lambda>r r'. p_organization_id r = p_organization_id r' \<and> p_key r = p_key r'),
     touch = (\<lambda>now r. r\<lparr>p_updated_at := now\<rparr>),
     org_of = p_organization_id, with_org = (\<lambda>org r. r\<lparr>p_organization_id := org\<rparr>),
     deleted_flag = None, mark_deleted = (\<lambda>now r. r)\<rparr>"

definition Task :: "task tenant_model" where
  "Task = \<lparr>model_name = ''Task'', rows_of = tbl_tasks, with_rows = (\<lambda>xs d. d\<lparr>tbl_tasks := xs\<rparr>),
     pk_of = t_id,
     fits_row = (\<lambda>r. fits 255 (t_title r) \<and> fits_int4 (t_version_id r)),
     refs_row = (\<lambda>d r. t_organization_id r \<in> organization_ids d \<and> t_project_id r \<in> project_ids d \<and>
       opt_ref (t_parent_id r) (task_ids d) \<and> t_reporter_id r \<in> user_ids d \<and>
       opt_ref (t_assignee_id r) (user_ids d)),
     same_key = (\<lambda>r r'. False),
     touch = (\<lambda>now r. r\<lparr>t_updated_at := now\<rparr>),
     org_of = t_organization_id, with_org = (\<lambda>org r. r\<lparr>t_organization_id := org\<rparr>),
     deleted_flag = Some t_is_deleted,
     mark_deleted = (\<lambda>now r. r\<lparr>t_is_deleted := True, t_deleted_at := Some now\<rparr>)\<rparr>"

definition Comment :: "comment tenant_model" where
  "Comment = \<lparr>model_name = ''Comment'', rows_of = tbl_comments,
     with_rows = (\<lambda>xs d. d\<lparr>tbl_comments := xs\<rparr>), pk_of = c_id,
     fits_row = (\<lambda>r. True),
     refs_row = (\<lambda>d r. c_organization_id r \<in> organization_ids d \<and> c_task_id r \<in> task_ids d \<and>
       c_author_id r \<in> user_ids d),
     same_key = (\<lambda>r r'. False),
     touch = (\<lambda>now r. r\<lparr>c_updated_at := now\<rparr>),
     org_of = c_organization_id, with_org = (\<lambda>org r. r\<lparr>c_organization_id := org\<rparr>),
     deleted_flag = None, mark_deleted = (\<lambda>now r. r)\<rparr>"

definition Attachment :: "attachment tenant_model" where
  "Attachment = \<lparr>model_name = ''Attachment'', rows_of = tbl_attachments,
     with_rows = (\<lambda>xs d. d\<lparr>tbl_attachments := xs\<rparr>), pk_of = a_id,
     fits_row = (\<lambda>r. fits 255 (a_file_name r) \<and> fits_int8 (a_file_size r) \<and>
       fits 100 (a_content_type r) \<and> fits 1024 (a_s3_key r)),
     refs_row = (\<lambda>d r. a_organization_id r \<in> organization_ids d \<and> a_task_id r \<in> task_ids d \<and>
       a_uploader_id r \<in> user_ids d),
     same_key = (\<lambda>r r'. False),
     touch = (\<lambda>now r. r\<lparr>a_updated_at := now\<rparr>),
     org_of = a_organization_id, with_org = (\<lambda>org r. r\<lparr>a_organization_id := org\<rparr>),
     deleted_flag = None, mark_deleted = (\<lambda>now r. r)\<rparr>"

text \<open>\<open>AuditLog\<close> has no \<open>TimestampMixin\<close>: an update stamps nothing.\<close>

definition AuditLog :: "audit_log tenant_model" where
  "AuditLog = \<lparr>model_name = ''AuditLog'', rows_of = tbl_audit_logs,
     with_rows = (\<lambda>xs d. d\<lparr>tbl_audit_logs := xs\<rparr>), pk_of = al_id,
     fits_row = (\<lambda>r. fits 50 (al_entity_type r) \<and> fits_opt 45 (al_ip_address r) \<and>
       fits_opt 512 (al_user_agent r)),
     refs_row = (\<lambda>d r. al_organization_id r \<in> organization_ids d \<and> opt_ref (al_actor_id r) (user_ids d)),
     same_key = (\<lambda>r r'. False),
     touch = (\<lambda>now r. r),
     org_of = al_organization_id, with_org = (\<lambda>org r. r\<lparr>al_organization_id := org\<rparr>),
     deleted_flag = None, mark_deleted = (\<lambda>now r. r)\<rparr>"

definition Notification :: "notification tenant_model" where
  "Notification = \<lparr>model_name = ''Notification'', rows_of = tbl_notifications,
     with_rows = (\<lambda>xs d. d\<lparr>tbl_notifications := xs\<rparr>), pk_of = n_id,
     fits_row = (\<lambda>r. fits 255 (n_title r) \<and> fits 1024 (n_body r) \<and> fits_opt 50 (n_resource_type r)),
     refs_row = (\<lambda>d r. n_organization_id r \<in> organization_ids d \<and> n_user_id r \<in> user_ids d \<and>
       opt_ref (n_actor_id r) (user_ids d)),
     same_key = (\<lambda>r r'. False),
     touch = (\<lambda>now r. r\<lparr>n_updated_at := now\<rparr>),
     org_of = n_organization_id, with_org = (\<lambda>org r. r\<lparr>n_organization_id := org\<rparr>),
     deleted_flag = None, mark_deleted = (\<lambda>now r. r)\<rparr>"

lemmas table_defs [model_simps] =
  User_def Organization_def OrganizationMember_def Team_def TeamMember_def Project_def Task_def
  Comment_def Attachment_def AuditLog_def Notification_def

text \<open>The projections of the descriptors, as simplification rules.\<close>

lemma rows_of_tables [simp]:
  "rows_of User = tbl_users"
  "rows_of Organization = tbl_organizations"
  "rows_of OrganizationMember = tbl_organization_members"
  "rows_of Team = tbl_teams"
  "rows_of TeamMember = tbl_team_members"
  "rows_of Project = tbl_projects"
  "rows_of Task = tbl_tasks"
  "rows_of Comment = tbl_comments"
  "rows_of Attachment = tbl_attachments"
  "rows_of AuditLog = tbl_audit_logs"
  "rows_of Notification = tbl_notifications"
  by (simp_all add: table_defs)

lemma with_rows_tables [simp]:
  "with_rows User us d = d\<lparr>tbl_users := us\<rparr>"
  "with_rows Organization os d = d\<lparr>tbl_organizations := os\<rparr>"
  "with_rows OrganizationMember ms d = d\<lparr>tbl_organization_members := ms\<rparr>"
  "with_rows Team tms d = d\<lparr>tbl_teams := tms\<rparr>"
  "with_rows TeamMember tmms d = d\<lparr>tbl_team_members := tmms\<rparr>"
  "with_rows Project ps d = d\<lparr>tbl_projects := ps\<rparr>"
  "with_rows Task ts d = d\<lparr>tbl_tasks := ts\<rparr>"
  "with_rows Comment cs d = d\<lparr>tbl_comments := cs\<rparr>"
  "with_rows Attachment as d = d\<lparr>tbl_attachments := as\<rparr>"
  "with_rows AuditLog als d = d\<lparr>tbl_audit_logs := als\<rparr>"
  "with_rows Notification ns d = d\<lparr>tbl_notifications := ns\<rparr>"
  by (simp_all add: table_defs)

lemma pk_of_tables [simp]:
  "pk_of User = u_id"
  "pk_of Organization = o_id"
  "pk_of OrganizationMember = m_id"
  "pk_of Team = tm_id"
  "pk_of TeamMember = tmm_id"
  "pk_of Project = p_id"
  "pk_of Task = t_id"
  "pk_of Comment = c_id"
  "pk_of Attachment = a_id"
  "pk_of AuditLog = al_id"
  "pk_of Notification = n_id"
  by (simp_all add: table_defs)

lemma touch_tables [simp]:
  "touch User now u_row = u_row\<lparr>u_updated_at := now\<rparr>"
  "touch Organization now o_row = o_row\<lparr>o_updated_at := now\<rparr>"
  "touch OrganizationMember now m_row = m_row\<lparr>m_updated_at := now\<rparr>"
  "touch Team now tm_row = tm_row\<lparr>tm_updated_at := now\<rparr>"
  "touch TeamMember now tmm_row = tmm_row\<lparr>tmm_updated_at := now\<rparr>"
  "touch Project now p_row = p_row\<lparr>p_updated_at := now\<rparr>"
  "touch Task now t_row = t_row\<lparr>t_updated_at := now\<rparr>"
  "touch Comment now c_row = c_row\<lparr>c_updated_at := now\<rparr>"
  "touch Attachment now a_row = a_row\<lparr>a_updated_at := now\<rparr>"
  "touch Notification now n_row = n_row\<lparr>n_updated_at := now\<rparr>"
  "touch AuditLog now al_row = al_row"
  by (simp_all add: table_defs)

lemma org_of_tables [simp]:
  "org_of Team = tm_organization_id"
  "org_of TeamMember = tmm_organization_id"
  "org_of Project = p_organization_id"
  "org_of Task = t_organization_id"
  "org_of Comment = c_organization_id"
  "org_of Attachment = a_organization_id"
  "org_of AuditLog = al_organization_id"
  "org_of Notification = n_organization_id"
  "with_org Team org tm_row = tm_row\<lparr>tm_organization_id := org\<rparr>"
  "with_org TeamMember org tmm_row = tmm_row\<lparr>tmm_organization_id := org\<rparr>"
  "with_org Project org p_row = p_row\<lparr>p_organization_id := org\<rparr>"
  "with_org Task org t_row = t_row\<lparr>t_organization_id := org\<rparr>"
  "with_org Comment org c_row = c_row\<lparr>c_organization_id := org\<rparr>"
  "with_org Attachment org a_row = a_row\<lparr>a_organization_id := org\<rparr>"
  "with_org AuditLog org al_row = al_row\<lparr>al_organization_id := org\<rparr>"
  "with_org Notification org n_row = n_row\<lparr>n_organization_id := org\<rparr>"
  by (simp_all add: table_defs)

lemma deleted_flag_tables [simp]:
  "deleted_flag Team = None"
  "deleted_flag TeamMember = None"
  "deleted_flag Project = None"
  "deleted_flag Task = Some t_is_deleted"
  "deleted_flag Comment = None"
  "deleted_flag Attachment = None"
  "deleted_flag AuditLog = None"
  "deleted_flag Notification = None"
  "mark_deleted Task now t_row = t_row\<lparr>t_is_deleted := True, t_deleted_at := Some now\<rparr>"
  "mark_deleted Team now tm_row = tm_row"
  "mark_deleted TeamMember now tmm_row = tmm_row"
  "mark_deleted Project now p_row = p_row"
  "mark_deleted Comment now c_row = c_row"
  "mark_deleted Attachment now a_row = a_row"
  "mark_deleted AuditLog now al_row = al_row"
  "mark_deleted Notification now n_row = n_row"
  by (simp_all add: table_defs)

text \<open>A well-formed database: every table has unique keys and keeps its constraints.\<close>

definition db_wf :: "database \<Rightarrow> bool" where
  "db_wf d \<longleftrightarrow> table_ok User d \<and> table_ok Organization d \<and> table_ok OrganizationMember d \<and>
     table_ok Team d \<and> table_ok TeamMember d \<and> table_ok Project d \<and> table_ok Task d \<and>
     table_ok Comment d \<and> table_ok Attachment d \<and> table_ok AuditLog d \<and> table_ok Notification d"

end
