(* ===== verification/TableLaws.thy ===== *)
theory TableLaws
  imports Tables
begin

text \<open>
  The laws of a table descriptor, as locales: the rows are a field of the database, the
  foreign keys survive the growth of the tables they point to, and a change of one table
  that keeps its own constraints keeps the whole database well-formed. Every table of the
  program is an interpretation; the repositories prove their lemmas inside the locales.
\<close>

text \<open>
  What one tenant owns: its organization row, its members, and its rows of every
  tenant-scoped table.
\<close>

definition org_rows :: "('r, 'x) tenant_model_scheme \<Rightarrow> uuid \<Rightarrow> database \<Rightarrow> 'r list" where
  "org_rows M b d = filter (\<lambda>r. org_of M r = b) (rows_of M d)"

definition tenant_view where
  "tenant_view b d =
     (filter (\<lambda>r. o_id r = b) (tbl_organizations d),
      filter (\<lambda>r. m_organization_id r = b) (tbl_organization_members d),
      org_rows Team b d, org_rows TeamMember b d, org_rows Project b d, org_rows Task b d,
      org_rows Comment b d, org_rows Attachment b d, org_rows AuditLog b d, org_rows Notification b d)"

locale table_model =
  fixes M :: "('r, 'x) model_scheme"
  assumes rows_with [simp]: "rows_of M (with_rows M xs d) = xs"
    and with_with [simp]: "with_rows M xs (with_rows M ys d) = with_rows M xs d"
    and with_rows_same [simp]: "with_rows M (rows_of M d) d = d"
    and pk_touch [simp]: "pk_of M (touch M now r) = pk_of M r"
    and same_key_sym: "same_key M r r' \<Longrightarrow> same_key M r' r"
    and refs_mono: "grows d d' \<Longrightarrow> refs_row M d r \<Longrightarrow> refs_row M d' r"
    and grows_with: "set (map (pk_of M) (rows_of M d)) \<subseteq> set (map (pk_of M) xs) \<Longrightarrow> grows d (with_rows M xs d)"
    and wf_table: "db_wf d \<Longrightarrow> table_ok M d"
    and wf_with: "db_wf d \<Longrightarrow> grows d (with_rows M xs d) \<Longrightarrow> table_ok M (with_rows M xs d) \<Longrightarrow>
      db_wf (with_rows M xs d)"
begin

lemma violation_None:
  "violation M d r = None \<longleftrightarrow> fits_row M r \<and> refs_row M d r \<and>
     (\<forall>r' \<in> set (rows_of M d). pk_of M r' \<noteq> pk_of M r \<longrightarrow> \<not> same_key M r' r)"
  by (auto simp: violation_def)

text \<open>An INSERT of a fresh key that breaks no constraint keeps the table's constraints.\<close>

lemma table_ok_insert:
  assumes "table_ok M d" and "pk_of M r \<notin> set (map (pk_of M) (rows_of M d))"
    and "violation M (with_rows M (rows_of M d @ [r]) d) r = None"
  shows "table_ok M (with_rows M (rows_of M d @ [r]) d)"
proof -
  let ?d' = "with_rows M (rows_of M d @ [r]) d"
  have g: "grows d ?d'" by (rule grows_with) auto
  have "violation M ?d' q = None" if "q \<in> set (rows_of M d)" for q
  proof -
    from assms(1) that have "violation M d q = None" by (simp add: table_ok_def)
    with g assms(3) that assms(2) show ?thesis
      by (auto simp: violation_None intro: refs_mono dest: same_key_sym)
  qed
  with assms show ?thesis
    by (auto simp: table_ok_def)
qed

text \<open>An UPDATE that keeps the keys and whose new rows break no constraint.\<close>

lemma table_ok_update:
  assumes ok: "table_ok M d" and pk: "\<And>r. pk_of M (f r) = pk_of M r"
    and new: "\<And>r. r \<in> set (rows_of M d) \<Longrightarrow> P r \<Longrightarrow>
      violation M (with_rows M (map (\<lambda>r. if P r then f r else r) (rows_of M d)) d) (f r) = None"
  shows "table_ok M (with_rows M (map (\<lambda>r. if P r then f r else r) (rows_of M d)) d)"
proof -
  let ?rows = "map (\<lambda>r. if P r then f r else r) (rows_of M d)"
  let ?d' = "with_rows M ?rows d"
  have pks: "map (pk_of M) ?rows = map (pk_of M) (rows_of M d)"
    by (rule map_if_same_key) (rule pk)
  have g: "grows d ?d'" by (rule grows_with) (simp only: pks subset_refl)
  have keep: "violation M ?d' q = None" if q: "q \<in> set (rows_of M d)" "\<not> P q" for q
  proof -
    from ok q(1) have v: "violation M d q = None" by (simp add: table_ok_def)
    have "\<not> same_key M (f r) q" if "r \<in> set (rows_of M d)" "P r" "pk_of M r \<noteq> pk_of M q" for r
      using new [OF that(1,2)] q that(3) pk by (auto simp: violation_None dest: same_key_sym)
    with g v show ?thesis
      by (auto simp: violation_None pk intro: refs_mono split: if_splits)
  qed
  from ok have "distinct (map (pk_of M) ?rows)"
    unfolding pks by (simp add: table_ok_def)
  moreover have "violation M ?d' q = None" if "q \<in> set ?rows" for q
    using that keep new by (auto split: if_splits)
  ultimately show ?thesis
    by (simp add: table_ok_def del: map_map)
qed

lemma wf_insert:
  assumes "db_wf d" and "pk_of M r \<notin> set (map (pk_of M) (rows_of M d))"
    and "violation M (with_rows M (rows_of M d @ [r]) d) r = None"
  shows "db_wf (with_rows M (rows_of M d @ [r]) d)"
  by (rule wf_with) (use assms in \<open>auto intro: wf_table table_ok_insert grows_with\<close>)

lemma wf_update:
  assumes "db_wf d" and pk: "\<And>r. pk_of M (f r) = pk_of M r"
    and new: "\<And>r. r \<in> set (rows_of M d) \<Longrightarrow> P r \<Longrightarrow>
      violation M (with_rows M (map (\<lambda>r. if P r then f r else r) (rows_of M d)) d) (f r) = None"
  shows "db_wf (with_rows M (map (\<lambda>r. if P r then f r else r) (rows_of M d)) d)"
proof (rule wf_with)
  have "map (pk_of M) (map (\<lambda>r. if P r then f r else r) (rows_of M d)) = map (pk_of M) (rows_of M d)"
    by (rule map_if_same_key) (rule pk)
  then show "grows d (with_rows M (map (\<lambda>r. if P r then f r else r) (rows_of M d)) d)"
    by (intro grows_with) (simp only: subset_refl)
  show "table_ok M (with_rows M (map (\<lambda>r. if P r then f r else r) (rows_of M d)) d)"
    by (rule table_ok_update) (use assms in \<open>auto intro: wf_table\<close>)
qed (rule assms(1))

lemma pk_distinct: "db_wf d \<Longrightarrow> distinct (map (pk_of M) (rows_of M d))"
  by (drule wf_table) (simp add: table_ok_def)

end

text \<open>The laws of a tenant-scoped table: the tenant column is a field no other write touches.\<close>

locale tenant_table = table_model M for M :: "('r, 'x) tenant_model_scheme" +
  assumes org_with [simp]: "org_of M (with_org M org r) = org"
    and pk_with_org [simp]: "pk_of M (with_org M org r) = pk_of M r"
    and org_touch [simp]: "org_of M (touch M now r) = org_of M r"
    and org_mark [simp]: "org_of M (mark_deleted M now r) = org_of M r"
    and pk_mark [simp]: "pk_of M (mark_deleted M now r) = pk_of M r"
    and view_with: "org_rows M b (with_rows M xs d) = org_rows M b d \<Longrightarrow>
      tenant_view b (with_rows M xs d) = tenant_view b d"
    and mark_sets: "deleted_flag M = Some del \<Longrightarrow> del (touch M now (mark_deleted M now' r))"

section \<open>Interpretations\<close>

lemma violation_mono:
  assumes "rows_of M d' = rows_of M d"
    and "refs_row M d r \<Longrightarrow> refs_row M d' r" and "violation M d r = None"
  shows "violation M d' r = None"
  using assms by (auto simp: violation_def split: if_splits)

lemma table_ok_mono:
  assumes "rows_of M d' = rows_of M d" and "\<And>r. refs_row M d r \<Longrightarrow> refs_row M d' r" and "table_ok M d"
  shows "table_ok M d'"
  using assms violation_mono [OF assms(1)] by (auto simp: table_ok_def)

text \<open>
  Foreign keys of each table under growth, then one frame fact per table: its
  constraints survive a change elsewhere.
\<close>

lemma refs_mono_tables:
  "grows d d' \<Longrightarrow> refs_row User d u \<Longrightarrow> refs_row User d' u"
  "grows d d' \<Longrightarrow> refs_row Organization d g \<Longrightarrow> refs_row Organization d' g"
  "grows d d' \<Longrightarrow> refs_row OrganizationMember d m \<Longrightarrow> refs_row OrganizationMember d' m"
  "grows d d' \<Longrightarrow> refs_row Team d tm \<Longrightarrow> refs_row Team d' tm"
  "grows d d' \<Longrightarrow> refs_row TeamMember d tmm \<Longrightarrow> refs_row TeamMember d' tmm"
  "grows d d' \<Longrightarrow> refs_row Project d p \<Longrightarrow> refs_row Project d' p"
  "grows d d' \<Longrightarrow> refs_row Task d t \<Longrightarrow> refs_row Task d' t"
  "grows d d' \<Longrightarrow> refs_row Comment d c \<Longrightarrow> refs_row Comment d' c"
  "grows d d' \<Longrightarrow> refs_row Attachment d a \<Longrightarrow> refs_row Attachment d' a"
  "grows d d' \<Longrightarrow> refs_row AuditLog d al \<Longrightarrow> refs_row AuditLog d' al"
  "grows d d' \<Longrightarrow> refs_row Notification d n \<Longrightarrow> refs_row Notification d' n"
  by (auto simp: table_defs grows_def elim: opt_ref_mono)

lemma frame_users:
  "grows d d' \<Longrightarrow> tbl_users d' = tbl_users d \<Longrightarrow> table_ok User d \<Longrightarrow> table_ok User d'"
  by (rule table_ok_mono [OF _ refs_mono_tables(1)]) simp_all

lemma frame_organizations:
  "grows d d' \<Longrightarrow> tbl_organizations d' = tbl_organizations d \<Longrightarrow> table_ok Organization d \<Longrightarrow> table_ok Organization d'"
  by (rule table_ok_mono [OF _ refs_mono_tables(2)]) simp_all

lemma frame_organization_members:
  "grows d d' \<Longrightarrow> tbl_organization_members d' = tbl_organization_members d \<Longrightarrow> table_ok OrganizationMember d \<Longrightarrow> table_ok OrganizationMember d'"
  by (rule table_ok_mono [OF _ refs_mono_tables(3)]) simp_all

lemma frame_teams:
  "grows d d' \<Longrightarrow> tbl_teams d' = tbl_teams d \<Longrightarrow> table_ok Team d \<Longrightarrow> table_ok Team d'"
  by (rule table_ok_mono [OF _ refs_mono_tables(4)]) simp_all

lemma frame_team_members:
  "grows d d' \<Longrightarrow> tbl_team_members d' = tbl_team_members d \<Longrightarrow> table_ok TeamMember d \<Longrightarrow> table_ok TeamMember d'"
  by (rule table_ok_mono [OF _ refs_mono_tables(5)]) simp_all

lemma frame_projects:
  "grows d d' \<Longrightarrow> tbl_projects d' = tbl_projects d \<Longrightarrow> table_ok Project d \<Longrightarrow> table_ok Project d'"
  by (rule table_ok_mono [OF _ refs_mono_tables(6)]) simp_all

lemma frame_tasks:
  "grows d d' \<Longrightarrow> tbl_tasks d' = tbl_tasks d \<Longrightarrow> table_ok Task d \<Longrightarrow> table_ok Task d'"
  by (rule table_ok_mono [OF _ refs_mono_tables(7)]) simp_all

lemma frame_comments:
  "grows d d' \<Longrightarrow> tbl_comments d' = tbl_comments d \<Longrightarrow> table_ok Comment d \<Longrightarrow> table_ok Comment d'"
  by (rule table_ok_mono [OF _ refs_mono_tables(8)]) simp_all

lemma frame_attachments:
  "grows d d' \<Longrightarrow> tbl_attachments d' = tbl_attachments d \<Longrightarrow> table_ok Attachment d \<Longrightarrow> table_ok Attachment d'"
  by (rule table_ok_mono [OF _ refs_mono_tables(9)]) simp_all

lemma frame_audit_logs:
  "grows d d' \<Longrightarrow> tbl_audit_logs d' = tbl_audit_logs d \<Longrightarrow> table_ok AuditLog d \<Longrightarrow> table_ok AuditLog d'"
  by (rule table_ok_mono [OF _ refs_mono_tables(10)]) simp_all

lemma frame_notifications:
  "grows d d' \<Longrightarrow> tbl_notifications d' = tbl_notifications d \<Longrightarrow> table_ok Notification d \<Longrightarrow> table_ok Notification d'"
  by (rule table_ok_mono [OF _ refs_mono_tables(11)]) simp_all

lemmas wf_frame =
  frame_users frame_organizations frame_organization_members frame_teams frame_team_members frame_projects
  frame_tasks frame_comments frame_attachments frame_audit_logs frame_notifications

lemma wf_tables:
  "db_wf d \<Longrightarrow> table_ok User d"
  "db_wf d \<Longrightarrow> table_ok Organization d"
  "db_wf d \<Longrightarrow> table_ok OrganizationMember d"
  "db_wf d \<Longrightarrow> table_ok Team d"
  "db_wf d \<Longrightarrow> table_ok TeamMember d"
  "db_wf d \<Longrightarrow> table_ok Project d"
  "db_wf d \<Longrightarrow> table_ok Task d"
  "db_wf d \<Longrightarrow> table_ok Comment d"
  "db_wf d \<Longrightarrow> table_ok Attachment d"
  "db_wf d \<Longrightarrow> table_ok AuditLog d"
  "db_wf d \<Longrightarrow> table_ok Notification d"
  by (simp_all add: db_wf_def)

lemma same_key_sym_tables:
  "same_key User u u' \<Longrightarrow> same_key User u' u"
  "same_key Organization g g' \<Longrightarrow> same_key Organization g' g"
  "same_key OrganizationMember m m' \<Longrightarrow> same_key OrganizationMember m' m"
  "same_key Team tm tm' \<Longrightarrow> same_key Team tm' tm"
  "same_key TeamMember tmm tmm' \<Longrightarrow> same_key TeamMember tmm' tmm"
  "same_key Project p p' \<Longrightarrow> same_key Project p' p"
  "same_key Task t t' \<Longrightarrow> same_key Task t' t"
  "same_key Comment c c' \<Longrightarrow> same_key Comment c' c"
  "same_key Attachment a a' \<Longrightarrow> same_key Attachment a' a"
  "same_key AuditLog al al' \<Longrightarrow> same_key AuditLog al' al"
  "same_key Notification n n' \<Longrightarrow> same_key Notification n' n"
  by (simp_all add: table_defs)

lemmas table_law_facts = refs_mono_tables same_key_sym_tables wf_tables

text \<open>A database stays well-formed when its keys grow and each table is unchanged or rechecked.\<close>

lemma db_wf_frame:
  assumes wf: "db_wf d" and g: "grows d d'"
    and "tbl_users d' = tbl_users d \<or> table_ok User d'"
    and "tbl_organizations d' = tbl_organizations d \<or> table_ok Organization d'"
    and "tbl_organization_members d' = tbl_organization_members d \<or> table_ok OrganizationMember d'"
    and "tbl_teams d' = tbl_teams d \<or> table_ok Team d'"
    and "tbl_team_members d' = tbl_team_members d \<or> table_ok TeamMember d'"
    and "tbl_projects d' = tbl_projects d \<or> table_ok Project d'"
    and "tbl_tasks d' = tbl_tasks d \<or> table_ok Task d'"
    and "tbl_comments d' = tbl_comments d \<or> table_ok Comment d'"
    and "tbl_attachments d' = tbl_attachments d \<or> table_ok Attachment d'"
    and "tbl_audit_logs d' = tbl_audit_logs d \<or> table_ok AuditLog d'"
    and "tbl_notifications d' = tbl_notifications d \<or> table_ok Notification d'"
  shows "db_wf d'"
  unfolding db_wf_def
proof (intro conjI)
  show "table_ok User d'" using assms(3) frame_users [OF g _ wf_tables(1) [OF wf]] by blast
  show "table_ok Organization d'" using assms(4) frame_organizations [OF g _ wf_tables(2) [OF wf]] by blast
  show "table_ok OrganizationMember d'" using assms(5) frame_organization_members [OF g _ wf_tables(3) [OF wf]] by blast
  show "table_ok Team d'" using assms(6) frame_teams [OF g _ wf_tables(4) [OF wf]] by blast
  show "table_ok TeamMember d'" using assms(7) frame_team_members [OF g _ wf_tables(5) [OF wf]] by blast
  show "table_ok Project d'" using assms(8) frame_projects [OF g _ wf_tables(6) [OF wf]] by blast
  show "table_ok Task d'" using assms(9) frame_tasks [OF g _ wf_tables(7) [OF wf]] by blast
  show "table_ok Comment d'" using assms(10) frame_comments [OF g _ wf_tables(8) [OF wf]] by blast
  show "table_ok Attachment d'" using assms(11) frame_attachments [OF g _ wf_tables(9) [OF wf]] by blast
  show "table_ok AuditLog d'" using assms(12) frame_audit_logs [OF g _ wf_tables(10) [OF wf]] by blast
  show "table_ok Notification d'" using assms(13) frame_notifications [OF g _ wf_tables(11) [OF wf]] by blast
qed

interpretation users_tbl: table_model User
proof
  fix d xs
  assume wf: "db_wf d" "grows d (with_rows User xs d)" and "table_ok User (with_rows User xs d)"
  then show "db_wf (with_rows User xs d)"
    by (intro db_wf_frame [OF wf]) simp_all
qed (auto simp: grows_def key_set_defs intro: table_law_facts simp: tenant_view_def org_rows_def)

interpretation organizations_tbl: table_model Organization
proof
  fix d xs
  assume wf: "db_wf d" "grows d (with_rows Organization xs d)" and "table_ok Organization (with_rows Organization xs d)"
  then show "db_wf (with_rows Organization xs d)"
    by (intro db_wf_frame [OF wf]) simp_all
qed (auto simp: grows_def key_set_defs intro: table_law_facts simp: tenant_view_def org_rows_def)

interpretation organization_members_tbl: table_model OrganizationMember
proof
  fix d xs
  assume wf: "db_wf d" "grows d (with_rows OrganizationMember xs d)" and "table_ok OrganizationMember (with_rows OrganizationMember xs d)"
  then show "db_wf (with_rows OrganizationMember xs d)"
    by (intro db_wf_frame [OF wf]) simp_all
qed (auto simp: grows_def key_set_defs intro: table_law_facts simp: tenant_view_def org_rows_def)

interpretation teams_tbl: tenant_table Team
proof
  fix d xs
  assume wf: "db_wf d" "grows d (with_rows Team xs d)" and "table_ok Team (with_rows Team xs d)"
  then show "db_wf (with_rows Team xs d)"
    by (intro db_wf_frame [OF wf]) simp_all
qed (auto simp: grows_def key_set_defs intro: table_law_facts simp: tenant_view_def org_rows_def)

interpretation team_members_tbl: tenant_table TeamMember
proof
  fix d xs
  assume wf: "db_wf d" "grows d (with_rows TeamMember xs d)" and "table_ok TeamMember (with_rows TeamMember xs d)"
  then show "db_wf (with_rows TeamMember xs d)"
    by (intro db_wf_frame [OF wf]) simp_all
qed (auto simp: grows_def key_set_defs intro: table_law_facts simp: tenant_view_def org_rows_def)

interpretation projects_tbl: tenant_table Project
proof
  fix d xs
  assume wf: "db_wf d" "grows d (with_rows Project xs d)" and "table_ok Project (with_rows Project xs d)"
  then show "db_wf (with_rows Project xs d)"
    by (intro db_wf_frame [OF wf]) simp_all
qed (auto simp: grows_def key_set_defs intro: table_law_facts simp: tenant_view_def org_rows_def)

interpretation tasks_tbl: tenant_table Task
proof
  fix d xs
  assume wf: "db_wf d" "grows d (with_rows Task xs d)" and "table_ok Task (with_rows Task xs d)"
  then show "db_wf (with_rows Task xs d)"
    by (intro db_wf_frame [OF wf]) simp_all
qed (auto simp: grows_def key_set_defs intro: table_law_facts simp: tenant_view_def org_rows_def)

interpretation comments_tbl: tenant_table Comment
proof
  fix d xs
  assume wf: "db_wf d" "grows d (with_rows Comment xs d)" and "table_ok Comment (with_rows Comment xs d)"
  then show "db_wf (with_rows Comment xs d)"
    by (intro db_wf_frame [OF wf]) simp_all
qed (auto simp: grows_def key_set_defs intro: table_law_facts simp: tenant_view_def org_rows_def)

interpretation attachments_tbl: tenant_table Attachment
proof
  fix d xs
  assume wf: "db_wf d" "grows d (with_rows Attachment xs d)" and "table_ok Attachment (with_rows Attachment xs d)"
  then show "db_wf (with_rows Attachment xs d)"
    by (intro db_wf_frame [OF wf]) simp_all
qed (auto simp: grows_def key_set_defs intro: table_law_facts simp: tenant_view_def org_rows_def)

interpretation audit_logs_tbl: tenant_table AuditLog
proof
  fix d xs
  assume wf: "db_wf d" "grows d (with_rows AuditLog xs d)" and "table_ok AuditLog (with_rows AuditLog xs d)"
  then show "db_wf (with_rows AuditLog xs d)"
    by (intro db_wf_frame [OF wf]) simp_all
qed (auto simp: grows_def key_set_defs intro: table_law_facts simp: tenant_view_def org_rows_def)

interpretation notifications_tbl: tenant_table Notification
proof
  fix d xs
  assume wf: "db_wf d" "grows d (with_rows Notification xs d)" and "table_ok Notification (with_rows Notification xs d)"
  then show "db_wf (with_rows Notification xs d)"
    by (intro db_wf_frame [OF wf]) simp_all
qed (auto simp: grows_def key_set_defs intro: table_law_facts simp: tenant_view_def org_rows_def)

end
