(* ===== verification/Session.thy ===== *)
theory Session
  imports TableLaws
begin

text \<open>
  The database session of a request (\<open>app/core/database.py\<close>, \<open>app/services/base.py\<close>):
  the committed database and the transaction's view of it, the statements the
  repositories issue (SELECT, INSERT, UPDATE with their constraints, ORM flushes), and
  \<open>UnitOfWork.transaction\<close>. A statement that breaks a constraint raises and changes
  nothing. \<open>commit_fault\<close> is the environment's choice of whether the next COMMIT
  raises. An added object is written when it is added: the session has \<open>autoflush\<close> off
  and no statement reads the object's table before the flush or the commit that writes it.
\<close>

record session =
  committed :: database
  work :: database
  commit_fault :: "exn option"

type_synonym ('z, 'a) tx = "(exn, 'z session_scheme, 'a) exec"

section \<open>Statements\<close>

definition select_where :: "('r, 'x) model_scheme \<Rightarrow> ('r \<Rightarrow> bool) \<Rightarrow> ('z, 'r list) tx" where
  "select_where M P = getsE (\<lambda>s. filter P (rows_of M (work s)))"

text \<open>\<open>result.scalar_one_or_none()\<close>.\<close>

definition scalar_one_or_none :: "'r list \<Rightarrow> exn + 'r option" where
  "scalar_one_or_none rs = (case rs of [] \<Rightarrow> Inr None | [r] \<Rightarrow> Inr (Some r) | _ \<Rightarrow> Inl MultipleResultsFound)"

definition insert_row :: "('r, 'x) model_scheme \<Rightarrow> 'r \<Rightarrow> ('z, 'r) tx" where
  "insert_row M r s =
     (let d = work s; d' = with_rows M (rows_of M d @ [r]) d in
      if pk_of M r \<in> set (map (pk_of M) (rows_of M d)) then (Inl IntegrityError, s)
      else (case violation M d' r of
              Some e \<Rightarrow> (Inl e, s)
            | None \<Rightarrow> (Inr r, s\<lparr>work := d'\<rparr>)))"

text \<open>\<open>UPDATE ... SET f WHERE P RETURNING\<close>: the new versions of the rows that matched.\<close>

definition update_where :: "('r, 'x) model_scheme \<Rightarrow> ('r \<Rightarrow> bool) \<Rightarrow> ('r \<Rightarrow> 'r) \<Rightarrow> ('z, 'r list) tx" where
  "update_where M P f s =
     (let d = work s;
          d' = with_rows M (map (\<lambda>r. if P r then f r else r) (rows_of M d)) d;
          new = map f (filter P (rows_of M d))
      in case List.map_filter (violation M d') new of
           e # _ \<Rightarrow> (Inl e, s)
         | [] \<Rightarrow> (Inr new, s\<lparr>work := d'\<rparr>))"

text \<open>
  Flushing a loaded object whose attributes now read \<open>r\<close>: nothing is written when no
  attribute changed, else an UPDATE by primary key, which stamps \<open>updated_at\<close>.
\<close>

definition flush_dirty :: "('r, 'x) model_scheme \<Rightarrow> instant \<Rightarrow> 'r \<Rightarrow> ('z, 'r) tx" where
  "flush_dirty M now r s =
     (case find (\<lambda>q. pk_of M q = pk_of M r) (rows_of M (work s)) of
        None \<Rightarrow> (Inl StaleDataError, s)
      | Some q \<Rightarrow>
          if q = r then (Inr r, s)
          else bindE (update_where M (\<lambda>q. pk_of M q = pk_of M r)
                        (\<lambda>q. if pk_of M q = pk_of M r then touch M now r else q))
                 (\<lambda>_. returnE (touch M now r)) s)"

definition commit :: "('z, unit) tx" where
  "commit s = (case commit_fault s of
                 Some e \<Rightarrow> (Inl e, s)
               | None \<Rightarrow> (Inr (), s\<lparr>committed := work s\<rparr>))"

definition rollback :: "'z session_scheme \<Rightarrow> 'z session_scheme" where
  "rollback s = s\<lparr>work := committed s\<rparr>"

section \<open>Transactions and requests\<close>

text \<open>
  \<open>UnitOfWork.transaction\<close>: run the body and commit; on any exception, of the body or
  of the commit, roll back and raise it again.
\<close>

definition transaction :: "('z, 'a) tx \<Rightarrow> ('z, 'a) tx" where
  "transaction body s =
     (case bindE body (\<lambda>x. bindE commit (\<lambda>_. returnE x)) s of
        (Inr x, s') \<Rightarrow> (Inr x, s')
      | (Inl e, s') \<Rightarrow> (Inl e, rollback s'))"

text \<open>
  \<open>get_db_session\<close>: a session of its own for each request; an exception rolls it back,
  and closing it drops what was not committed.
\<close>

definition with_db_session :: "('z, 'a) tx \<Rightarrow> ('z, 'a) tx" where
  "with_db_session handler s =
     (case handler (s\<lparr>work := committed s\<rparr>) of
        (Inl e, s') \<Rightarrow> (Inl e, rollback (rollback s'))
      | (Inr x, s') \<Rightarrow> (Inr x, rollback s'))"

lemmas session_defs =
  select_where_def insert_row_def update_where_def flush_dirty_def commit_def rollback_def
  transaction_def with_db_session_def

lemma scalar_one_or_none_simps [simp]:
  "scalar_one_or_none [] = Inr None"
  "scalar_one_or_none [r] = Inr (Some r)"
  "scalar_one_or_none (r # r' # rs) = Inl MultipleResultsFound"
  by (simp_all add: scalar_one_or_none_def)

lemma scalar_one_or_none_Some: "scalar_one_or_none rs = Inr (Some r) \<longleftrightarrow> rs = [r]"
  by (auto simp: scalar_one_or_none_def split: list.splits)

lemma scalar_one_or_none_None: "scalar_one_or_none rs = Inr None \<longleftrightarrow> rs = []"
  by (auto simp: scalar_one_or_none_def split: list.splits)

lemma scalar_one_filter:
  "length (filter P xs) \<le> 1 \<Longrightarrow> scalar_one_or_none (filter P xs) = Inr (find P xs)"
  by (induction xs) auto

section \<open>Atomicity\<close>

text \<open>The three outcomes of a transaction.\<close>

lemma transaction_cases:
  "transaction body s =
     (case body s of
        (Inl e, s') \<Rightarrow> (Inl e, rollback s')
      | (Inr x, s') \<Rightarrow>
          (case commit_fault s' of
             Some e \<Rightarrow> (Inl e, rollback s')
           | None \<Rightarrow> (Inr x, s'\<lparr>committed := work s'\<rparr>)))"
  by (simp add: transaction_def commit_def exec_simps split: prod.splits sum.splits option.splits)

lemma transaction_ok:
  "transaction body s = (Inr x, s') \<longleftrightarrow>
     (\<exists>s1. body s = (Inr x, s1) \<and> commit_fault s1 = None \<and> s' = s1\<lparr>committed := work s1\<rparr>)"
  by (auto simp: transaction_cases split: prod.splits sum.splits option.splits)

text \<open>A body never commits by itself when it keeps the committed database.\<close>

definition no_commit :: "('z, 'a) tx \<Rightarrow> bool" where
  "no_commit m \<longleftrightarrow> (\<forall>s. committed (snd (m s)) = committed s)"

lemma no_commit_preserves: "no_commit m \<longleftrightarrow> (\<forall>d. preserves (\<lambda>s. committed s = d) m)"
  by (auto simp: no_commit_def preserves_def)

lemma preserves_committed_select [preserve_intros]: "preserves I (select_where M P)"
  unfolding select_where_def by (rule preserves_getsE)

lemma insert_row_committed: "committed (snd (insert_row M r s)) = committed s"
  by (simp add: insert_row_def Let_def split: option.splits)

lemma update_where_committed: "committed (snd (update_where M P f s)) = committed s"
  by (simp add: update_where_def Let_def split: list.splits)

lemma no_commit_insert_row [preserve_intros]: "preserves (\<lambda>s. committed s = d) (insert_row M r)"
  by (simp add: preserves_def insert_row_committed)

lemma no_commit_update_where [preserve_intros]: "preserves (\<lambda>s. committed s = d) (update_where M P f)"
  by (simp add: preserves_def update_where_committed)

text \<open>An ORM flush keeps what the UPDATE it may issue keeps.\<close>

lemma flush_dirty_preserves:
  assumes "preserves I (update_where M (\<lambda>q. pk_of M q = pk_of M r)
      (\<lambda>q. if pk_of M q = pk_of M r then touch M now r else q))"
  shows "preserves I (flush_dirty M now r)"
proof -
  have "preserves I (bindE (update_where M (\<lambda>q. pk_of M q = pk_of M r)
                (\<lambda>q. if pk_of M q = pk_of M r then touch M now r else q))
         (\<lambda>_. returnE (touch M now r)))"
    by (intro preserves_bindE preserves_returnE assms)
  then show ?thesis
    by (simp add: preserves_def flush_dirty_def split: option.splits)
qed

lemma no_commit_flush_dirty [preserve_intros]: "preserves (\<lambda>s. committed s = d) (flush_dirty M now r)"
  by (intro flush_dirty_preserves no_commit_update_where)

lemma transaction_error_rolls_back:
  assumes "no_commit body" and "transaction body s = (Inl e, s')"
  shows "committed s' = committed s \<and> work s' = committed s"
proof -
  have "committed (snd (body s)) = committed s" using assms(1) by (simp add: no_commit_def)
  with assms(2) show ?thesis
    by (auto simp: transaction_cases rollback_def split: prod.splits sum.splits option.splits)
qed

lemma transaction_success_commits:
  "transaction body s = (Inr x, s') \<Longrightarrow> \<exists>s1. body s = (Inr x, s1) \<and> committed s' = work s1 \<and> work s' = work s1"
  by (auto simp: transaction_ok)

text \<open>What statements and transactions leave alone: all that is not the database.\<close>

definition beside :: "'z session_scheme \<Rightarrow> 'z session_scheme \<Rightarrow> bool" where
  "beside s0 s \<longleftrightarrow> (\<exists>c w. s = s0\<lparr>committed := c, work := w\<rparr>)"

lemma beside_refl [simp]: "beside s s"
  unfolding beside_def by (intro exI [of _ "committed s"] exI [of _ "work s"]) simp

lemma beside_work [simp]: "beside s0 s \<Longrightarrow> beside s0 (s\<lparr>work := w\<rparr>)"
  unfolding beside_def by (elim exE, rule exI, rule exI [of _ w]) simp

lemma beside_committed [simp]: "beside s0 s \<Longrightarrow> beside s0 (s\<lparr>committed := c\<rparr>)"
proof -
  assume "beside s0 s"
  then obtain c0 w where "s = s0\<lparr>committed := c0, work := w\<rparr>" by (auto simp: beside_def)
  then have "s\<lparr>committed := c\<rparr> = s0\<lparr>committed := c, work := w\<rparr>" by simp
  then show ?thesis unfolding beside_def by blast
qed

lemma beside_insert_row [preserve_intros]: "preserves (beside s0) (insert_row M r)"
  by (auto simp: preserves_def insert_row_def Let_def split: option.splits)

lemma beside_update_where [preserve_intros]: "preserves (beside s0) (update_where M P f)"
  by (auto simp: preserves_def update_where_def Let_def split: list.splits)

lemma beside_flush_dirty [preserve_intros]: "preserves (beside s0) (flush_dirty M now r)"
  by (intro flush_dirty_preserves beside_update_where)

section \<open>Well-formedness is kept\<close>

definition session_wf :: "'z session_scheme \<Rightarrow> bool" where
  "session_wf s \<longleftrightarrow> db_wf (committed s) \<and> db_wf (work s)"

lemma transaction_preserves:
  assumes "preserves I body"
    and "\<And>s. I s \<Longrightarrow> I (s\<lparr>committed := work s\<rparr>)" and "\<And>s. I s \<Longrightarrow> I (s\<lparr>work := committed s\<rparr>)"
  shows "preserves I (transaction body)"
proof (rule preservesI)
  fix s assume "I s"
  with assms(1) have "I (snd (body s))" by (rule preservesD)
  with assms(2,3) show "I (snd (transaction body s))"
    by (auto simp: transaction_cases rollback_def split: prod.splits sum.splits option.splits)
qed

lemma with_db_session_preserves:
  assumes "preserves I handler" and "\<And>s. I s \<Longrightarrow> I (s\<lparr>work := committed s\<rparr>)"
  shows "preserves I (with_db_session handler)"
proof (rule preservesI)
  fix s assume "I s"
  then have "I (s\<lparr>work := committed s\<rparr>)" by (rule assms(2))
  with assms(1) have "I (snd (handler (s\<lparr>work := committed s\<rparr>)))" by (rule preservesD)
  with assms(2) show "I (snd (with_db_session handler s))"
    by (auto simp: with_db_session_def rollback_def split: prod.splits sum.splits dest: assms(2))
qed

lemma commit_preserves:
  "(\<And>s. I s \<Longrightarrow> I (s\<lparr>committed := work s\<rparr>)) \<Longrightarrow> preserves I commit"
  by (auto simp: preserves_def commit_def split: option.splits)

lemma beside_transaction [preserve_intros]: "preserves (beside s0) body \<Longrightarrow> preserves (beside s0) (transaction body)"
  by (erule transaction_preserves) simp_all

lemma transaction_wf [preserve_intros]:
  "preserves session_wf body \<Longrightarrow> preserves session_wf (transaction body)"
  by (erule transaction_preserves) (simp_all add: session_wf_def)

lemma commit_wf [preserve_intros]: "preserves session_wf commit"
  by (rule commit_preserves) (simp add: session_wf_def)

lemma with_db_session_wf [preserve_intros]:
  "preserves session_wf handler \<Longrightarrow> preserves session_wf (with_db_session handler)"
  by (erule with_db_session_preserves) (simp add: session_wf_def)

lemma map_filter_Nil: "List.map_filter f xs = [] \<longleftrightarrow> (\<forall>x \<in> set xs. f x = None)"
  by (induction xs) (auto simp: List.map_filter_simps split: option.splits)

context table_model
begin

lemma insert_row_wf: "preserves session_wf (insert_row M r)"
proof (rule preservesI)
  fix s :: "'z session_scheme"
  assume "session_wf s"
  then show "session_wf (snd (insert_row M r s))"
    by (auto simp: insert_row_def session_wf_def Let_def intro: wf_insert split: option.splits)
qed

lemma update_where_wf:
  assumes pk: "\<And>r. pk_of M (f r) = pk_of M r"
  shows "preserves session_wf (update_where M P f)"
proof (rule preservesI)
  fix s :: "'z session_scheme"
  assume wf: "session_wf s"
  let ?d = "work s"
  let ?d' = "with_rows M (map (\<lambda>r. if P r then f r else r) (rows_of M ?d)) ?d"
  have "db_wf ?d'" if "List.map_filter (violation M ?d') (map f (filter P (rows_of M ?d))) = []"
    by (rule wf_update) (use wf pk that in \<open>auto simp: session_wf_def map_filter_Nil\<close>)
  with wf show "session_wf (snd (update_where M P f s))"
    by (simp add: update_where_def session_wf_def Let_def split: list.splits)
qed

lemma flush_dirty_wf: "preserves session_wf (flush_dirty M now r)"
  by (intro flush_dirty_preserves update_where_wf) simp

text \<open>An ORM flush of a changed object writes that one row, or breaks a constraint and writes nothing.\<close>

lemma flush_dirty_eq:
  assumes wf: "db_wf (work s)" and q: "q \<in> set (rows_of M (work s))" "pk_of M q = pk_of M r" and "q \<noteq> r"
  shows "flush_dirty M now r s =
    (let d' = with_rows M (map (\<lambda>q. if pk_of M q = pk_of M r then touch M now r else q) (rows_of M (work s))) (work s)
     in case violation M d' (touch M now r) of
          Some e \<Rightarrow> (Inl e, s)
        | None \<Rightarrow> (Inr (touch M now r), s\<lparr>work := d'\<rparr>))"
proof -
  let ?rows = "rows_of M (work s)" and ?P = "\<lambda>q. pk_of M q = pk_of M r"
  let ?f = "\<lambda>q. if ?P q then touch M now r else q"
  have one: "filter ?P ?rows = [q]"
    by (rule filter_singleton [OF pk_distinct [OF wf] q(1)]) (use q in auto)
  have found: "find ?P ?rows = Some q"
    using find_Some_distinct [OF pk_distinct [OF wf] q(1)] q(2) by simp
  have fn: "(\<lambda>q. if ?P q then if ?P q then touch M now r else q else q) = ?f" by auto
  have "update_where M ?P ?f s =
    (let d' = with_rows M (map ?f ?rows) (work s) in
     case violation M d' (touch M now r) of Some e \<Rightarrow> (Inl e, s) | None \<Rightarrow> (Inr [touch M now r], s\<lparr>work := d'\<rparr>))"
    using q(2) unfolding update_where_def fn
    by (simp add: one Let_def List.map_filter_simps split: option.splits)
  then show ?thesis
    using found assms(4) by (simp add: flush_dirty_def exec_simps Let_def split: option.splits)
qed

end

end
