(* ===== verification/Repository.thy ===== *)
theory Repository
  imports Session
begin

text \<open>
  The generic repositories (\<open>app/repositories/base.py\<close>): \<open>BaseRepository\<close> and
  \<open>TenantScopedRepository\<close>, whose every query and write is filtered by the repository's
  organization. The lemmas are proved once for any table that satisfies the laws of
  \<open>TableLaws\<close>; each table of the program is an interpretation there.

  SQL leaves the order of rows open where a SELECT has no ORDER BY: \<open>scan\<close> is the order
  in which the database happens to return the table, a parameter whose only documented
  law is that it returns each row once (\<open>row_order\<close>).
\<close>

definition row_order :: "('r list \<Rightarrow> 'r list) \<Rightarrow> bool" where
  "row_order scan \<longleftrightarrow> (\<forall>rs. mset (scan rs) = mset rs)"

lemma row_order_set: "row_order scan \<Longrightarrow> set (scan rs) = set rs"
  unfolding row_order_def by (metis set_mset_mset)

lemma row_order_length: "row_order scan \<Longrightarrow> length (scan rs) = length rs"
  unfolding row_order_def by (metis size_mset)

lemma row_order_id [simp]: "row_order (\<lambda>rs. rs)"
  by (simp add: row_order_def)

lemma row_order_rev [simp]: "row_order rev"
  by (simp add: row_order_def)

section \<open>\<open>BaseRepository\<close>\<close>

definition base_get_by_id :: "('r, 'x) model_scheme \<Rightarrow> uuid \<Rightarrow> ('z, 'r option) tx" where
  "base_get_by_id M entity_id = getsE (\<lambda>s. find (\<lambda>r. pk_of M r = entity_id) (rows_of M (work s)))"

definition base_create :: "('r, 'x) model_scheme \<Rightarrow> 'r \<Rightarrow> ('z, 'r) tx" where
  "base_create M attributes = insert_row M attributes"

section \<open>\<open>TenantScopedRepository\<close>\<close>

text \<open>The filter \<open>get_by_id\<close>, \<open>list_paginated\<close> and \<open>count\<close> add for soft-deletable models.\<close>

definition not_deleted :: "('r, 'x) tenant_model_scheme \<Rightarrow> bool \<Rightarrow> 'r \<Rightarrow> bool" where
  "not_deleted M include_deleted r =
     (if \<not> include_deleted
      then (case deleted_flag M of Some is_deleted \<Rightarrow> \<not> is_deleted r | None \<Rightarrow> True)
      else True)"

definition tenant_get_by_id ::
  "('r, 'x) tenant_model_scheme \<Rightarrow> uuid \<Rightarrow> uuid \<Rightarrow> bool \<Rightarrow> ('z, 'r option) tx" where
  "tenant_get_by_id M organization_id entity_id include_deleted =
     bindE (select_where M (\<lambda>r. pk_of M r = entity_id \<and> org_of M r = organization_id \<and>
                                not_deleted M include_deleted r))
       (\<lambda>rs. liftE (scalar_one_or_none rs))"

definition list_paginated ::
  "('r, 'x) tenant_model_scheme \<Rightarrow> ('r list \<Rightarrow> 'r list) \<Rightarrow> uuid \<Rightarrow> nat \<Rightarrow> nat \<Rightarrow> bool \<Rightarrow> ('z, 'r list) tx" where
  "list_paginated M scan organization_id offset limit include_deleted =
     getsE (\<lambda>s. take (min limit 100) (drop offset
       (filter (\<lambda>r. org_of M r = organization_id \<and> not_deleted M include_deleted r)
         (scan (rows_of M (work s))))))"

definition count :: "('r, 'x) tenant_model_scheme \<Rightarrow> uuid \<Rightarrow> bool \<Rightarrow> ('z, nat) tx" where
  "count M organization_id include_deleted =
     getsE (\<lambda>s. length (filter (\<lambda>r. org_of M r = organization_id \<and> not_deleted M include_deleted r)
       (rows_of M (work s))))"

definition tenant_create :: "('r, 'x) tenant_model_scheme \<Rightarrow> uuid \<Rightarrow> 'r \<Rightarrow> ('z, 'r) tx" where
  "tenant_create M organization_id attributes = base_create M (with_org M organization_id attributes)"

text \<open>
  \<open>soft_delete\<close>: \<open>db_now\<close> is the database's \<open>now()\<close>, \<open>now\<close> the clock of the
  \<open>updated_at\<close> stamp.
\<close>

definition soft_delete ::
  "('r, 'x) tenant_model_scheme \<Rightarrow> uuid \<Rightarrow> instant \<Rightarrow> instant \<Rightarrow> uuid \<Rightarrow> ('z, bool) tx" where
  "soft_delete M organization_id db_now now entity_id =
     (case deleted_flag M of
        None \<Rightarrow> raiseE PyTypeError
      | Some is_deleted \<Rightarrow>
          bindE (update_where M
                  (\<lambda>r. pk_of M r = entity_id \<and> org_of M r = organization_id \<and> \<not> is_deleted r)
                  (\<lambda>r. touch M now (mark_deleted M db_now r)))
            (\<lambda>rs. bindE (liftE (scalar_one_or_none rs))
            (\<lambda>v. returnE (v \<noteq> None))))"

lemmas repository_defs =
  base_get_by_id_def base_create_def tenant_get_by_id_def list_paginated_def count_def
  tenant_create_def soft_delete_def

text \<open>Queries change nothing.\<close>

lemma preserves_base_get_by_id [preserve_intros]: "preserves I (base_get_by_id M i)"
  unfolding base_get_by_id_def by (rule preserves_getsE)

lemma preserves_tenant_get_by_id [preserve_intros]: "preserves I (tenant_get_by_id M org i incl)"
  unfolding tenant_get_by_id_def by (intro preserve_intros)

lemma preserves_list_paginated [preserve_intros]: "preserves I (list_paginated M scan org off lim incl)"
  unfolding list_paginated_def by (rule preserves_getsE)

lemma preserves_count [preserve_intros]: "preserves I (count M org incl)"
  unfolding count_def by (rule preserves_getsE)

lemma no_commit_base_create [preserve_intros]: "preserves (\<lambda>s. committed s = d) (base_create M r)"
  unfolding base_create_def by (rule no_commit_insert_row)

lemma no_commit_tenant_create [preserve_intros]: "preserves (\<lambda>s. committed s = d) (tenant_create M org r)"
  unfolding tenant_create_def by (rule no_commit_base_create)

lemma no_commit_soft_delete [preserve_intros]:
  "preserves (\<lambda>s. committed s = d) (soft_delete M org db_now now i)"
  unfolding soft_delete_def by (intro preserve_intros no_commit_update_where)

section \<open>Tenant isolation of the generic operations\<close>

text \<open>The state of another tenant, in the committed database and in the session's view.\<close>

definition keeps_tenant :: "uuid \<Rightarrow> database \<Rightarrow> 'z session_scheme \<Rightarrow> bool" where
  "keeps_tenant b d0 s \<longleftrightarrow> tenant_view b (committed s) = tenant_view b d0 \<and>
     tenant_view b (work s) = tenant_view b d0"

lemma transaction_keeps_tenant [preserve_intros]:
  "preserves (keeps_tenant b d0) body \<Longrightarrow> preserves (keeps_tenant b d0) (transaction body)"
  by (erule transaction_preserves) (simp_all add: keeps_tenant_def)

lemma transaction_keeps_tenant_at:
  "keeps_tenant b d0 (snd (body s)) \<Longrightarrow> keeps_tenant b d0 (snd (transaction body s))"
  by (auto simp: keeps_tenant_def transaction_cases rollback_def split: prod.splits sum.splits option.splits)

lemma commit_keeps_tenant [preserve_intros]: "preserves (keeps_tenant b d0) commit"
  by (rule commit_preserves) (simp add: keeps_tenant_def)

lemma with_db_session_keeps_tenant [preserve_intros]:
  "preserves (keeps_tenant b d0) handler \<Longrightarrow> preserves (keeps_tenant b d0) (with_db_session handler)"
  by (erule with_db_session_preserves) (simp add: keeps_tenant_def)

context table_model
begin

lemma base_create_wf: "preserves session_wf (base_create M r)"
  unfolding base_create_def by (rule insert_row_wf)

lemma base_get_by_id_Some:
  assumes "db_wf (work s)"
  shows "fst (base_get_by_id M i s) = Inr (Some r) \<longleftrightarrow> r \<in> set (rows_of M (work s)) \<and> pk_of M r = i"
proof
  assume "fst (base_get_by_id M i s) = Inr (Some r)"
  then show "r \<in> set (rows_of M (work s)) \<and> pk_of M r = i"
    by (auto simp: base_get_by_id_def getsE_def find_Some_iff)
next
  assume "r \<in> set (rows_of M (work s)) \<and> pk_of M r = i"
  with find_Some_distinct [OF pk_distinct [OF assms]] show "fst (base_get_by_id M i s) = Inr (Some r)"
    by (auto simp: base_get_by_id_def getsE_def)
qed

end

context tenant_table
begin

lemma tenant_create_wf: "preserves session_wf (tenant_create M org r)"
  unfolding tenant_create_def by (rule base_create_wf)

lemma soft_delete_wf: "preserves session_wf (soft_delete M org db_now now i)"
  unfolding soft_delete_def by (intro preserve_intros update_where_wf) simp

text \<open>The tenant query: on a well-formed database it finds the row or nothing, and never raises.\<close>

lemma tenant_query_unique:
  assumes "db_wf d"
  shows "length (filter (\<lambda>r. pk_of M r = i \<and> Q r) (rows_of M d)) \<le> 1"
  by (rule filter_key_length [OF pk_distinct [OF assms]]) simp

lemma tenant_get_by_id_eq:
  assumes "db_wf (work s)"
  shows "tenant_get_by_id M org i incl s =
    (Inr (find (\<lambda>r. pk_of M r = i \<and> org_of M r = org \<and> not_deleted M incl r) (rows_of M (work s))), s)"
proof -
  let ?P = "\<lambda>r. pk_of M r = i \<and> org_of M r = org \<and> not_deleted M incl r"
  have "length (filter ?P (rows_of M (work s))) \<le> 1"
    by (rule tenant_query_unique [OF assms])
  then have "scalar_one_or_none (filter ?P (rows_of M (work s))) = Inr (find ?P (rows_of M (work s)))"
    by (rule scalar_one_filter)
  then show ?thesis
    by (simp add: tenant_get_by_id_def select_where_def exec_simps)
qed

lemma tenant_get_by_id_Some:
  assumes "db_wf (work s)"
  shows "fst (tenant_get_by_id M org i incl s) = Inr (Some r) \<longleftrightarrow>
    r \<in> set (rows_of M (work s)) \<and> pk_of M r = i \<and> org_of M r = org \<and> not_deleted M incl r"
proof -
  have "find (\<lambda>r. pk_of M r = i \<and> Q r) xs = Some r \<longleftrightarrow> r \<in> set xs \<and> pk_of M r = i \<and> Q r"
    if "distinct (map (pk_of M) xs)" for xs and Q :: "'r \<Rightarrow> bool"
    using that by (induction xs) (auto simp: image_iff)
  with pk_distinct [OF assms] show ?thesis
    by (simp add: tenant_get_by_id_eq [OF assms])
qed

lemma tenant_create_keeps_tenant:
  assumes "b \<noteq> org"
  shows "preserves (keeps_tenant b d0) (tenant_create M org r)"
proof (rule preservesI)
  fix s :: "'z session_scheme"
  assume keep: "keeps_tenant b d0 s"
  have "tenant_view b (with_rows M (rows_of M (work s) @ [with_org M org r]) (work s)) = tenant_view b (work s)"
    by (rule view_with) (use assms in \<open>simp add: org_rows_def\<close>)
  with keep show "keeps_tenant b d0 (snd (tenant_create M org r s))"
    by (simp add: tenant_create_def base_create_def insert_row_def keeps_tenant_def Let_def split: option.splits)
qed

lemma update_where_keeps_tenant:
  assumes "\<And>r. P r \<Longrightarrow> org_of M r \<noteq> b" and "\<And>r. P r \<Longrightarrow> org_of M (f r) \<noteq> b"
  shows "preserves (keeps_tenant b d0) (update_where M P f)"
proof (rule preservesI)
  fix s :: "'z session_scheme"
  assume keep: "keeps_tenant b d0 s"
  have "tenant_view b (with_rows M (map (\<lambda>r. if P r then f r else r) (rows_of M (work s))) (work s)) =
      tenant_view b (work s)"
    by (rule view_with) (use assms in \<open>simp add: org_rows_def filter_map_if_other\<close>)
  with keep show "keeps_tenant b d0 (snd (update_where M P f s))"
    by (simp add: update_where_def keeps_tenant_def Let_def split: list.splits)
qed

lemma flush_dirty_keeps_tenant:
  assumes wf: "db_wf (work s)" and q: "q \<in> set (rows_of M (work s))" "pk_of M q = pk_of M r"
    and org: "org_of M q \<noteq> b" "org_of M r \<noteq> b" and keep: "keeps_tenant b d0 s"
  shows "keeps_tenant b d0 (snd (flush_dirty M now r s))"
proof (cases "q = r")
  case True
  with q wf have "find (\<lambda>q. pk_of M q = pk_of M r) (rows_of M (work s)) = Some r"
    using find_Some_distinct [OF pk_distinct [OF wf]] by auto
  with keep show ?thesis by (simp add: flush_dirty_def)
next
  case False
  have "q' = q" if "q' \<in> set (rows_of M (work s))" "pk_of M q' = pk_of M r" for q'
    using distinct_key_unique [OF pk_distinct [OF wf] that(1) q(1)] that(2) q(2) by simp
  then have "tenant_view b (with_rows M (map (\<lambda>q. if pk_of M q = pk_of M r then touch M now r else q)
      (rows_of M (work s))) (work s)) = tenant_view b (work s)"
    using org by (intro view_with) (auto simp: org_rows_def intro!: filter_map_if_other_in)
  with keep show ?thesis
    by (simp add: flush_dirty_eq [OF wf q False] Let_def keeps_tenant_def split: option.splits)
qed

lemma soft_delete_keeps_tenant:
  "b \<noteq> org \<Longrightarrow> preserves (keeps_tenant b d0) (soft_delete M org db_now now i)"
  unfolding soft_delete_def by (intro preserve_intros update_where_keeps_tenant) auto

text \<open>
  The read-check-write of the services: load a row of the tenant, guard, change the loaded
  object and flush it. Whatever the guard, other tenants keep their rows.
\<close>

lemma guarded_flush_keeps_tenant:
  assumes "b \<noteq> org" and wf: "db_wf (work s)" and keep: "keeps_tenant b d0 s"
    and f: "\<And>r. pk_of M (f r) = pk_of M r" "\<And>r. org_of M (f r) = org_of M r"
    and k: "\<And>r r'. preserves (keeps_tenant b d0) (k r r')"
  shows "keeps_tenant b d0 (snd (bindE (tenant_get_by_id M org i incl) (\<lambda>found.
    bindE (some_or_raise found e) (\<lambda>r. bindE (raise_if (c r) (e' r)) (\<lambda>_.
    bindE (flush_dirty M now (f r)) (k r)))) s))"
proof (cases "find (\<lambda>r. pk_of M r = i \<and> org_of M r = org \<and> not_deleted M incl r) (rows_of M (work s))")
  case None
  then show ?thesis using keep by (simp add: bindE_def tenant_get_by_id_eq [OF wf] some_or_raise_def)
next
  case (Some r)
  then have r: "r \<in> set (rows_of M (work s))" "org_of M r = org" by (auto simp: find_Some_iff)
  have "keeps_tenant b d0 (snd (flush_dirty M now (f r) s))"
    by (rule flush_dirty_keeps_tenant [OF wf r(1)]) (use assms r in auto)
  then have "keeps_tenant b d0 (snd (bindE (flush_dirty M now (f r)) (k r) s))"
    by (rule bindE_keeps) (rule preservesD [OF k])
  with Some keep show ?thesis
    by (simp add: bindE_def tenant_get_by_id_eq [OF wf] some_or_raise_def raise_if_def)
qed

end

end
