(* ===== verification/AuditTrail.thy ===== *)
theory AuditTrail
  imports Repository
begin

text \<open>
  Construction of audit rows (\<open>AuditLog(...)\<close> in the services) and the values the
  environment supplies to a write: fresh UUIDs and clock readings.
\<close>

record row_stamp =
  st_id :: uuid
  st_created_at :: instant
  st_updated_at :: instant

text \<open>The id and the timestamp default of an audit row.\<close>

record audit_stamp =
  as_id :: uuid
  as_timestamp :: instant

definition new_audit ::
  "audit_stamp \<Rightarrow> uuid \<Rightarrow> uuid option \<Rightarrow> pystr \<Rightarrow> uuid \<Rightarrow> audit_action \<Rightarrow> json option \<Rightarrow> json option \<Rightarrow> audit_log" where
  "new_audit st organization_id actor_id entity_type entity_id action before_state after_state =
     \<lparr>al_id = as_id st, al_organization_id = organization_id, al_actor_id = actor_id,
      al_entity_type = entity_type, al_entity_id = entity_id, al_action = action,
      al_before_state = before_state, al_after_state = after_state,
      al_ip_address = None, al_user_agent = None, al_timestamp = as_timestamp st\<rparr>"

text \<open>\<open>session.add(audit)\<close>, written at the latest by the commit of the same transaction.\<close>

definition add_audit :: "audit_log \<Rightarrow> ('z, unit) tx" where
  "add_audit a = bindE (insert_row AuditLog a) (\<lambda>_. returnE ())"

text \<open>When the audit row can be written: its id is fresh, its tenant and actor exist.\<close>

definition audit_writable :: "database \<Rightarrow> audit_log \<Rightarrow> bool" where
  "audit_writable d a \<longleftrightarrow> al_id a \<notin> al_id ` set (tbl_audit_logs d) \<and>
     al_organization_id a \<in> organization_ids d \<and> opt_ref (al_actor_id a) (user_ids d) \<and>
     length (al_entity_type a) \<le> 50 \<and> al_ip_address a = None \<and> al_user_agent a = None"

lemma add_audit_ok:
  assumes "audit_writable (work s) a"
  shows "add_audit a s = (Inr (), s\<lparr>work := (work s)\<lparr>tbl_audit_logs := tbl_audit_logs (work s) @ [a]\<rparr>\<rparr>)"
  using assms
  by (simp add: add_audit_def insert_row_def exec_simps audit_writable_def violation_def AuditLog_def
      fits_defs organization_ids_def user_ids_def Let_def)

lemma add_audit_wf [preserve_intros]: "preserves session_wf (add_audit a)"
  unfolding add_audit_def by (intro preserve_intros audit_logs_tbl.insert_row_wf)

lemma no_commit_add_audit [preserve_intros]: "preserves (\<lambda>s. committed s = d) (add_audit a)"
  unfolding add_audit_def by (intro preserve_intros)

lemma add_audit_keeps_tenant:
  assumes "al_organization_id a \<noteq> b"
  shows "preserves (keeps_tenant b d0) (add_audit a)"
proof -
  have "preserves (keeps_tenant b d0) (tenant_create AuditLog (al_organization_id a) a)"
    by (rule audit_logs_tbl.tenant_create_keeps_tenant) (use assms in simp)
  then have "preserves (keeps_tenant b d0) (insert_row AuditLog a)"
    by (simp add: tenant_create_def base_create_def)
  then show ?thesis
    unfolding add_audit_def by (intro preserve_intros)
qed

lemma new_audit_fields [simp]:
  "al_id (new_audit st o' a et ei ac b c) = as_id st"
  "al_organization_id (new_audit st o' a et ei ac b c) = o'"
  "al_actor_id (new_audit st o' a et ei ac b c) = a"
  "al_entity_type (new_audit st o' a et ei ac b c) = et"
  "al_entity_id (new_audit st o' a et ei ac b c) = ei"
  "al_action (new_audit st o' a et ei ac b c) = ac"
  "al_before_state (new_audit st o' a et ei ac b c) = b"
  "al_after_state (new_audit st o' a et ei ac b c) = c"
  "al_ip_address (new_audit st o' a et ei ac b c) = None"
  "al_user_agent (new_audit st o' a et ei ac b c) = None"
  by (simp_all add: new_audit_def)

end
