(* ===== verification/AppState.thy ===== *)
theory AppState
  imports AuditTrail
begin

text \<open>
  The state a request handler works on besides its database session: the Redis store
  (\<open>app/core/redis.py\<close>), the clock, the UUID source, and the messages published to Redis.

  Redis is a service outside the repository: \<open>redis_api\<close> holds the commands the code issues,
  as a parameter, and \<open>redis_laws\<close> what the code relies on, as Redis documents it. A client
  call may also fail to reach the server (\<open>redis_down\<close>), and then it raises.
\<close>

section \<open>The Redis commands\<close>

text \<open>
  Every command takes the server's time. \<open>zset_at\<close> observes the members of a sorted set with
  their scores (\<open>ZRANGE key 0 -1 WITHSCORES\<close>); it states the laws and no code calls it.
\<close>

record 'r redis_api =
  set_ex :: "instant \<Rightarrow> pystr \<Rightarrow> pystr \<Rightarrow> int \<Rightarrow> 'r \<Rightarrow> 'r"
  exists_key :: "instant \<Rightarrow> pystr \<Rightarrow> 'r \<Rightarrow> int"
  zremrangebyscore :: "instant \<Rightarrow> pystr \<Rightarrow> int \<Rightarrow> int \<Rightarrow> 'r \<Rightarrow> 'r"
  zadd :: "instant \<Rightarrow> pystr \<Rightarrow> pystr \<Rightarrow> int \<Rightarrow> 'r \<Rightarrow> 'r"
  zcard :: "instant \<Rightarrow> pystr \<Rightarrow> 'r \<Rightarrow> int"
  expire :: "instant \<Rightarrow> pystr \<Rightarrow> int \<Rightarrow> 'r \<Rightarrow> 'r"
  zset_at :: "instant \<Rightarrow> pystr \<Rightarrow> 'r \<Rightarrow> (pystr \<times> int) list"

text \<open>
  String keys: \<open>SET key value EX ttl\<close> makes the key exist for \<open>ttl\<close> seconds and touches no
  other key; \<open>EXISTS\<close> counts it as 1 while it lives.
\<close>

definition redis_string_laws :: "'r redis_api \<Rightarrow> bool" where
  "redis_string_laws R \<longleftrightarrow>
     (\<forall>t k v ttl r now. 0 < ttl \<longrightarrow> t \<le> now \<longrightarrow>
        exists_key R now k (set_ex R t k v ttl r) = (if now < t + ttl * usec_per_sec then 1 else 0)) \<and>
     (\<forall>t k v ttl r now k'. k' \<noteq> k \<longrightarrow> exists_key R now k' (set_ex R t k v ttl r) = exists_key R now k' r)"

text \<open>
  Sorted sets: one entry per member, the member and score given to \<open>ZADD\<close>, a range of scores
  removed, the number of members, and a time to live for the whole key.
\<close>

definition redis_zset_laws :: "'r redis_api \<Rightarrow> bool" where
  "redis_zset_laws R \<longleftrightarrow>
     (\<forall>t k r. distinct (map fst (zset_at R t k r))) \<and>
     (\<forall>t k lo hi r. set (zset_at R t k (zremrangebyscore R t k lo hi r)) =
        {e \<in> set (zset_at R t k r). \<not> (lo \<le> snd e \<and> snd e \<le> hi)}) \<and>
     (\<forall>t k m sc r. set (zset_at R t k (zadd R t k m sc r)) =
        insert (m, sc) {e \<in> set (zset_at R t k r). fst e \<noteq> m}) \<and>
     (\<forall>t k r. zcard R t k r = int (length (zset_at R t k r))) \<and>
     (\<forall>t k ttl r now. 0 < ttl \<longrightarrow> t \<le> now \<longrightarrow> zset_at R now k (expire R t k ttl r) =
        (if now < t + ttl * usec_per_sec then zset_at R t k r else [])) \<and>
     (\<forall>t k lo hi r k' now. k' \<noteq> k \<longrightarrow> zset_at R now k' (zremrangebyscore R t k lo hi r) = zset_at R now k' r) \<and>
     (\<forall>t k m sc r k' now. k' \<noteq> k \<longrightarrow> zset_at R now k' (zadd R t k m sc r) = zset_at R now k' r) \<and>
     (\<forall>t k ttl r k' now. k' \<noteq> k \<longrightarrow> zset_at R now k' (expire R t k ttl r) = zset_at R now k' r)"

lemma redis_exists_same:
  "redis_string_laws R \<Longrightarrow> 0 < ttl \<Longrightarrow> t \<le> now \<Longrightarrow>
     exists_key R now k (set_ex R t k v ttl r) = (if now < t + ttl * usec_per_sec then 1 else 0)"
  by (simp add: redis_string_laws_def)

lemma redis_exists_other:
  "redis_string_laws R \<Longrightarrow> k' \<noteq> k \<Longrightarrow> exists_key R now k' (set_ex R t k v ttl r) = exists_key R now k' r"
  by (simp add: redis_string_laws_def)

section \<open>The state of a request\<close>

text \<open>
  \<open>clock\<close> and \<open>uuid_source\<close> are the values the environment will answer to the coming calls of
  \<open>datetime.now(UTC)\<close> and \<open>uuid.uuid4()\<close>, the next one first.
\<close>

record 'r app_state = session +
  redis :: 'r
  redis_down :: bool
  clock :: "nat \<Rightarrow> instant"
  uuid_source :: "nat \<Rightarrow> uuid"
  published :: "(pystr \<times> pystr) list"

type_synonym ('r, 'z, 'a) app = "(('r, 'z) app_state_ext, 'a) tx"

definition datetime_now :: "('r, 'z, instant) app" where
  "datetime_now s = (Inr (clock s 0), s\<lparr>clock := \<lambda>n. clock s (Suc n)\<rparr>)"

definition uuid4 :: "('r, 'z, uuid) app" where
  "uuid4 s = (Inr (uuid_source s 0), s\<lparr>uuid_source := \<lambda>n. uuid_source s (Suc n)\<rparr>)"

definition redis_ask :: "('r \<Rightarrow> 'a) \<Rightarrow> ('r, 'z, 'a) app" where
  "redis_ask f s = (if redis_down s then Inl RedisError else Inr (f (redis s)), s)"

definition redis_do :: "('r \<Rightarrow> 'r) \<Rightarrow> ('r, 'z, unit) app" where
  "redis_do f s = (if redis_down s then (Inl RedisError, s) else (Inr (), s\<lparr>redis := f (redis s)\<rparr>))"

text \<open>
  The column defaults of a new row (\<open>UUIDPrimaryKeyMixin\<close>, \<open>TimestampMixin\<close>): a fresh UUID and
  two readings of the clock.
\<close>

definition fresh_stamp :: "('r, 'z, row_stamp) app" where
  "fresh_stamp =
     bindE uuid4 (\<lambda>i. bindE datetime_now (\<lambda>t. bindE datetime_now (\<lambda>t'.
     returnE \<lparr>st_id = i, st_created_at = t, st_updated_at = t'\<rparr>)))"

lemmas app_defs = datetime_now_def uuid4_def redis_ask_def redis_do_def

text \<open>Requests do not see a clock that runs backwards.\<close>

definition steady :: "(nat \<Rightarrow> instant) \<Rightarrow> bool" where
  "steady c \<longleftrightarrow> (\<forall>i j. i \<le> j \<longrightarrow> c i \<le> c j)"

lemma steady_shift: "steady c \<Longrightarrow> steady (\<lambda>n. c (Suc n))"
  by (simp add: steady_def)

text \<open>None of these touches the database session.\<close>

definition session_frame :: "('z session_scheme \<Rightarrow> bool) \<Rightarrow> bool" where
  "session_frame I \<longleftrightarrow> (\<forall>s s'. committed s = committed s' \<longrightarrow> work s = work s' \<longrightarrow> I s \<longrightarrow> I s')"

lemma session_frame_wf [simp]: "session_frame session_wf"
  by (auto simp: session_frame_def session_wf_def)

lemma session_frame_keeps [simp]: "session_frame (keeps_tenant b d0)"
  by (auto simp: session_frame_def keeps_tenant_def)

lemma session_frame_committed [simp]: "session_frame (\<lambda>s. committed s = d)"
  by (auto simp: session_frame_def)

lemma preserves_session_frame:
  assumes "session_frame I" and "\<And>s. committed (snd (m s)) = committed s \<and> work (snd (m s)) = work s"
  shows "preserves I m"
  using assms unfolding session_frame_def preserves_def by metis

lemma preserves_datetime_now [preserve_intros]: "session_frame I \<Longrightarrow> preserves I datetime_now"
  by (erule preserves_session_frame) (simp add: datetime_now_def)

lemma preserves_uuid4 [preserve_intros]: "session_frame I \<Longrightarrow> preserves I uuid4"
  by (erule preserves_session_frame) (simp add: uuid4_def)

lemma preserves_redis_ask [preserve_intros]: "preserves I (redis_ask f)"
  by (simp add: preserves_def redis_ask_def)

lemma preserves_redis_do [preserve_intros]: "session_frame I \<Longrightarrow> preserves I (redis_do f)"
  by (erule preserves_session_frame) (simp add: redis_do_def)

lemma preserves_fresh_stamp [preserve_intros]: "session_frame I \<Longrightarrow> preserves I fresh_stamp"
  unfolding fresh_stamp_def by (intro preserve_intros)

section \<open>A store that satisfies the laws\<close>

text \<open>
  A small in-memory store, which shows that the laws can hold: each key with its expiry and
  its value, a string or a sorted set.
\<close>

datatype store_value = SString pystr | SZset "(pystr \<times> int) list"

type_synonym store = "pystr \<Rightarrow> (int option \<times> store_value) option"

definition live :: "instant \<Rightarrow> pystr \<Rightarrow> store \<Rightarrow> (int option \<times> store_value) option" where
  "live now k st = (case st k of
     None \<Rightarrow> None
   | Some (e, v) \<Rightarrow> (case e of None \<Rightarrow> Some (e, v) | Some t \<Rightarrow> if now < t then Some (e, v) else None))"

definition store_zset :: "instant \<Rightarrow> pystr \<Rightarrow> store \<Rightarrow> (pystr \<times> int) list" where
  "store_zset now k st = (case live now k st of Some (e, SZset z) \<Rightarrow> AList.clearjunk z | _ \<Rightarrow> [])"

definition store_expiry :: "instant \<Rightarrow> pystr \<Rightarrow> store \<Rightarrow> int option" where
  "store_expiry now k st = (case live now k st of Some (e, _) \<Rightarrow> e | None \<Rightarrow> None)"

definition memory_redis :: "store redis_api" where
  "memory_redis = \<lparr>
     set_ex = (\<lambda>t k v ttl st. st(k \<mapsto> (Some (t + ttl * usec_per_sec), SString v))),
     exists_key = (\<lambda>now k st. if live now k st = None then 0 else 1),
     zremrangebyscore = (\<lambda>t k lo hi st.
       st(k \<mapsto> (store_expiry t k st, SZset (filter (\<lambda>e. \<not> (lo \<le> snd e \<and> snd e \<le> hi)) (store_zset t k st))))),
     zadd = (\<lambda>t k m sc st.
       st(k \<mapsto> (store_expiry t k st, SZset ((m, sc) # filter (\<lambda>e. fst e \<noteq> m) (store_zset t k st))))),
     zcard = (\<lambda>t k st. int (length (store_zset t k st))),
     expire = (\<lambda>t k ttl st. st(k \<mapsto> (Some (t + ttl * usec_per_sec), SZset (store_zset t k st)))),
     zset_at = store_zset\<rparr>"

lemma memory_redis_string_laws: "redis_string_laws memory_redis"
  by (auto simp: redis_string_laws_def memory_redis_def live_def)

text \<open>The entries of a key just written, at the time of the write and later.\<close>

lemma store_zset_upd:
  "store_zset now k (st(k \<mapsto> (e, SZset z))) =
     (case e of Some t \<Rightarrow> if now < t then AList.clearjunk z else [] | None \<Rightarrow> AList.clearjunk z)"
  by (auto simp: store_zset_def live_def split: option.splits)

lemma store_expiry_live: "store_expiry t k st = Some e \<Longrightarrow> t < e"
  by (auto simp: store_expiry_def live_def split: option.splits if_splits)

lemma store_zset_upd_now:
  "store_zset t k (st(k \<mapsto> (store_expiry t k st, SZset z))) = AList.clearjunk z"
  by (auto simp: store_zset_upd dest: store_expiry_live split: option.splits)

lemma store_zset_other: "k' \<noteq> k \<Longrightarrow> store_zset now k' (st(k \<mapsto> x)) = store_zset now k' st"
  by (simp add: store_zset_def live_def)

lemma distinct_store_zset: "distinct (map fst (store_zset t k st))"
  by (auto simp: store_zset_def distinct_clearjunk split: option.splits store_value.splits)

lemma memory_redis_zset_laws: "redis_zset_laws memory_redis"
  unfolding redis_zset_laws_def
proof (intro conjI allI impI)
  fix t k lo hi and r :: store
  show "distinct (map fst (zset_at memory_redis t k r))"
    by (simp add: memory_redis_def distinct_store_zset)
  show "set (zset_at memory_redis t k (zremrangebyscore memory_redis t k lo hi r)) =
      {e \<in> set (zset_at memory_redis t k r). \<not> (lo \<le> snd e \<and> snd e \<le> hi)}"
    by (auto simp: memory_redis_def store_zset_upd_now distinct_clearjunk_id distinct_map_filter distinct_store_zset)
next
  fix t k m sc and r :: store
  have "distinct (map fst ((m, sc) # filter (\<lambda>e. fst e \<noteq> m) (store_zset t k r)))"
    using distinct_store_zset [of t k r] by (auto simp: distinct_map_filter)
  then show "set (zset_at memory_redis t k (zadd memory_redis t k m sc r)) =
      insert (m, sc) {e \<in> set (zset_at memory_redis t k r). fst e \<noteq> m}"
    by (auto simp: memory_redis_def store_zset_upd_now distinct_clearjunk_id simp del: clearjunk.simps)
next
  fix t k ttl now and r :: store
  assume "0 < (ttl :: int)" "t \<le> (now :: int)"
  then show "zset_at memory_redis now k (expire memory_redis t k ttl r) =
      (if now < t + ttl * usec_per_sec then zset_at memory_redis t k r else [])"
    by (simp add: memory_redis_def store_zset_upd distinct_clearjunk_id distinct_store_zset)
qed (simp_all add: memory_redis_def store_zset_other)

end
