(* ===== verification/Tokens.thy ===== *)
theory Tokens
  imports AppState
begin

text \<open>
  Tokens and passwords (\<open>app/core/security.py\<close>) and the revocation list
  (\<open>TokenBlacklistService\<close>, \<open>app/core/redis.py\<close>). PyJWT and argon2-cffi are outside the
  repository: \<open>jwt_api\<close> and \<open>hasher\<close> stand for them, with the laws their documentation states.
\<close>

section \<open>Passwords\<close>

text \<open>
  \<open>ph.hash\<close> draws a 16-byte salt; \<open>ph.verify\<close> returns a truth value or raises (\<open>None\<close>). The law
  is stated for the passwords the registration schema admits.
\<close>

record hasher =
  ph_hash :: "128 word \<Rightarrow> pystr \<Rightarrow> pystr"
  ph_verify :: "pystr \<Rightarrow> pystr \<Rightarrow> bool option"

definition hasher_laws :: "hasher \<Rightarrow> bool" where
  "hasher_laws H \<longleftrightarrow>
     (\<forall>salt pw pw'. length pw \<le> 128 \<longrightarrow>
        ph_verify H (ph_hash H salt pw) pw' = (if pw' = pw then Some True else None) \<and>
        length (ph_hash H salt pw) \<le> 255)"

definition hash_password :: "hasher \<Rightarrow> 128 word \<Rightarrow> pystr \<Rightarrow> pystr" where
  "hash_password H salt password = ph_hash H salt password"

definition verify_password :: "hasher \<Rightarrow> pystr \<Rightarrow> pystr \<Rightarrow> bool" where
  "verify_password H plain_password hashed_password =
     (case ph_verify H hashed_password plain_password of Some b \<Rightarrow> b | None \<Rightarrow> False)"

lemma verify_hash_password: "hasher_laws H \<Longrightarrow> length pw \<le> 128 \<Longrightarrow> verify_password H pw' (hash_password H salt pw) \<longleftrightarrow> pw' = pw"
  by (simp add: hasher_laws_def verify_password_def hash_password_def)

section \<open>JSON web tokens\<close>

text \<open>
  A claim set is a dictionary; PyJWT writes a \<open>datetime\<close> claim as its whole number of
  seconds, so a decoded claim is text or a number.
\<close>

datatype claim = CStr pystr | CInt int | CTime instant

type_synonym claims = "(pystr \<times> claim) list"

fun json_claim :: "claim \<Rightarrow> claim" where
  "json_claim (CTime t) = CInt (t div usec_per_sec)"
| "json_claim c = c"

text \<open>\<open>jwt_decode now token\<close> is \<open>None\<close> when PyJWT raises one of its errors.\<close>

record jwt_api =
  jwt_encode :: "claims \<Rightarrow> pystr"
  jwt_decode :: "instant \<Rightarrow> pystr \<Rightarrow> claims option"

text \<open>
  The laws: a token made by \<open>encode\<close> with an \<open>iat\<close> that is not in the future decodes to its
  claims until the second of its \<open>exp\<close>, and whatever decodes has the required claims and is
  not expired.
\<close>

definition jwt_laws :: "jwt_api \<Rightarrow> bool" where
  "jwt_laws J \<longleftrightarrow>
     (\<forall>now sub jti ty e i. i \<le> now \<longrightarrow>
        (let c = [(''sub'', CStr sub), (''jti'', CStr jti), (''type'', CStr ty), (''exp'', CTime e), (''iat'', CTime i)]
         in jwt_decode J now (jwt_encode J c) =
              (if now < (e div usec_per_sec) * usec_per_sec then Some (map (\<lambda>(k, v). (k, json_claim v)) c) else None))) \<and>
     (\<forall>now t c. jwt_decode J now t = Some c \<longrightarrow>
        (\<exists>e. map_of c ''exp'' = Some (CInt e) \<and> now < e * usec_per_sec) \<and>
        (\<forall>k \<in> {''sub'', ''jti'', ''type''}. map_of c k \<noteq> None))"

definition create_jwt_token ::
  "jwt_api \<Rightarrow> pystr \<Rightarrow> pystr \<Rightarrow> int \<Rightarrow> claims option \<Rightarrow> ('r, 'z, pystr \<times> pystr \<times> instant) app" where
  "create_jwt_token J subject token_type expires_delta extra_claims =
     bindE uuid4 (\<lambda>u.
     bindE datetime_now (\<lambda>t.
     bindE datetime_now (\<lambda>t'.
     let jti = uuid_str u;
         expire_at = t + expires_delta;
         payload = [(''sub'', CStr subject), (''jti'', CStr jti), (''type'', CStr token_type),
                    (''exp'', CTime expire_at), (''iat'', CTime t')];
         payload = (case extra_claims of None \<Rightarrow> payload | Some x \<Rightarrow> fold (\<lambda>(k, v). AList.update k v) x payload)
     in returnE (jwt_encode J payload, jti, expire_at))))"

definition decode_jwt_token :: "jwt_api \<Rightarrow> pystr \<Rightarrow> ('r, 'z, claims option) app" where
  "decode_jwt_token J token = bindE datetime_now (\<lambda>now. returnE (jwt_decode J now token))"

text \<open>Reading a claim as Python does: \<open>str\<close>, \<open>uuid.UUID\<close>, \<open>datetime.fromtimestamp\<close>.\<close>

fun claim_text :: "claim \<Rightarrow> pystr" where
  "claim_text (CStr s) = s"
| "claim_text (CInt i) = py_str_int i"
| "claim_text (CTime t) = py_str_int t"

fun uuid_of_claim :: "claim \<Rightarrow> exn + uuid" where
  "uuid_of_claim (CStr s) = (case uuid_of_str s of Some u \<Rightarrow> Inr u | None \<Rightarrow> Inl PyValueError)"
| "uuid_of_claim _ = Inl PyAttributeError"

fun fromtimestamp :: "claim \<Rightarrow> exn + instant" where
  "fromtimestamp (CInt i) =
     (if - 62135596800 \<le> i \<and> i < 253402300800 then Inr (i * usec_per_sec) else Inl PyValueError)"
| "fromtimestamp _ = Inl PyTypeError"

definition claim_at :: "claims \<Rightarrow> pystr \<Rightarrow> exn + claim" where
  "claim_at c k = (case map_of c k of Some v \<Rightarrow> Inr v | None \<Rightarrow> Inl PyKeyError)"

section \<open>The revocation list\<close>

definition blacklist_key :: "pystr \<Rightarrow> pystr" where
  "blacklist_key jti = ''token_blacklist:'' @ jti"

text \<open>\<open>int(x.total_seconds())\<close> truncates toward zero.\<close>

definition int_seconds :: "int \<Rightarrow> int" where
  "int_seconds usec = (if 0 \<le> usec then usec div usec_per_sec else - ((- usec) div usec_per_sec))"

definition revoke_token :: "'r redis_api \<Rightarrow> pystr \<Rightarrow> instant \<Rightarrow> ('r, 'z, unit) app" where
  "revoke_token R jti expires_at =
     bindE datetime_now (\<lambda>now.
     let ttl = int_seconds (expires_at - now) in
     if 0 < ttl then redis_do (set_ex R now (blacklist_key jti) ''revoked'' ttl) else returnE ())"

definition is_token_revoked :: "'r redis_api \<Rightarrow> pystr \<Rightarrow> ('r, 'z, bool) app" where
  "is_token_revoked R jti =
     bindE datetime_now (\<lambda>now.
     bindE (redis_ask (exists_key R now (blacklist_key jti))) (\<lambda>n. returnE (n = 1)))"

lemma blacklist_key_inject [simp]: "blacklist_key a = blacklist_key b \<longleftrightarrow> a = b"
  by (simp add: blacklist_key_def)

lemma int_seconds_pos: "0 < int_seconds d \<longleftrightarrow> usec_per_sec \<le> d"
  by (auto simp: int_seconds_def)

lemma preserves_create_jwt_token [preserve_intros]:
  "session_frame I \<Longrightarrow> preserves I (create_jwt_token J sub ty d x)"
  unfolding create_jwt_token_def Let_def by (intro preserve_intros)

lemma preserves_decode_jwt_token [preserve_intros]: "session_frame I \<Longrightarrow> preserves I (decode_jwt_token J t)"
  unfolding decode_jwt_token_def by (intro preserve_intros)

lemma preserves_revoke_token [preserve_intros]: "session_frame I \<Longrightarrow> preserves I (revoke_token R j e)"
  unfolding revoke_token_def Let_def by (intro preserve_intros)

lemma preserves_is_token_revoked [preserve_intros]: "session_frame I \<Longrightarrow> preserves I (is_token_revoked R j)"
  unfolding is_token_revoked_def by (intro preserve_intros)

text \<open>
  A revoked token stays revoked for the whole seconds it still has: at least until one second
  before it expires, and never beyond its expiry.
\<close>

definition revoked_at :: "'r redis_api \<Rightarrow> pystr \<Rightarrow> instant \<Rightarrow> 'r \<Rightarrow> bool" where
  "revoked_at R jti now r \<longleftrightarrow> exists_key R now (blacklist_key jti) r = 1"

lemma is_token_revoked_eq:
  "is_token_revoked R jti s =
     (if redis_down s then Inl RedisError else Inr (revoked_at R jti (clock s 0) (redis s)),
      s\<lparr>clock := \<lambda>n. clock s (Suc n)\<rparr>)"
  by (simp add: is_token_revoked_def app_defs exec_simps revoked_at_def)

lemma revoke_token_eq:
  "revoke_token R jti e s =
     (let s' = s\<lparr>clock := \<lambda>n. clock s (Suc n)\<rparr>; ttl = int_seconds (e - clock s 0) in
      if ttl \<le> 0 then (Inr (), s')
      else if redis_down s then (Inl RedisError, s')
      else (Inr (), s'\<lparr>redis := set_ex R (clock s 0) (blacklist_key jti) ''revoked'' ttl (redis s)\<rparr>))"
  by (simp add: revoke_token_def app_defs exec_simps Let_def)

lemma int_seconds_bounds:
  "0 \<le> d \<Longrightarrow> int_seconds d * usec_per_sec \<le> d \<and> d < int_seconds d * usec_per_sec + usec_per_sec"
proof -
  have "d = d div usec_per_sec * usec_per_sec + d mod usec_per_sec"
    "0 \<le> d mod usec_per_sec" "d mod usec_per_sec < usec_per_sec"
    by simp_all
  then show "0 \<le> d \<Longrightarrow> ?thesis" by (auto simp: int_seconds_def)
qed

lemma revoked_after_set:
  assumes laws: "redis_string_laws R" and "0 < ttl" and "t \<le> now"
  shows "revoked_at R jti' now (set_ex R t (blacklist_key jti) ''revoked'' ttl r) \<longleftrightarrow>
    (if jti' = jti then now < t + ttl * usec_per_sec else revoked_at R jti' now r)"
  using assms redis_exists_same [OF laws assms(2,3)] redis_exists_other [OF laws]
  by (simp add: revoked_at_def)

section \<open>Libraries that satisfy the laws\<close>

text \<open>
  Concrete libraries, which show that the laws can hold: a hasher that stores the password
  itself, and tokens that spell out their claims, each text prefixed by its length.
\<close>

definition plain_hasher :: hasher where
  "plain_hasher = \<lparr>ph_hash = (\<lambda>salt pw. pw), ph_verify = (\<lambda>h pw. if h = pw then Some True else None)\<rparr>"

lemma plain_hasher_laws: "hasher_laws plain_hasher"
  by (simp add: hasher_laws_def plain_hasher_def)

fun put_text :: "pystr \<Rightarrow> pystr" where
  "put_text s = replicate (length s) (CHR ''1'') @ CHR ''0'' # s"

definition get_text :: "pystr \<Rightarrow> pystr \<times> pystr" where
  "get_text t = (let n = length (takeWhile (\<lambda>c. c = CHR ''1'') t); rest = drop (n + 1) t in (take n rest, drop n rest))"

lemma get_put_text [simp]: "get_text (put_text s @ rest) = (s, rest)"
proof -
  have "takeWhile (\<lambda>c. c = CHR ''1'') (replicate (length s) (CHR ''1'') @ CHR ''0'' # s @ rest) =
      replicate (length s) (CHR ''1'')"
    by (simp add: takeWhile_append)
  then show ?thesis by (simp add: get_text_def Let_def)
qed

fun put_nat :: "nat \<Rightarrow> pystr" where
  "put_nat n = (if n = 0 then [] else (if odd n then CHR ''1'' else CHR ''0'') # put_nat (n div 2))"

declare put_nat.simps [simp del]

primrec get_nat :: "pystr \<Rightarrow> nat" where
  "get_nat [] = 0"
| "get_nat (c # cs) = (if c = CHR ''1'' then 1 else 0) + 2 * get_nat cs"

lemma get_put_nat [simp]: "get_nat (put_nat n) = n"
proof (induction n rule: put_nat.induct)
  case (1 n)
  then show ?case
    by (cases "n = 0") (auto simp: put_nat.simps [of 0] put_nat.simps [of n] odd_two_times_div_two_succ)
qed

definition put_int :: "int \<Rightarrow> pystr" where
  "put_int i = (if i < 0 then CHR ''-'' # put_nat (nat (- i)) else CHR ''+'' # put_nat (nat i))"

definition get_int :: "pystr \<Rightarrow> int" where
  "get_int s = (case s of [] \<Rightarrow> 0 | c # cs \<Rightarrow> if c = CHR ''-'' then - int (get_nat cs) else int (get_nat cs))"

lemma get_put_int [simp]: "get_int (put_int i) = i"
  by (simp add: put_int_def get_int_def)

definition plain_encode :: "claims \<Rightarrow> pystr" where
  "plain_encode c =
     (case (map_of c ''sub'', map_of c ''jti'', map_of c ''type'', map_of c ''exp'', map_of c ''iat'') of
        (Some (CStr sub), Some (CStr jti), Some (CStr ty), Some (CTime e), Some (CTime i)) \<Rightarrow>
          put_text sub @ put_text jti @ put_text ty @
          put_text (put_int (e div usec_per_sec)) @ put_text (put_int (i div usec_per_sec))
      | _ \<Rightarrow> [])"

definition plain_decode :: "instant \<Rightarrow> pystr \<Rightarrow> claims option" where
  "plain_decode now t =
     (let (sub, t) = get_text t; (jti, t) = get_text t; (ty, t) = get_text t;
          (e, t) = get_text t; (i, t) = get_text t
      in if now < get_int e * usec_per_sec
         then Some [(''sub'', CStr sub), (''jti'', CStr jti), (''type'', CStr ty),
                    (''exp'', CInt (get_int e)), (''iat'', CInt (get_int i))]
         else None)"

definition plain_jwt :: jwt_api where
  "plain_jwt = \<lparr>jwt_encode = plain_encode, jwt_decode = plain_decode\<rparr>"

lemma get_put_text_end [simp]: "get_text (put_text s) = (s, [])"
  using get_put_text [of s "[]"] by simp

lemma plain_jwt_laws: "jwt_laws plain_jwt"
  by (simp add: jwt_laws_def plain_jwt_def plain_encode_def plain_decode_def Let_def
      del: put_text.simps split: prod.splits if_splits)

end
