(* ===== verification/Accounts.thy ===== *)
theory Accounts
  imports Tokens
begin

text \<open>
  Users, organizations and memberships (\<open>app/repositories/user.py\<close>,
  \<open>app/repositories/organization.py\<close>), and the request dependencies that decide who the caller
  is and what it may do (\<open>app/api/deps.py\<close>).
\<close>

section \<open>Repositories\<close>

definition normal_email :: "pystr \<Rightarrow> pystr" where
  "normal_email email = py_strip (py_lower email)"

definition get_by_email :: "pystr \<Rightarrow> ('z, user option) tx" where
  "get_by_email email =
     bindE (select_where User (\<lambda>u. u_email u = normal_email email)) (\<lambda>rs. liftE (scalar_one_or_none rs))"

definition get_by_slug :: "pystr \<Rightarrow> ('z, organization option) tx" where
  "get_by_slug slug =
     bindE (select_where Organization (\<lambda>g. o_slug g = slug)) (\<lambda>rs. liftE (scalar_one_or_none rs))"

definition get_membership :: "uuid \<Rightarrow> uuid \<Rightarrow> ('z, organization_member option) tx" where
  "get_membership organization_id user_id =
     bindE (select_where OrganizationMember
              (\<lambda>m. m_organization_id m = organization_id \<and> m_user_id m = user_id))
       (\<lambda>rs. liftE (scalar_one_or_none rs))"

text \<open>
  \<open>get_user_with_memberships\<close>: the user, and each membership with its organization, in the
  order the database returns them; a membership without its organization cannot be read
  (\<open>m.organization.name\<close> on \<open>None\<close>).
\<close>

fun with_organizations :: "database \<Rightarrow> organization_member list \<Rightarrow> exn + (organization_member \<times> organization) list" where
  "with_organizations d [] = Inr []"
| "with_organizations d (m # ms) =
     (case find (\<lambda>g. o_id g = m_organization_id m) (tbl_organizations d) of
        None \<Rightarrow> Inl PyAttributeError
      | Some g \<Rightarrow> (case with_organizations d ms of Inl e \<Rightarrow> Inl e | Inr r \<Rightarrow> Inr ((m, g) # r)))"

definition memberships_of :: "(organization_member list \<Rightarrow> organization_member list) \<Rightarrow> uuid \<Rightarrow> database \<Rightarrow> organization_member list" where
  "memberships_of scan user_id d = filter (\<lambda>m. m_user_id m = user_id) (scan (tbl_organization_members d))"

definition get_user_with_memberships ::
  "(organization_member list \<Rightarrow> organization_member list) \<Rightarrow> uuid \<Rightarrow>
     ('z, (user \<times> (organization_member \<times> organization) list) option) tx" where
  "get_user_with_memberships scan user_id =
     bindE (select_where User (\<lambda>u. u_id u = user_id)) (\<lambda>rs.
     bindE (liftE (scalar_one_or_none rs)) (\<lambda>found.
     case found of
       None \<Rightarrow> returnE None
     | Some u \<Rightarrow>
         bindE (getsE (\<lambda>s. with_organizations (work s) (memberships_of scan user_id (work s)))) (\<lambda>r.
         bindE (liftE r) (\<lambda>ms. returnE (Some (u, ms))))))"

lemma preserves_account_queries [preserve_intros]:
  "preserves I (get_by_email email)" "preserves I (get_by_slug slug)" "preserves I (get_membership org u)"
  "preserves I (get_user_with_memberships scan u)"
  unfolding get_by_email_def get_by_slug_def get_membership_def get_user_with_memberships_def
  by (intro preserve_intros)+

section \<open>The role hierarchy\<close>

text \<open>\<open>RequireRole.ROLE_HIERARCHY\<close>.\<close>

fun role_hierarchy :: "org_role \<Rightarrow> nat" where
  "role_hierarchy VIEWER = 1"
| "role_hierarchy MEMBER = 2"
| "role_hierarchy MANAGER = 3"
| "role_hierarchy ADMIN = 4"
| "role_hierarchy OWNER = 5"

lemma role_hierarchy_inject: "role_hierarchy r = role_hierarchy r' \<longleftrightarrow> r = r'"
  by (cases r; cases r') simp_all

text \<open>The hierarchy is a linear order on the roles, so that \<open>min_role \<le> role\<close> reads as the code's check.\<close>

instantiation org_role :: linorder
begin

definition less_eq_org_role :: "org_role \<Rightarrow> org_role \<Rightarrow> bool" where
  "less_eq_org_role r r' \<longleftrightarrow> role_hierarchy r \<le> role_hierarchy r'"

definition less_org_role :: "org_role \<Rightarrow> org_role \<Rightarrow> bool" where
  "less_org_role r r' \<longleftrightarrow> role_hierarchy r < role_hierarchy r'"

instance
  by standard (auto simp: less_eq_org_role_def less_org_role_def role_hierarchy_inject)

end

section \<open>Dependencies\<close>

record tenant_context =
  ctx_user :: user
  ctx_organization_id :: uuid
  ctx_role :: org_role

definition credentials_exception :: exn where
  "credentials_exception =
     HTTPException 401 ''Could not validate authentication credentials'' [(''WWW-Authenticate'', ''Bearer'')]"

definition inactive_exception :: exn where
  "inactive_exception = HTTPException 401 ''User account is inactive or not found'' []"

text \<open>The \<open>try\<close> block: the caller's id, from a token that decodes and is an access token.\<close>

definition access_subject :: "claims option \<Rightarrow> exn + uuid" where
  "access_subject decoded =
     (case decoded of
        None \<Rightarrow> Inl credentials_exception
      | Some payload \<Rightarrow>
          if map_of payload ''type'' \<noteq> Some (CStr ''access'') then Inl credentials_exception
          else (case claim_at payload ''sub'' of
                  Inl e \<Rightarrow> Inl credentials_exception
                | Inr c \<Rightarrow> (case uuid_of_claim c of
                    Inl e \<Rightarrow> Inl (if e = PyValueError \<or> e = PyKeyError then credentials_exception else e)
                  | Inr u \<Rightarrow> Inr u)))"

definition get_current_user :: "jwt_api \<Rightarrow> pystr \<Rightarrow> ('r, 'z, user) app" where
  "get_current_user J token =
     bindE (decode_jwt_token J token) (\<lambda>decoded.
     bindE (liftE (access_subject decoded)) (\<lambda>user_id.
     bindE (base_get_by_id User user_id) (\<lambda>found.
     bindE (some_or_raise found inactive_exception) (\<lambda>user.
     bindE (raise_if (\<not> u_is_active user) inactive_exception) (\<lambda>_.
     returnE user)))))"

definition require_role :: "org_role \<Rightarrow> user \<Rightarrow> uuid \<Rightarrow> ('z, tenant_context) tx" where
  "require_role min_role current_user x_organization_id =
     bindE (get_membership x_organization_id (u_id current_user)) (\<lambda>found.
     bindE (some_or_raise found (HTTPException 403 ''You are not a member of the requested organization.'' [])) (\<lambda>membership.
     bindE (raise_if (role_hierarchy (m_role membership) < role_hierarchy min_role)
              (HTTPException 403 (''Insufficient permissions. Requires '' @ [CHR 0x27] @ org_role_value min_role @
                 [CHR 0x27] @ '' role or higher.'') [])) (\<lambda>_.
     returnE \<lparr>ctx_user = current_user, ctx_organization_id = x_organization_id, ctx_role = m_role membership\<rparr>)))"

text \<open>The dependency chain of an endpoint: the caller, then its role in the organization it names.\<close>

definition authorize :: "jwt_api \<Rightarrow> org_role \<Rightarrow> pystr \<Rightarrow> uuid \<Rightarrow> ('r, 'z, tenant_context) app" where
  "authorize J min_role token x_organization_id =
     bindE (get_current_user J token) (\<lambda>u. require_role min_role u x_organization_id)"

lemma preserves_get_current_user [preserve_intros]: "session_frame I \<Longrightarrow> preserves I (get_current_user J t)"
  unfolding get_current_user_def by (intro preserve_intros)

lemma preserves_require_role [preserve_intros]: "preserves I (require_role r u org)"
  unfolding require_role_def by (intro preserve_intros)

lemma preserves_authorize [preserve_intros]: "session_frame I \<Longrightarrow> preserves I (authorize J r t org)"
  unfolding authorize_def by (intro preserve_intros)

section \<open>What the lookups answer\<close>

definition user_with_email :: "pystr \<Rightarrow> database \<Rightarrow> user option" where
  "user_with_email email d = find (\<lambda>u. u_email u = email) (tbl_users d)"

lemma user_emails_distinct:
  assumes "db_wf d" and "u \<in> set (tbl_users d)" and "v \<in> set (tbl_users d)" and "u_email u = u_email v"
  shows "u = v"
proof -
  have "violation User d v = None" using users_tbl.wf_table [OF assms(1)] assms(3) by (simp add: table_ok_def)
  then have "u_id u = u_id v" using assms(2,4) by (auto simp: violation_def User_def split: if_splits)
  then show ?thesis
    using distinct_key_unique [OF users_tbl.pk_distinct [OF assms(1)], of u v] assms(2,3) by simp
qed

lemma get_by_email_eq:
  assumes "db_wf (work s)"
  shows "get_by_email email s = (Inr (user_with_email (normal_email email) (work s)), s)"
proof -
  let ?F = "filter (\<lambda>u. u_email u = normal_email email) (tbl_users (work s))"
  have "distinct ?F" using users_tbl.pk_distinct [OF assms] by (simp add: distinct_map)
  then have "length ?F \<le> 1"
    by (rule distinct_all_equal_length) (auto intro: user_emails_distinct [OF assms])
  then have "scalar_one_or_none ?F = Inr (user_with_email (normal_email email) (work s))"
    unfolding user_with_email_def by (rule scalar_one_filter)
  then show ?thesis by (simp add: get_by_email_def select_where_def exec_simps)
qed

definition membership :: "uuid \<Rightarrow> uuid \<Rightarrow> database \<Rightarrow> organization_member option" where
  "membership org u d = find (\<lambda>m. m_organization_id m = org \<and> m_user_id m = u) (tbl_organization_members d)"

lemma memberships_distinct:
  assumes "db_wf d" and "m \<in> set (tbl_organization_members d)" and "n \<in> set (tbl_organization_members d)"
    and "m_organization_id m = m_organization_id n" and "m_user_id m = m_user_id n"
  shows "m = n"
proof -
  have "violation OrganizationMember d n = None"
    using organization_members_tbl.wf_table [OF assms(1)] assms(3) by (simp add: table_ok_def)
  then have "m_id m = m_id n"
    using assms(2,4,5) by (auto simp: violation_def OrganizationMember_def split: if_splits)
  then show ?thesis
    using distinct_key_unique [OF organization_members_tbl.pk_distinct [OF assms(1)], of m n] assms(2,3) by simp
qed

lemma get_membership_eq:
  assumes "db_wf (work s)"
  shows "get_membership org u s = (Inr (membership org u (work s)), s)"
proof -
  let ?F = "filter (\<lambda>m. m_organization_id m = org \<and> m_user_id m = u) (tbl_organization_members (work s))"
  have "distinct ?F" using organization_members_tbl.pk_distinct [OF assms] by (simp add: distinct_map)
  then have "length ?F \<le> 1"
    by (rule distinct_all_equal_length) (auto intro: memberships_distinct [OF assms])
  then have "scalar_one_or_none ?F = Inr (membership org u (work s))"
    unfolding membership_def by (rule scalar_one_filter)
  then show ?thesis by (simp add: get_membership_def select_where_def exec_simps)
qed

lemma membership_Some:
  "membership org u d = Some m \<Longrightarrow>
     m \<in> set (tbl_organization_members d) \<and> m_organization_id m = org \<and> m_user_id m = u"
  by (auto simp: membership_def find_Some_iff)

lemma membership_iff:
  assumes "db_wf d"
  shows "membership org u d = Some m \<longleftrightarrow>
    m \<in> set (tbl_organization_members d) \<and> m_organization_id m = org \<and> m_user_id m = u"
proof
  assume m: "m \<in> set (tbl_organization_members d) \<and> m_organization_id m = org \<and> m_user_id m = u"
  then have "membership org u d \<noteq> None" by (auto simp: membership_def find_None_iff)
  then obtain m' where m': "membership org u d = Some m'" by blast
  have "m' = m"
    by (rule memberships_distinct [OF assms]) (use membership_Some [OF m'] m in simp_all)
  with m' show "membership org u d = Some m" by simp
qed (rule membership_Some)

lemma require_role_ok:
  assumes "db_wf (work s)"
  shows "require_role min_role u org s = (Inr ctx, s') \<longleftrightarrow>
    s' = s \<and> (\<exists>m. membership org (u_id u) (work s) = Some m \<and> min_role \<le> m_role m \<and>
      ctx = \<lparr>ctx_user = u, ctx_organization_id = org, ctx_role = m_role m\<rparr>)"
  by (auto simp: require_role_def get_membership_eq [OF assms] exec_simps less_eq_org_role_def
      split: option.splits)

end
