(* ===== verification/AuthService.thy ===== *)
theory AuthService
  imports Accounts
begin

text \<open>
  \<open>AuthService\<close> (\<open>app/services/auth.py\<close>): registration of a user with its workspace, login,
  refresh token rotation, logout and the profile.
\<close>

section \<open>Slugs\<close>

text \<open>\<open>\\w\<close> on ASCII text, and the runs \<open>re.sub(r"[\\s_-]+", "-", text)\<close> replaces.\<close>

definition word_char :: "char \<Rightarrow> bool" where
  "word_char c \<longleftrightarrow> (of_char c :: nat) \<in> {48..57} \<union> {65..90} \<union> {97..122} \<or> c = CHR ''_''"

definition slug_sep :: "char \<Rightarrow> bool" where
  "slug_sep c \<longleftrightarrow> py_isspace c \<or> c = CHR ''_'' \<or> c = CHR ''-''"

fun sub_runs :: "bool \<Rightarrow> pystr \<Rightarrow> pystr" where
  "sub_runs in_run [] = []"
| "sub_runs in_run (c # cs) =
     (if slug_sep c then (if in_run then sub_runs True cs else CHR ''-'' # sub_runs True cs)
      else c # sub_runs False cs)"

definition slugify :: "pystr \<Rightarrow> pystr" where
  "slugify txt =
     (let t = py_strip (py_lower txt);
          t = filter (\<lambda>c. word_char c \<or> py_isspace c \<or> c = CHR ''-'') t
      in sub_runs False t)"

section \<open>Tokens of a user\<close>

record token_response =
  tr_access_token :: pystr
  tr_refresh_token :: pystr
  tr_token_type :: pystr
  tr_expires_in :: int

abbreviation ACCESS_TOKEN_EXPIRE_MINUTES :: int where "ACCESS_TOKEN_EXPIRE_MINUTES \<equiv> 15"
abbreviation REFRESH_TOKEN_EXPIRE_DAYS :: int where "REFRESH_TOKEN_EXPIRE_DAYS \<equiv> 7"

definition minutes :: "int \<Rightarrow> int" where "minutes n = n * 60 * usec_per_sec"
definition days :: "int \<Rightarrow> int" where "days n = n * 24 * 60 * 60 * usec_per_sec"

definition generate_token_pair :: "jwt_api \<Rightarrow> uuid \<Rightarrow> ('r, 'z, token_response) app" where
  "generate_token_pair J user_id =
     bindE (create_jwt_token J (uuid_str user_id) ''access'' (minutes ACCESS_TOKEN_EXPIRE_MINUTES) None) (\<lambda>(access_token, _, _).
     bindE (create_jwt_token J (uuid_str user_id) ''refresh'' (days REFRESH_TOKEN_EXPIRE_DAYS) None) (\<lambda>(refresh_token, _, _).
     returnE \<lparr>tr_access_token = access_token, tr_refresh_token = refresh_token,
              tr_token_type = ''bearer'', tr_expires_in = ACCESS_TOKEN_EXPIRE_MINUTES * 60\<rparr>))"

section \<open>Registration and login\<close>

record user_register_request =
  ur_email :: pystr
  ur_password :: pystr
  ur_full_name :: pystr
  ur_organization_name :: "pystr option"

text \<open>The field bounds of \<open>UserRegisterRequest\<close>; the syntax of an address is checked by Pydantic.\<close>

definition valid_register :: "user_register_request \<Rightarrow> bool" where
  "valid_register p \<longleftrightarrow> 8 \<le> length (ur_password p) \<and> length (ur_password p) \<le> 128 \<and>
     2 \<le> length (ur_full_name p) \<and> length (ur_full_name p) \<le> 100 \<and>
     (case ur_organization_name p of None \<Rightarrow> True | Some n \<Rightarrow> 2 \<le> length n \<and> length n \<le> 100)"

definition workspace_name :: "user_register_request \<Rightarrow> pystr" where
  "workspace_name p =
     (case ur_organization_name p of
        Some n \<Rightarrow> if n \<noteq> [] then n else py_strip (ur_full_name p) @ [CHR 0x27] @ ''s Workspace''
      | None \<Rightarrow> py_strip (ur_full_name p) @ [CHR 0x27] @ ''s Workspace'')"

definition register ::
  "hasher \<Rightarrow> jwt_api \<Rightarrow> 128 word \<Rightarrow> user_register_request \<Rightarrow> ('r, 'z, user \<times> token_response) app" where
  "register H J salt payload =
     transaction
       (bindE (get_by_email (ur_email payload)) (\<lambda>existing_user.
        bindE (raise_if (existing_user \<noteq> None)
                 (EntityConflictException (''User with email '' @ [CHR 0x27] @ ur_email payload @ [CHR 0x27] @
                    '' already exists.''))) (\<lambda>_.
        bindE fresh_stamp (\<lambda>st.
        bindE (base_create User
          \<lparr>u_id = st_id st, u_email = normal_email (ur_email payload),
           u_hashed_password = hash_password H salt (ur_password payload),
           u_full_name = py_strip (ur_full_name payload), u_avatar_url = None,
           u_is_active = True, u_is_verified = False,
           u_created_at = st_created_at st, u_updated_at = st_updated_at st\<rparr>) (\<lambda>user.
        bindE uuid4 (\<lambda>suffix.
        let org_name = workspace_name payload;
            unique_slug = slugify org_name @ ''-'' @ take 6 (uuid_hex suffix) in
        bindE fresh_stamp (\<lambda>st.
        bindE (base_create Organization
          \<lparr>o_id = st_id st, o_name = org_name, o_slug = unique_slug, o_logo_url = None,
           o_is_active = True, o_created_at = st_created_at st, o_updated_at = st_updated_at st\<rparr>) (\<lambda>org.
        bindE fresh_stamp (\<lambda>st.
        bindE (base_create OrganizationMember
          \<lparr>m_id = st_id st, m_organization_id = o_id org, m_user_id = u_id user, m_role = OWNER,
           m_created_at = st_created_at st, m_updated_at = st_updated_at st\<rparr>) (\<lambda>_.
        bindE (generate_token_pair J (u_id user)) (\<lambda>token_pair.
        returnE (user, token_pair))))))))))))"

definition invalid_credentials :: exn where
  "invalid_credentials =
     AppException ''Invalid email or password credentials.'' 401 ''Authentication Failed''
       ''https://api.saas.platform/errors/invalid-credentials''"

definition authenticate :: "hasher \<Rightarrow> jwt_api \<Rightarrow> pystr \<Rightarrow> pystr \<Rightarrow> ('r, 'z, user \<times> token_response) app" where
  "authenticate H J email password =
     bindE (get_by_email email) (\<lambda>found.
     bindE (some_or_raise found invalid_credentials) (\<lambda>user.
     bindE (raise_if (\<not> verify_password H password (u_hashed_password user)) invalid_credentials) (\<lambda>_.
     bindE (raise_if (\<not> u_is_active user)
              (ForbiddenOperationException ''This user account has been deactivated.'')) (\<lambda>_.
     bindE (generate_token_pair J (u_id user)) (\<lambda>token_pair.
     returnE (user, token_pair))))))"

section \<open>Rotation, logout, profile\<close>

definition refresh_invalid :: exn where
  "refresh_invalid = AppException ''Invalid or expired refresh token.'' 401 ''Invalid Token'' ''about:blank''"

definition refresh_wrong_type :: exn where
  "refresh_wrong_type = AppException ''Supplied token is not a refresh token.'' 401 ''Invalid Token Type'' ''about:blank''"

definition refresh_revoked :: exn where
  "refresh_revoked = AppException ''Refresh token has been revoked.'' 401 ''Revoked Token'' ''about:blank''"

definition refresh_inactive :: exn where
  "refresh_inactive = app_exception ''User account is inactive or not found.'' 401"

definition refresh_tokens :: "'r redis_api \<Rightarrow> jwt_api \<Rightarrow> pystr \<Rightarrow> ('r, 'z, token_response) app" where
  "refresh_tokens R J refresh_token =
     bindE (decode_jwt_token J refresh_token) (\<lambda>decoded.
     bindE (some_or_raise decoded refresh_invalid) (\<lambda>payload.
     bindE (raise_if (map_of payload ''type'' \<noteq> Some (CStr ''refresh'')) refresh_wrong_type) (\<lambda>_.
     bindE (liftE (claim_at payload ''jti'')) (\<lambda>jti.
     bindE (is_token_revoked R (claim_text jti)) (\<lambda>revoked.
     bindE (raise_if revoked refresh_revoked) (\<lambda>_.
     bindE (liftE (claim_at payload ''sub'')) (\<lambda>sub.
     bindE (liftE (uuid_of_claim sub)) (\<lambda>user_id.
     bindE (base_get_by_id User user_id) (\<lambda>found.
     bindE (some_or_raise found refresh_inactive) (\<lambda>user.
     bindE (raise_if (\<not> u_is_active user) refresh_inactive) (\<lambda>_.
     bindE (liftE (claim_at payload ''exp'')) (\<lambda>e.
     bindE (liftE (fromtimestamp e)) (\<lambda>exp_timestamp.
     bindE (revoke_token R (claim_text jti) exp_timestamp) (\<lambda>_.
     generate_token_pair J (u_id user)))))))))))))))"

text \<open>\<open>logout\<close>: every exception of the block is dropped, with the effects before it kept.\<close>

definition logout :: "'r redis_api \<Rightarrow> jwt_api \<Rightarrow> pystr \<Rightarrow> ('r, 'z, unit) app" where
  "logout R J refresh_token =
     catchE
       (bindE (decode_jwt_token J refresh_token) (\<lambda>decoded.
        case decoded of
          None \<Rightarrow> returnE ()
        | Some payload \<Rightarrow>
            if map_of payload ''type'' = Some (CStr ''refresh'')
            then bindE (liftE (claim_at payload ''exp'')) (\<lambda>e.
                 bindE (liftE (fromtimestamp e)) (\<lambda>exp_timestamp.
                 bindE (liftE (claim_at payload ''jti'')) (\<lambda>jti.
                 revoke_token R (claim_text jti) exp_timestamp)))
            else returnE ()))
       (\<lambda>_. returnE ())"

record org_membership_out =
  om_organization_id :: uuid
  om_organization_name :: pystr
  om_organization_slug :: pystr
  om_role :: org_role

record user_response =
  us_id :: uuid
  us_email :: pystr
  us_full_name :: pystr
  us_avatar_url :: "pystr option"
  us_is_active :: bool
  us_is_verified :: bool
  us_created_at :: instant
  us_memberships :: "org_membership_out list"

definition get_user_profile ::
  "(organization_member list \<Rightarrow> organization_member list) \<Rightarrow> uuid \<Rightarrow> ('z, user_response) tx" where
  "get_user_profile scan user_id =
     bindE (get_user_with_memberships scan user_id) (\<lambda>found.
     bindE (some_or_raise found (app_exception ''User not found'' 404)) (\<lambda>(user, memberships).
     returnE \<lparr>us_id = u_id user, us_email = u_email user, us_full_name = u_full_name user,
       us_avatar_url = u_avatar_url user, us_is_active = u_is_active user,
       us_is_verified = u_is_verified user, us_created_at = u_created_at user,
       us_memberships = map (\<lambda>(m, g). \<lparr>om_organization_id = m_organization_id m,
         om_organization_name = o_name g, om_organization_slug = o_slug g, om_role = m_role m\<rparr>) memberships\<rparr>))"

lemma preserves_generate_token_pair [preserve_intros]:
  "session_frame I \<Longrightarrow> preserves I (generate_token_pair J u)"
  unfolding generate_token_pair_def by (auto intro!: preserve_intros)

lemma register_wf [preserve_intros]: "preserves session_wf (register H J salt p)"
  unfolding register_def Let_def
  by (intro preserve_intros users_tbl.base_create_wf organizations_tbl.base_create_wf
      organization_members_tbl.base_create_wf) simp_all

lemma preserves_authenticate [preserve_intros]: "session_frame I \<Longrightarrow> preserves I (authenticate H J e p)"
  unfolding authenticate_def by (auto intro!: preserve_intros)

lemma preserves_refresh_tokens [preserve_intros]: "session_frame I \<Longrightarrow> preserves I (refresh_tokens R J t)"
  unfolding refresh_tokens_def by (intro preserve_intros)

lemma preserves_logout [preserve_intros]: "session_frame I \<Longrightarrow> preserves I (logout R J t)"
  unfolding logout_def by (intro preserve_intros)

lemma preserves_get_user_profile [preserve_intros]: "preserves I (get_user_profile scan u)"
  unfolding get_user_profile_def by (auto intro!: preserve_intros)

section \<open>Slugs are URL-friendly\<close>

definition slug_char :: "char \<Rightarrow> bool" where
  "slug_char c \<longleftrightarrow> (of_char c :: nat) \<in> {48..57} \<union> {97..122} \<or> c = CHR ''-''"

fun no_double_dash :: "pystr \<Rightarrow> bool" where
  "no_double_dash (a # b # cs) = (\<not> (a = CHR ''-'' \<and> b = CHR ''-'') \<and> no_double_dash (b # cs))"
| "no_double_dash _ = True"

lemma sub_runs_chars:
  "c \<in> set (sub_runs b t) \<Longrightarrow> c = CHR ''-'' \<or> (c \<in> set t \<and> \<not> slug_sep c)"
  by (induction b t rule: sub_runs.induct) (auto split: if_splits)

lemma sub_runs_head: "sub_runs True t \<noteq> [] \<Longrightarrow> hd (sub_runs True t) \<noteq> CHR ''-''"
proof (induction t)
  case (Cons c t)
  then show ?case by (cases "slug_sep c") (auto simp: slug_sep_def)
qed simp

lemma no_double_dash_Cons:
  "no_double_dash (a # cs) \<longleftrightarrow> no_double_dash cs \<and> (cs \<noteq> [] \<longrightarrow> a = CHR ''-'' \<longrightarrow> hd cs \<noteq> CHR ''-'')"
  by (cases cs) auto

lemma sub_runs_no_double_dash: "no_double_dash (sub_runs b t)"
proof (induction b t rule: sub_runs.induct)
  case (2 b c cs)
  then show ?case
    using sub_runs_head [of cs] by (auto simp: no_double_dash_Cons slug_sep_def)
qed simp

lemma length_sub_runs: "length (sub_runs b t) \<le> length t"
  by (induction b t rule: sub_runs.induct) auto

lemma length_slugify: "length (slugify t) \<le> length t"
  using length_sub_runs length_filter_le length_py_strip [of "py_lower t"]
  unfolding slugify_def Let_def by (metis (no_types, lifting) le_trans length_py_lower)

lemma lower_char_values: "\<not> (65 \<le> (of_char (lower_char c) :: nat) \<and> (of_char (lower_char c) :: nat) \<le> 90)"
  by (simp add: of_char_lower Let_def)

lemma set_py_lower: "c \<in> set (py_strip (py_lower t)) \<Longrightarrow> \<exists>c'. c = lower_char c'"
  using set_strip_while [of py_isspace "py_lower t"] by (auto simp: py_strip_def py_lower_def)

lemma slugify_chars: "c \<in> set (slugify t) \<Longrightarrow> slug_char c"
  unfolding slugify_def Let_def
  apply (drule sub_runs_chars)
  using lower_char_values set_py_lower
  by (fastforce simp: slug_char_def word_char_def slug_sep_def)

lemma slugify_no_double_dash: "no_double_dash (slugify t)"
  unfolding slugify_def Let_def by (rule sub_runs_no_double_dash)

section \<open>Issued tokens\<close>

text \<open>The claims \<open>create_jwt_token\<close> signs, and the token of a user with its id and times.\<close>

definition token_claims :: "pystr \<Rightarrow> uuid \<Rightarrow> pystr \<Rightarrow> instant \<Rightarrow> instant \<Rightarrow> claims" where
  "token_claims subject jti token_type e i =
     [(''sub'', CStr subject), (''jti'', CStr (uuid_str jti)), (''type'', CStr token_type),
      (''exp'', CTime e), (''iat'', CTime i)]"

definition issued :: "jwt_api \<Rightarrow> uuid \<Rightarrow> uuid \<Rightarrow> pystr \<Rightarrow> instant \<Rightarrow> instant \<Rightarrow> pystr" where
  "issued J user_id jti token_type e i = jwt_encode J (token_claims (uuid_str user_id) jti token_type e i)"

text \<open>The second of expiry, in microseconds.\<close>

definition expiry_second :: "instant \<Rightarrow> instant" where
  "expiry_second e = (e div usec_per_sec) * usec_per_sec"

lemma create_jwt_token_eq:
  "create_jwt_token J (uuid_str u) ty d None s =
     (Inr (issued J u (uuid_source s 0) ty (clock s 0 + d) (clock s 1), uuid_str (uuid_source s 0), clock s 0 + d),
      s\<lparr>uuid_source := \<lambda>n. uuid_source s (Suc n), clock := \<lambda>n. clock s (Suc (Suc n))\<rparr>)"
  by (simp add: create_jwt_token_def app_defs exec_simps issued_def token_claims_def Let_def)

lemma decode_issued:
  "jwt_laws J \<Longrightarrow> i \<le> now \<Longrightarrow> jwt_decode J now (issued J u jti ty e i) =
     (if now < expiry_second e
      then Some [(''sub'', CStr (uuid_str u)), (''jti'', CStr (uuid_str jti)), (''type'', CStr ty),
                 (''exp'', CInt (e div usec_per_sec)), (''iat'', CInt (i div usec_per_sec))]
      else None)"
  by (simp add: jwt_laws_def issued_def token_claims_def expiry_second_def Let_def)

text \<open>The two tokens of a pair, and the state after the four clock readings and two UUIDs.\<close>

definition token_pair :: "jwt_api \<Rightarrow> uuid \<Rightarrow> (nat \<Rightarrow> instant) \<Rightarrow> (nat \<Rightarrow> uuid) \<Rightarrow> token_response" where
  "token_pair J u c us =
     \<lparr>tr_access_token = issued J u (us 0) ''access'' (c 0 + minutes 15) (c 1),
      tr_refresh_token = issued J u (us 1) ''refresh'' (c 2 + days 7) (c 3),
      tr_token_type = ''bearer'', tr_expires_in = 15 * 60\<rparr>"

lemma generate_token_pair_eq:
  "generate_token_pair J u s =
     (Inr (token_pair J u (clock s) (uuid_source s)),
      s\<lparr>uuid_source := \<lambda>n. uuid_source s (n + 2), clock := \<lambda>n. clock s (n + 4)\<rparr>)"
  by (simp add: generate_token_pair_def bindE_def create_jwt_token_eq token_pair_def returnE_def
      eval_nat_numeral)

text \<open>Who a token names as the caller, when it was issued by this service.\<close>

lemma get_current_user_issued:
  assumes "jwt_laws J" and "i \<le> clock s 0"
  shows "get_current_user J (issued J u jti ty e i) s =
    (if clock s 0 < expiry_second e \<and> ty = ''access''
     then (case find (\<lambda>r. u_id r = u) (tbl_users (work s)) of
             Some r \<Rightarrow> if u_is_active r then Inr r else Inl inactive_exception
           | None \<Rightarrow> Inl inactive_exception)
     else Inl credentials_exception,
     s\<lparr>clock := \<lambda>n. clock s (Suc n)\<rparr>)"
  using assms
  by (auto simp: get_current_user_def decode_jwt_token_def app_defs exec_simps access_subject_def
      decode_issued claim_at_def uuid_text_roundtrip base_get_by_id_def split: option.splits)

section \<open>Refresh token rotation on every branch\<close>

definition advance :: "nat \<Rightarrow> ('r, 'z) app_state_scheme \<Rightarrow> ('r, 'z) app_state_scheme" where
  "advance n s = s\<lparr>clock := \<lambda>k. clock s (k + n)\<rparr>"

text \<open>The expiries \<open>datetime.fromtimestamp\<close> can represent.\<close>

definition representable :: "instant \<Rightarrow> bool" where
  "representable e \<longleftrightarrow> - 62135596800 \<le> e div usec_per_sec \<and> e div usec_per_sec < 253402300800"

text \<open>The store after \<open>revoke_token\<close>: an entry for the whole seconds that are left, if any.\<close>

definition revoked_store :: "'r redis_api \<Rightarrow> uuid \<Rightarrow> instant \<Rightarrow> instant \<Rightarrow> 'r \<Rightarrow> 'r" where
  "revoked_store R jti now e r =
     (let ttl = int_seconds (expiry_second e - now) in
      if 0 < ttl then set_ex R now (blacklist_key (uuid_str jti)) ''revoked'' ttl r else r)"

lemma refresh_tokens_issued:
  assumes "jwt_laws J" and "i \<le> clock s 0" and "representable e"
  shows "refresh_tokens R J (issued J u jti ty e i) s =
    (if expiry_second e \<le> clock s 0 then (Inl refresh_invalid, advance 1 s)
     else if ty \<noteq> ''refresh'' then (Inl refresh_wrong_type, advance 1 s)
     else if redis_down s then (Inl RedisError, advance 2 s)
     else if revoked_at R (uuid_str jti) (clock s 1) (redis s) then (Inl refresh_revoked, advance 2 s)
     else (case find (\<lambda>r. u_id r = u) (tbl_users (work s)) of
             None \<Rightarrow> (Inl refresh_inactive, advance 2 s)
           | Some r \<Rightarrow>
               if \<not> u_is_active r then (Inl refresh_inactive, advance 2 s)
               else generate_token_pair J u
                 ((advance 3 s)\<lparr>redis := revoked_store R jti (clock s 2) e (redis s)\<rparr>)))"
proof -
  have "find (\<lambda>r. u_id r = u) xs = Some r \<Longrightarrow> u_id r = u" for xs r
    by (auto simp: find_Some_iff)
  then show ?thesis
    using assms
    by (auto simp: refresh_tokens_def decode_jwt_token_def datetime_now_def exec_simps decode_issued claim_at_def
        uuid_text_roundtrip base_get_by_id_def is_token_revoked_eq revoke_token_eq advance_def representable_def
        revoked_store_def expiry_second_def eval_nat_numeral Let_def split: option.splits)
qed

text \<open>After a rotation the old token is on the list until less than a second before it expires.\<close>

lemma revoked_store_until:
  assumes laws: "redis_string_laws R" and "now \<le> t" and "now \<le> expiry_second e - usec_per_sec"
  shows "revoked_at R (uuid_str jti) t (revoked_store R jti now e r) \<longleftrightarrow>
    t < now + int_seconds (expiry_second e - now) * usec_per_sec"
  using assms int_seconds_pos [of "expiry_second e - now"]
  by (simp add: revoked_store_def Let_def revoked_after_set)

section \<open>Registration on every branch\<close>

lemma fresh_stamp_eq:
  "fresh_stamp s =
     (Inr \<lparr>st_id = uuid_source s 0, st_created_at = clock s 0, st_updated_at = clock s 1\<rparr>,
      s\<lparr>uuid_source := \<lambda>n. uuid_source s (Suc n), clock := \<lambda>n. clock s (Suc (Suc n))\<rparr>)"
  by (simp add: app_defs exec_simps fresh_stamp_def)

text \<open>The three rows of a registration, from the values the environment gives.\<close>

definition registered_user :: "hasher \<Rightarrow> 128 word \<Rightarrow> user_register_request \<Rightarrow> (nat \<Rightarrow> uuid) \<Rightarrow> (nat \<Rightarrow> instant) \<Rightarrow> user" where
  "registered_user H salt p us c =
     \<lparr>u_id = us 0, u_email = normal_email (ur_email p), u_hashed_password = hash_password H salt (ur_password p),
      u_full_name = py_strip (ur_full_name p), u_avatar_url = None, u_is_active = True, u_is_verified = False,
      u_created_at = c 0, u_updated_at = c 1\<rparr>"

definition workspace_slug :: "user_register_request \<Rightarrow> uuid \<Rightarrow> pystr" where
  "workspace_slug p suffix = slugify (workspace_name p) @ ''-'' @ take 6 (uuid_hex suffix)"

definition registered_organization :: "user_register_request \<Rightarrow> (nat \<Rightarrow> uuid) \<Rightarrow> (nat \<Rightarrow> instant) \<Rightarrow> organization" where
  "registered_organization p us c =
     \<lparr>o_id = us 2, o_name = workspace_name p, o_slug = workspace_slug p (us 1), o_logo_url = None,
      o_is_active = True, o_created_at = c 2, o_updated_at = c 3\<rparr>"

definition registered_owner :: "(nat \<Rightarrow> uuid) \<Rightarrow> (nat \<Rightarrow> instant) \<Rightarrow> organization_member" where
  "registered_owner us c =
     \<lparr>m_id = us 3, m_organization_id = us 2, m_user_id = us 0, m_role = OWNER, m_created_at = c 4, m_updated_at = c 5\<rparr>"

definition registered_database ::
  "hasher \<Rightarrow> 128 word \<Rightarrow> user_register_request \<Rightarrow> (nat \<Rightarrow> uuid) \<Rightarrow> (nat \<Rightarrow> instant) \<Rightarrow> database \<Rightarrow> database" where
  "registered_database H salt p us c d =
     d\<lparr>tbl_users := tbl_users d @ [registered_user H salt p us c],
       tbl_organizations := tbl_organizations d @ [registered_organization p us c],
       tbl_organization_members := tbl_organization_members d @ [registered_owner us c]\<rparr>"

text \<open>What the columns can hold, and the keys the UUID source must not repeat.\<close>

definition register_fits :: "hasher \<Rightarrow> 128 word \<Rightarrow> user_register_request \<Rightarrow> bool" where
  "register_fits H salt p \<longleftrightarrow> length (normal_email (ur_email p)) \<le> 255 \<and>
     length (hash_password H salt (ur_password p)) \<le> 255 \<and>
     length (workspace_name p) \<le> 100 \<and> length (slugify (workspace_name p)) \<le> 93"

definition register_fresh :: "user_register_request \<Rightarrow> (nat \<Rightarrow> uuid) \<Rightarrow> database \<Rightarrow> bool" where
  "register_fresh p us d \<longleftrightarrow> us 0 \<notin> user_ids d \<and> us 2 \<notin> organization_ids d \<and>
     us 3 \<notin> m_id ` set (tbl_organization_members d) \<and>
     workspace_slug p (us 1) \<notin> o_slug ` set (tbl_organizations d)"

lemma insert_row_ok:
  "pk_of M r \<notin> set (map (pk_of M) (rows_of M (work s))) \<Longrightarrow>
   violation M (with_rows M (rows_of M (work s) @ [r]) (work s)) r = None \<Longrightarrow>
   insert_row M r s = (Inr r, s\<lparr>work := with_rows M (rows_of M (work s) @ [r]) (work s)\<rparr>)"
  by (simp add: insert_row_def Let_def)

lemma insert_registered_user:
  assumes "user_with_email (normal_email (ur_email p)) (work s) = None" and "us 0 \<notin> user_ids (work s)"
    and "valid_register p" and "register_fits H salt p"
  shows "base_create User (registered_user H salt p us c) s =
    (Inr (registered_user H salt p us c),
     s\<lparr>work := (work s)\<lparr>tbl_users := tbl_users (work s) @ [registered_user H salt p us c]\<rparr>\<rparr>)"
  unfolding base_create_def
  using assms length_py_strip [of "ur_full_name p"]
  by (subst insert_row_ok)
    (auto simp: violation_def User_def registered_user_def register_fits_def valid_register_def fits_defs
      user_with_email_def find_None_iff user_ids_def)

lemma insert_registered_organization:
  assumes "us 2 \<notin> organization_ids (work s)" and "register_fits H salt p"
    and "workspace_slug p (us 1) \<notin> o_slug ` set (tbl_organizations (work s))"
  shows "base_create Organization (registered_organization p us c) s =
    (Inr (registered_organization p us c),
     s\<lparr>work := (work s)\<lparr>tbl_organizations := tbl_organizations (work s) @ [registered_organization p us c]\<rparr>\<rparr>)"
  unfolding base_create_def
  using assms
  by (subst insert_row_ok)
    (auto simp: violation_def Organization_def registered_organization_def register_fits_def workspace_slug_def
      fits_defs organization_ids_def image_iff)

text \<open>A new user has no membership yet, since members refer to existing users.\<close>

lemma insert_registered_owner:
  assumes "us 3 \<notin> m_id ` set (tbl_organization_members (work s))"
    and "us 0 \<in> user_ids (work s)" and "us 2 \<in> organization_ids (work s)"
    and "us 0 \<notin> m_user_id ` set (tbl_organization_members (work s))"
  shows "base_create OrganizationMember (registered_owner us c) s =
    (Inr (registered_owner us c),
     s\<lparr>work := (work s)\<lparr>tbl_organization_members := tbl_organization_members (work s) @ [registered_owner us c]\<rparr>\<rparr>)"
  unfolding base_create_def
  using assms
  by (subst insert_row_ok)
    (auto simp: violation_def OrganizationMember_def registered_owner_def key_set_defs image_iff)

lemma member_users_exist:
  "db_wf d \<Longrightarrow> m \<in> set (tbl_organization_members d) \<Longrightarrow> m_user_id m \<in> user_ids d"
  using organization_members_tbl.wf_table
  by (fastforce simp: table_ok_def violation_def OrganizationMember_def split: if_splits)

lemma register_ok:
  assumes wf: "db_wf (work s)" and "commit_fault s = None" and valid: "valid_register p"
    and new: "user_with_email (normal_email (ur_email p)) (work s) = None"
    and fits: "register_fits H salt p" and fresh: "register_fresh p (uuid_source s) (work s)"
  shows "\<exists>s'. register H J salt p s =
      (Inr (registered_user H salt p (uuid_source s) (clock s),
            token_pair J (uuid_source s 0) (\<lambda>n. clock s (n + 6)) (\<lambda>n. uuid_source s (n + 4))), s') \<and>
    committed s' = registered_database H salt p (uuid_source s) (clock s) (work s)"
proof -
  let ?us = "uuid_source s" and ?c = "clock s"
  have no_member: "?us 0 \<notin> m_user_id ` set (tbl_organization_members (work s))"
    using fresh member_users_exist [OF wf] by (auto simp: register_fresh_def)
  note nums = One_nat_def numeral_2_eq_2 numeral_3_eq_3
  note user = insert_registered_user [OF _ _ valid fits, where us = ?us and c = ?c,
      unfolded registered_user_def nums]
  note org = insert_registered_organization [OF _ fits, where us = ?us and c = ?c,
      unfolded registered_organization_def workspace_slug_def nums append.simps]
  have later: "(\<lambda>n. ?c (n + 6)) = (\<lambda>n. ?c (Suc (Suc (Suc (Suc (Suc (Suc n)))))))"
    "(\<lambda>n. ?us (n + 4)) = (\<lambda>n. ?us (Suc (Suc (Suc (Suc n)))))"
    "?c 4 = ?c (Suc (Suc (Suc (Suc 0))))" "?c 5 = ?c (Suc (Suc (Suc (Suc (Suc 0)))))"
    by (simp_all add: eval_nat_numeral)
  note owner = insert_registered_owner [where us = ?us and c = ?c, unfolded registered_owner_def nums later]
  show ?thesis
    using assms no_member
    by (simp add: register_def transaction_cases bindE_def raise_if_def returnE_def get_by_email_eq
        fresh_stamp_eq uuid4_def Let_def user org owner register_fresh_def generate_token_pair_eq
        registered_database_def registered_user_def registered_organization_def registered_owner_def
        workspace_slug_def user_ids_def organization_ids_def later nums)
qed

end
