(* ===== verification/RateLimit.thy ===== *)
theory RateLimit
  imports AppState
begin

text \<open>
  \<open>RateLimiter\<close> (\<open>app/core/rate_limit.py\<close>): a sliding window over a Redis sorted set, one entry
  per request. Times are microseconds; \<open>fmt\<close> is how Python prints a reading, of which the code
  only needs that different readings print differently. The pipeline runs at the Redis server at
  the time the request read.
\<close>

record rate_limiter =
  rl_limit :: int
  rl_window :: int

text \<open>The default key: the client's address and the path.\<close>

definition rate_key :: "pystr option \<Rightarrow> pystr \<Rightarrow> pystr" where
  "rate_key client_host path =
     ''rate_limit:'' @ (case client_host of Some h \<Rightarrow> h | None \<Rightarrow> ''unknown'') @ '':'' @ path"

definition rate_member :: "(int \<Rightarrow> pystr) \<Rightarrow> instant \<Rightarrow> int \<Rightarrow> pystr" where
  "rate_member fmt current_ts perf = fmt current_ts @ '':'' @ fmt perf"

text \<open>The pipeline: drop what left the window, add this request, count, renew the expiry.\<close>

definition rate_pipeline ::
  "'r redis_api \<Rightarrow> rate_limiter \<Rightarrow> pystr \<Rightarrow> pystr \<Rightarrow> instant \<Rightarrow> 'r \<Rightarrow> int \<times> 'r" where
  "rate_pipeline R L identifier member current_ts r =
     (let window_start = current_ts - rl_window L * usec_per_sec;
          r = zremrangebyscore R current_ts identifier 0 window_start r;
          r = zadd R current_ts identifier member current_ts r;
          request_count = zcard R current_ts identifier r
      in (request_count, expire R current_ts identifier (rl_window L) r))"

definition rate_limit_exceeded :: "rate_limiter \<Rightarrow> int \<Rightarrow> exn" where
  "rate_limit_exceeded L reset_time =
     HTTPException 429
       (''Rate limit exceeded. Maximum '' @ py_str_int (rl_limit L) @ '' requests per '' @
        py_str_int (rl_window L) @ '' seconds allowed.'')
       [(''Retry-After'', py_str_int (rl_window L)), (''X-RateLimit-Limit'', py_str_int (rl_limit L)),
        (''X-RateLimit-Remaining'', ''0''), (''X-RateLimit-Reset'', py_str_int reset_time)]"

text \<open>\<open>__call__\<close>: the headers it sets on the answer, or the 429 error.\<close>

definition rate_limit ::
  "'r redis_api \<Rightarrow> (int \<Rightarrow> pystr) \<Rightarrow> rate_limiter \<Rightarrow> (pystr option \<Rightarrow> pystr \<Rightarrow> pystr) option \<Rightarrow>
     pystr option \<Rightarrow> pystr \<Rightarrow> int \<Rightarrow> ('r, 'z, (pystr \<times> pystr) list) app" where
  "rate_limit R fmt L key_generator client_host path perf =
     bindE datetime_now (\<lambda>current_ts.
     let identifier = (case key_generator of Some g \<Rightarrow> g client_host path | None \<Rightarrow> rate_key client_host path);
         pipe = rate_pipeline R L identifier (rate_member fmt current_ts perf) current_ts in
     bindE (redis_ask (\<lambda>r. fst (pipe r))) (\<lambda>request_count.
     bindE (redis_do (\<lambda>r. snd (pipe r))) (\<lambda>_.
     let remaining = max 0 (rl_limit L - request_count);
         reset_time = (current_ts + rl_window L * usec_per_sec) div usec_per_sec in
     bindE (raise_if (rl_limit L < request_count) (rate_limit_exceeded L reset_time)) (\<lambda>_.
     returnE [(''X-RateLimit-Limit'', py_str_int (rl_limit L)),
              (''X-RateLimit-Remaining'', py_str_int remaining),
              (''X-RateLimit-Reset'', py_str_int reset_time)]))))"

lemma preserves_rate_limit [preserve_intros]:
  "session_frame I \<Longrightarrow> preserves I (rate_limit R fmt L g h p perf)"
  unfolding rate_limit_def Let_def by (intro preserve_intros)

section \<open>A sequence of requests of one client\<close>

text \<open>
  Requests as the pairs of their two clock readings, in order; each is served by
  \<open>rate_limit\<close>, and the answer is whether it was let through.
\<close>

type_synonym hit = "instant \<times> int"

fun serve ::
  "'r redis_api \<Rightarrow> (int \<Rightarrow> pystr) \<Rightarrow> rate_limiter \<Rightarrow> pystr option \<Rightarrow> pystr \<Rightarrow> hit list \<Rightarrow> ('r, 'z) app_state_scheme \<Rightarrow> bool list" where
  "serve R fmt L h p [] s = []"
| "serve R fmt L h p ((t, perf) # hits) s =
     (case rate_limit R fmt L None h p perf (s\<lparr>clock := \<lambda>_. t\<rparr>) of
        (Inl _, s') \<Rightarrow> False # serve R fmt L h p hits s'
      | (Inr _, s') \<Rightarrow> True # serve R fmt L h p hits s')"

text \<open>The reference: a request passes when fewer than \<open>limit\<close> requests, served or not, are in its window.\<close>

definition in_window :: "int \<Rightarrow> instant \<Rightarrow> hit \<Rightarrow> bool" where
  "in_window w t h \<longleftrightarrow> t - w * usec_per_sec < fst h"

fun window_spec :: "rate_limiter \<Rightarrow> hit list \<Rightarrow> hit list \<Rightarrow> bool list" where
  "window_spec L past [] = []"
| "window_spec L past (h # hits) =
     (int (length (filter (in_window (rl_window L) (fst h)) past)) < rl_limit L)
       # window_spec L (past @ [h]) hits"

section \<open>The limiter implements the window\<close>

text \<open>What the sorted set holds at \<open>t\<close>, once the window has moved there.\<close>

definition window_holds ::
  "'r redis_api \<Rightarrow> (int \<Rightarrow> pystr) \<Rightarrow> int \<Rightarrow> pystr \<Rightarrow> hit list \<Rightarrow> 'r \<Rightarrow> bool" where
  "window_holds R fmt w k past r \<longleftrightarrow>
     (\<forall>t. (\<forall>h \<in> set past. fst h \<le> t) \<longrightarrow> 0 \<le> t \<longrightarrow>
        set (zset_at R t k (zremrangebyscore R t k 0 (t - w * usec_per_sec) r)) =
          (\<lambda>h. (rate_member fmt (fst h) (snd h), fst h)) ` {h \<in> set past. in_window w t h})"

lemma zset_laws:
  assumes "redis_zset_laws R"
  shows "distinct (map fst (zset_at R t k r))"
    and "set (zset_at R t k (zremrangebyscore R t k lo hi r)) =
      {e \<in> set (zset_at R t k r). \<not> (lo \<le> snd e \<and> snd e \<le> hi)}"
    and "set (zset_at R t k (zadd R t k m sc r)) = insert (m, sc) {e \<in> set (zset_at R t k r). fst e \<noteq> m}"
    and "zcard R t k r = int (length (zset_at R t k r))"
    and "0 < ttl \<Longrightarrow> t \<le> now \<Longrightarrow> zset_at R now k (expire R t k ttl r) =
      (if now < t + ttl * usec_per_sec then zset_at R t k r else [])"
  using assms by (simp_all add: redis_zset_laws_def)

lemma zcard_card: "redis_zset_laws R \<Longrightarrow> zcard R t k r = int (card (set (zset_at R t k r)))"
  using zset_laws(1,4) [of R] by (simp add: distinct_map distinct_card)

text \<open>One request: the count it sees, and what the set holds for the next.\<close>

definition members_apart :: "(int \<Rightarrow> pystr) \<Rightarrow> hit list \<Rightarrow> bool" where
  "members_apart fmt hs \<longleftrightarrow> distinct (map (\<lambda>h. rate_member fmt (fst h) (snd h)) hs)"

lemma pipeline_set:
  assumes laws: "redis_zset_laws R" and holds: "window_holds R fmt w k past r"
    and order: "\<forall>h \<in> set past. fst h \<le> t" "0 \<le> t" and apart: "members_apart fmt (past @ [(t, perf)])"
    and r2: "r2 = zadd R t k (rate_member fmt t perf) t (zremrangebyscore R t k 0 (t - w * usec_per_sec) r)"
  shows "set (zset_at R t k r2) =
    (\<lambda>h. (rate_member fmt (fst h) (snd h), fst h)) ` insert (t, perf) {h \<in> set past. in_window w t h}"
proof -
  let ?f = "\<lambda>h. (rate_member fmt (fst h) (snd h), fst h)" and ?X = "{h \<in> set past. in_window w t h}"
  have trimmed: "set (zset_at R t k (zremrangebyscore R t k 0 (t - w * usec_per_sec) r)) = ?f ` ?X"
    using holds order by (simp add: window_holds_def)
  have "rate_member fmt (fst h) (snd h) \<noteq> rate_member fmt t perf" if "h \<in> set past" for h
    using apart that by (auto simp: members_apart_def image_iff)
  then have "{e \<in> ?f ` ?X. fst e \<noteq> rate_member fmt t perf} = ?f ` ?X" by auto
  then show ?thesis
    unfolding r2 zset_laws(3) [OF laws] trimmed by simp
qed

lemma pipeline_count:
  assumes laws: "redis_zset_laws R" and holds: "window_holds R fmt (rl_window L) k past r"
    and order: "\<forall>h \<in> set past. fst h \<le> t" "0 \<le> t" and apart: "members_apart fmt (past @ [(t, perf)])"
  shows "fst (rate_pipeline R L k (rate_member fmt t perf) t r) =
    int (length (filter (in_window (rl_window L) t) past)) + 1"
proof -
  let ?f = "\<lambda>h. (rate_member fmt (fst h) (snd h), fst h)"
  let ?A = "insert (t, perf) {h \<in> set past. in_window (rl_window L) t h}"
  have d: "distinct past" "(t, perf) \<notin> set past"
    using apart by (auto simp: members_apart_def distinct_map) force
  have "inj_on (\<lambda>h. rate_member fmt (fst h) (snd h)) (set (past @ [(t, perf)]))"
    using apart unfolding members_apart_def distinct_map by blast
  then have "inj_on ?f ?A"
    unfolding inj_on_def by auto
  then have "card (?f ` ?A) = card ?A" by (rule card_image)
  also have "\<dots> = length (filter (in_window (rl_window L) t) past) + 1"
    using d by (simp add: distinct_length_filter Int_def conj_commute)
  finally show ?thesis
    using pipeline_set [OF assms refl] by (simp add: rate_pipeline_def Let_def zcard_card [OF laws])
qed

lemma pipeline_holds:
  assumes laws: "redis_zset_laws R" and holds: "window_holds R fmt (rl_window L) k past r"
    and order: "\<forall>h \<in> set past. fst h \<le> t" "0 \<le> t" and times: "\<forall>h \<in> set past. 0 \<le> fst h"
    and apart: "members_apart fmt (past @ [(t, perf)])" and w: "0 < rl_window L"
  shows "window_holds R fmt (rl_window L) k (past @ [(t, perf)])
    (snd (rate_pipeline R L k (rate_member fmt t perf) t r))"
  unfolding window_holds_def
proof (intro allI impI)
  fix t'
  assume later: "\<forall>h \<in> set (past @ [(t, perf)]). fst h \<le> t'" and "0 \<le> t'"
  let ?w = "rl_window L * usec_per_sec" and ?f = "\<lambda>h. (rate_member fmt (fst h) (snd h), fst h)"
  let ?A = "insert (t, perf) {h \<in> set past. in_window (rl_window L) t h}"
  let ?B = "{h \<in> set (past @ [(t, perf)]). in_window (rl_window L) t' h}"
  define r2 where "r2 = zadd R t k (rate_member fmt t perf) t (zremrangebyscore R t k 0 (t - ?w) r)"
  define S where "S = set (zset_at R t' k (expire R t k (rl_window L) r2))"
  have le: "t \<le> t'" "\<And>h. h \<in> set past \<Longrightarrow> fst h \<le> t" using later order(1) by auto
  have S: "S = (if t' < t + ?w then ?f ` ?A else {})"
    unfolding S_def zset_laws(5) [OF laws w le(1)] pipeline_set [OF laws holds order apart r2_def, symmetric]
    by simp
  have "{e \<in> S. \<not> (0 \<le> snd e \<and> snd e \<le> t' - ?w)} = ?f ` ?B"
  proof (cases "t' < t + ?w")
    case True
    have "{e \<in> ?f ` ?A. \<not> (0 \<le> snd e \<and> snd e \<le> t' - ?w)} = ?f ` {h \<in> ?A. \<not> (0 \<le> fst h \<and> fst h \<le> t' - ?w)}"
      by (simp only: Compr_image_eq fst_conv snd_conv)
    also have "{h \<in> ?A. \<not> (0 \<le> fst h \<and> fst h \<le> t' - ?w)} = ?B"
      using times order(2) le(1) by (auto simp: in_window_def)
    finally show ?thesis using True S by simp
  next
    case False
    then have "?B = {}" using le by (fastforce simp: in_window_def)
    with False S show ?thesis by simp
  qed
  then show "set (zset_at R t' k (zremrangebyscore R t' k 0 (t' - ?w)
        (snd (rate_pipeline R L k (rate_member fmt t perf) t r)))) = ?f ` ?B"
    by (simp add: rate_pipeline_def Let_def zset_laws(2) [OF laws] r2_def S_def)
qed

lemma rate_limit_eq:
  "rate_limit R fmt L None h p perf s =
     (let t = clock s 0; pipe = rate_pipeline R L (rate_key h p) (rate_member fmt t perf) t (redis s);
          s1 = s\<lparr>clock := \<lambda>n. clock s (Suc n)\<rparr>;
          reset_time = (t + rl_window L * usec_per_sec) div usec_per_sec
      in if redis_down s then (Inl RedisError, s1)
         else if rl_limit L < fst pipe then (Inl (rate_limit_exceeded L reset_time), s1\<lparr>redis := snd pipe\<rparr>)
         else (Inr [(''X-RateLimit-Limit'', py_str_int (rl_limit L)),
                    (''X-RateLimit-Remaining'', py_str_int (max 0 (rl_limit L - fst pipe))),
                    (''X-RateLimit-Reset'', py_str_int reset_time)], s1\<lparr>redis := snd pipe\<rparr>))"
  by (simp add: rate_limit_def exec_simps app_defs Let_def)

text \<open>The service of a sequence of requests is the window specification.\<close>

lemma serve_spec:
  assumes laws: "redis_zset_laws R" and w: "0 < rl_window L"
    and "window_holds R fmt (rl_window L) (rate_key h p) past (redis s)" and "\<not> redis_down s"
    and "sorted (map fst (past @ hits))" and "\<forall>x \<in> set (past @ hits). 0 \<le> fst x"
    and "members_apart fmt (past @ hits)"
  shows "serve R fmt L h p hits s = window_spec L past hits"
  using assms(3-7)
proof (induction hits arbitrary: past s)
  case Nil
  then show ?case by simp
next
  case (Cons x hits)
  obtain t perf where x: "x = (t, perf)" by (cases x)
  let ?m = "rate_member fmt t perf" and ?k = "rate_key h p"
  have order: "\<forall>y \<in> set past. fst y \<le> t" "0 \<le> t" and times: "\<forall>y \<in> set past. 0 \<le> fst y"
    using Cons.prems(3,4) x by (auto simp: sorted_append)
  have apart: "members_apart fmt (past @ [(t, perf)])"
    using Cons.prems(5) x by (auto simp: members_apart_def)
  define pipe where "pipe = rate_pipeline R L ?k ?m t (redis s)"
  have count: "fst pipe = int (length (filter (in_window (rl_window L) t) past)) + 1"
    unfolding pipe_def by (rule pipeline_count [OF laws Cons.prems(1) order apart])
  have holds: "window_holds R fmt (rl_window L) ?k (past @ [(t, perf)]) (snd pipe)"
    unfolding pipe_def by (rule pipeline_holds [OF laws Cons.prems(1) order times apart w])
  have "serve R fmt L h p hits s' = window_spec L (past @ [x]) hits"
    if "redis s' = snd pipe" "\<not> redis_down s'" for s' :: "('a, 'b) app_state_scheme"
    by (rule Cons.IH) (use that holds Cons.prems x in simp_all)
  with count Cons.prems(2) show ?case
    unfolding x by (auto simp: rate_limit_eq Let_def pipe_def [symmetric])
qed

section \<open>The window bounds what passes\<close>

lemma window_spec_append:
  "window_spec L past (xs @ ys) = window_spec L past xs @ window_spec L (past @ xs) ys"
  by (induction xs arbitrary: past) simp_all

lemma length_window_spec [simp]: "length (window_spec L past hits) = length hits"
  by (induction hits arbitrary: past) simp_all

definition passed_in :: "int \<Rightarrow> instant \<Rightarrow> hit list \<Rightarrow> bool list \<Rightarrow> nat" where
  "passed_in w t hits ok = length (filter (\<lambda>(h, b). b \<and> in_window w t h \<and> fst h \<le> t) (zip hits ok))"

lemma passed_le:
  "length hits = length ok \<Longrightarrow>
     length (filter (\<lambda>(h, b). b \<and> P h) (zip hits ok)) \<le> length (filter P hits)"
  by (induction hits ok rule: list_induct2) auto

lemma filter_length_mono:
  "(\<And>x. x \<in> set xs \<Longrightarrow> P x \<Longrightarrow> Q x) \<Longrightarrow> length (filter P xs) \<le> length (filter Q xs)"
  by (induction xs) auto

lemma passed_in_bound:
  assumes "sorted (map fst hits)" and "0 \<le> rl_limit L"
  shows "int (passed_in (rl_window L) t hits (window_spec L [] hits)) \<le> rl_limit L"
  using assms(1)
proof (induction hits rule: rev_induct)
  case Nil
  then show ?case using assms(2) by (simp add: passed_in_def)
next
  case (snoc h hits)
  let ?n = "length (filter (in_window (rl_window L) (fst h)) hits)"
  have IH: "int (passed_in (rl_window L) t hits (window_spec L [] hits)) \<le> rl_limit L"
    using snoc by (simp add: sorted_append)
  have split: "passed_in (rl_window L) t (hits @ [h]) (window_spec L [] (hits @ [h])) =
      passed_in (rl_window L) t hits (window_spec L [] hits) +
      (if int ?n < rl_limit L \<and> in_window (rl_window L) t h \<and> fst h \<le> t then 1 else 0)"
    by (simp add: passed_in_def window_spec_append)
  show ?case
  proof (cases "int ?n < rl_limit L \<and> in_window (rl_window L) t h \<and> fst h \<le> t")
    case True
    have "passed_in (rl_window L) t hits (window_spec L [] hits) \<le>
        length (filter (\<lambda>x. in_window (rl_window L) t x \<and> fst x \<le> t) hits)"
      unfolding passed_in_def by (rule passed_le) simp
    also have "\<dots> \<le> ?n"
      using True by (intro filter_length_mono) (auto simp: in_window_def)
    finally show ?thesis using True split by simp
  next
    case False
    then show ?thesis unfolding split using IH by (simp only: if_False add_0_right)
  qed
qed

end
