(* ===== verification/AuthApi.thy ===== *)
theory AuthApi
  imports AuthService RateLimit
begin

text \<open>
  The authentication endpoints (\<open>app/api/v1/endpoints/auth.py\<close>). The limiter of a route is one
  of its decorator's dependencies, which are solved before those of the handler: it runs before
  the request has a database session. The answers carry the headers the limiter sets.
\<close>

definition login_rate_limiter :: rate_limiter where
  "login_rate_limiter = \<lparr>rl_limit = 5, rl_window = 60\<rparr>"

definition register_rate_limiter :: rate_limiter where
  "register_rate_limiter = \<lparr>rl_limit = 3, rl_window = 60\<rparr>"

text \<open>What the limiter reads of a request: the client's address and the performance counter.\<close>

record client_info =
  ci_host :: "pystr option"
  ci_perf :: int

definition register_path :: pystr where "register_path = ''/api/v1/auth/register''"
definition login_path :: pystr where "login_path = ''/api/v1/auth/login''"

definition register_handler ::
  "hasher \<Rightarrow> jwt_api \<Rightarrow> 128 word \<Rightarrow> user_register_request \<Rightarrow> ('r, 'z, token_response) app" where
  "register_handler H J salt payload = bindE (register H J salt payload) (\<lambda>(_, tokens). returnE tokens)"

definition post_register ::
  "'r redis_api \<Rightarrow> (int \<Rightarrow> pystr) \<Rightarrow> hasher \<Rightarrow> jwt_api \<Rightarrow> client_info \<Rightarrow> 128 word \<Rightarrow> user_register_request \<Rightarrow>
     ('r, 'z, (pystr \<times> pystr) list \<times> token_response) app" where
  "post_register R fmt H J c salt payload =
     bindE (rate_limit R fmt register_rate_limiter None (ci_host c) register_path (ci_perf c)) (\<lambda>headers.
     bindE (with_db_session (register_handler H J salt payload)) (\<lambda>tokens.
     returnE (headers, tokens)))"

record user_login_request =
  ul_email :: pystr
  ul_password :: pystr

definition login_handler :: "hasher \<Rightarrow> jwt_api \<Rightarrow> user_login_request \<Rightarrow> ('r, 'z, token_response) app" where
  "login_handler H J payload =
     bindE (authenticate H J (ul_email payload) (ul_password payload)) (\<lambda>(_, tokens). returnE tokens)"

definition post_login ::
  "'r redis_api \<Rightarrow> (int \<Rightarrow> pystr) \<Rightarrow> hasher \<Rightarrow> jwt_api \<Rightarrow> client_info \<Rightarrow> user_login_request \<Rightarrow>
     ('r, 'z, (pystr \<times> pystr) list \<times> token_response) app" where
  "post_login R fmt H J c payload =
     bindE (rate_limit R fmt login_rate_limiter None (ci_host c) login_path (ci_perf c)) (\<lambda>headers.
     bindE (with_db_session (login_handler H J payload)) (\<lambda>tokens.
     returnE (headers, tokens)))"

definition post_refresh :: "'r redis_api \<Rightarrow> jwt_api \<Rightarrow> pystr \<Rightarrow> ('r, 'z, token_response) app" where
  "post_refresh R J refresh_token = with_db_session (refresh_tokens R J refresh_token)"

definition post_logout :: "'r redis_api \<Rightarrow> jwt_api \<Rightarrow> pystr \<Rightarrow> ('r, 'z, unit) app" where
  "post_logout R J refresh_token = with_db_session (logout R J refresh_token)"

definition get_me ::
  "jwt_api \<Rightarrow> (organization_member list \<Rightarrow> organization_member list) \<Rightarrow> pystr \<Rightarrow> ('r, 'z, user_response) app" where
  "get_me J scan token =
     with_db_session
       (bindE (get_current_user J token) (\<lambda>current_user.
        get_user_profile scan (u_id current_user)))"

section \<open>Login attempts of one client\<close>

text \<open>
  The attempts of a client, each with its clock reading, its performance counter and what it
  sends; the answers in order. An attempt is checked when its answer is not the limiter's.
\<close>

type_synonym attempt = "hit \<times> user_login_request"

fun attempts ::
  "'r redis_api \<Rightarrow> (int \<Rightarrow> pystr) \<Rightarrow> hasher \<Rightarrow> jwt_api \<Rightarrow> pystr option \<Rightarrow> attempt list \<Rightarrow>
     ('r, 'z) app_state_scheme \<Rightarrow> (exn + (pystr \<times> pystr) list \<times> token_response) list" where
  "attempts R fmt H J h [] s = []"
| "attempts R fmt H J h (((t, perf), payload) # xs) s =
     (case post_login R fmt H J \<lparr>ci_host = h, ci_perf = perf\<rparr> payload (s\<lparr>clock := \<lambda>_. t\<rparr>) of
        (r, s') \<Rightarrow> r # attempts R fmt H J h xs s')"

definition throttled :: "exn + 'a \<Rightarrow> bool" where
  "throttled r \<longleftrightarrow> (case r of Inl e \<Rightarrow> exn_status e = 429 | Inr _ \<Rightarrow> False)"

section \<open>What the endpoints answer\<close>

text \<open>The branches of a login; no branch writes to the database or to Redis.\<close>

lemma authenticate_eq:
  assumes "db_wf (work s)"
  shows "authenticate H J email password s =
    (case user_with_email (normal_email email) (work s) of
       None \<Rightarrow> (Inl invalid_credentials, s)
     | Some u \<Rightarrow>
         if \<not> verify_password H password (u_hashed_password u) then (Inl invalid_credentials, s)
         else if \<not> u_is_active u then (Inl (ForbiddenOperationException ''This user account has been deactivated.''), s)
         else (Inr (u, token_pair J (u_id u) (clock s) (uuid_source s)),
               s\<lparr>uuid_source := \<lambda>n. uuid_source s (n + 2), clock := \<lambda>n. clock s (n + 4)\<rparr>))"
  using assms
  by (simp add: authenticate_def bindE_def get_by_email_eq some_or_raise_def raise_if_def generate_token_pair_eq
      returnE_def split: option.splits)

lemma login_session:
  assumes "db_wf (committed s)"
  shows "\<exists>r s'. with_db_session (login_handler H J p) s = (r, s') \<and> \<not> throttled r \<and>
    redis s' = redis s \<and> redis_down s' = redis_down s \<and> committed s' = committed s"
  using assms
  by (auto simp: with_db_session_def login_handler_def bindE_def authenticate_eq rollback_def returnE_def throttled_def
      invalid_credentials_def exn_status_def ForbiddenOperationException_def split: option.splits)

lemma serve_same:
  "redis s = redis s' \<Longrightarrow> redis_down s = redis_down s' \<Longrightarrow> serve R fmt L h p hits s = serve R fmt L h p hits s'"
proof (induction hits arbitrary: s s')
  case (Cons x hits)
  obtain t perf where x: "x = (t, perf)" by (cases x)
  show ?case unfolding x using Cons.prems
    by (auto simp: rate_limit_eq Let_def intro!: Cons.IH)
qed simp

text \<open>A client's attempts are let through to the password check exactly as the limiter serves them.\<close>

lemma attempts_serve:
  assumes "db_wf (committed s)" and "\<not> redis_down s"
  shows "map (\<lambda>r. \<not> throttled r) (attempts R fmt H J h xs s) = serve R fmt login_rate_limiter h login_path (map fst xs) s"
  using assms
proof (induction xs arbitrary: s)
  case (Cons x xs)
  obtain t perf payload where x: "x = ((t, perf), payload)" by (cases x) auto
  let ?s = "s\<lparr>clock := \<lambda>_. t\<rparr>"
  show ?case
  proof (cases "rate_limit R fmt login_rate_limiter None h login_path perf ?s")
    case (Pair r s1)
    then have s1: "committed s1 = committed s" "\<not> redis_down s1"
      using Cons.prems(2) by (auto simp: rate_limit_eq Let_def split: if_splits)
    show ?thesis
    proof (cases r)
      case (Inl e)
      with Pair Cons.prems(2) have "exn_status e = 429"
        by (auto simp: rate_limit_eq Let_def rate_limit_exceeded_def split: if_splits)
      then show ?thesis using Cons.IH [of s1] Cons.prems(1) s1 Pair Inl
        by (simp add: x post_login_def bindE_def throttled_def)
    next
      case (Inr headers)
      obtain r' s2 where s2: "with_db_session (login_handler H J payload) s1 = (r', s2)" "\<not> throttled r'"
        "redis s2 = redis s1" "redis_down s2 = redis_down s1" "committed s2 = committed s1"
        using login_session [of s1 H J payload] s1(1) Cons.prems(1) by metis
      then have "post_login R fmt H J \<lparr>ci_host = h, ci_perf = perf\<rparr> payload ?s =
        (case r' of Inl e \<Rightarrow> Inl e | Inr tokens \<Rightarrow> Inr (headers, tokens), s2)"
        using Pair Inr by (simp add: post_login_def bindE_def returnE_def split: sum.splits)
      moreover have "serve R fmt login_rate_limiter h login_path (map fst xs) s2 =
        serve R fmt login_rate_limiter h login_path (map fst xs) s1"
        by (rule serve_same) (use s2 in simp_all)
      moreover have "\<not> throttled (case r' of Inl e \<Rightarrow> Inl e | Inr tokens \<Rightarrow> Inr (headers, tokens))"
        using s2(2) by (auto simp: throttled_def split: sum.splits)
      ultimately show ?thesis
        using Cons.IH [of s2] Cons.prems(1) s1 s2 Pair Inr by (simp add: x)
    qed
  qed
qed simp

section \<open>Logout\<close>

lemma logout_issued:
  assumes "jwt_laws J" and "i \<le> clock s 0" and "representable e"
  shows "\<exists>n \<le> 2. logout R J (issued J u jti ty e i) s =
    (Inr (), (advance n s)\<lparr>redis :=
       if expiry_second e \<le> clock s 0 \<or> ty \<noteq> ''refresh'' \<or> redis_down s then redis s
       else revoked_store R jti (clock s 1) e (redis s)\<rparr>)"
proof (cases "expiry_second e \<le> clock s 0 \<or> ty \<noteq> ''refresh''")
  case True
  then show ?thesis
    using assms
    by (intro exI [of _ 1] conjI)
      (auto simp: logout_def catchE_def decode_jwt_token_def datetime_now_def exec_simps decode_issued advance_def)
next
  case False
  then show ?thesis
    using assms
    by (intro exI [of _ 2] conjI)
      (auto simp: logout_def catchE_def decode_jwt_token_def datetime_now_def exec_simps decode_issued claim_at_def
        revoke_token_eq advance_def representable_def revoked_store_def expiry_second_def eval_nat_numeral Let_def)
qed

text \<open>The session of the request changes nothing besides the database view it ends with.\<close>

lemma post_logout_issued:
  assumes "jwt_laws J" and "i \<le> clock s 0" and "representable e"
  shows "\<exists>n \<le> 2. post_logout R J (issued J u jti ty e i) s =
    (Inr (), (advance n s)\<lparr>work := committed s, redis :=
       if expiry_second e \<le> clock s 0 \<or> ty \<noteq> ''refresh'' \<or> redis_down s then redis s
       else revoked_store R jti (clock s 1) e (redis s)\<rparr>)"
proof -
  let ?w = "s\<lparr>work := committed s\<rparr>"
  from logout_issued [of J i ?w e R u jti ty] assms
  obtain n where "n \<le> 2" "logout R J (issued J u jti ty e i) ?w =
    (Inr (), (advance n ?w)\<lparr>redis :=
       if expiry_second e \<le> clock ?w 0 \<or> ty \<noteq> ''refresh'' \<or> redis_down ?w then redis ?w
       else revoked_store R jti (clock ?w 1) e (redis ?w)\<rparr>)"
    by (elim exE conjE meta_impE) simp_all
  then show ?thesis
    by (intro exI [of _ n]) (simp add: post_logout_def with_db_session_def rollback_def advance_def)
qed

text \<open>The endpoints keep the database well-formed.\<close>

lemma auth_endpoints_wf:
  "preserves session_wf (post_register R fmt H J c salt p)"
  "preserves session_wf (post_login R fmt H J c q)"
  "preserves session_wf (post_refresh R J tok)"
  "preserves session_wf (post_logout R J tok)"
  "preserves session_wf (get_me J scan tok)"
  unfolding post_register_def post_login_def post_refresh_def post_logout_def get_me_def register_handler_def
    login_handler_def authenticate_def refresh_tokens_def logout_def get_user_profile_def
  by (auto intro!: preserve_intros split: option.splits)

end
