(* ===== verification/Keyset.thy ===== *)
theory Keyset
  imports Repository
begin

text \<open>
  Keyset (cursor) pagination as an interface: a page operation that returns the rows
  after a key, in feed order, and whether more follow. What a client that follows the
  cursor of each page's last row sees is proved once, for any such page operation; the
  task feed and the comment feed are the providers.
\<close>

text \<open>The page both feeds compute: \<open>limit + 1\<close> rows are fetched to see whether more follow.\<close>

definition keyset_page :: "'r list \<Rightarrow> nat \<Rightarrow> 'r list \<times> bool" where
  "keyset_page candidates limit =
     (let records = take (limit + 1) candidates in (take limit records, length records > limit))"

text \<open>
  A client: ask for a page after the key \<open>c\<close>, and go on from its last row while the
  service says that there is more. \<open>fuel\<close> bounds the number of pages asked for.
\<close>

fun feed_walk :: "('k option \<Rightarrow> 'r list \<times> bool) \<Rightarrow> ('r \<Rightarrow> 'k) \<Rightarrow> nat \<Rightarrow> 'k option \<Rightarrow> 'r list" where
  "feed_walk page key 0 c = []"
| "feed_walk page key (Suc fuel) c =
     (case page c of (items, has_more) \<Rightarrow>
        items @ (if has_more \<and> items \<noteq> [] then feed_walk page key fuel (Some (key (last items))) else []))"

lemma keyset_page_eq: "keyset_page xs n = (take n xs, n < length xs)"
  by (auto simp: keyset_page_def Let_def min_def)

locale keyset_feed =
  fixes key :: "'r \<Rightarrow> 'k"
    and before :: "'k \<Rightarrow> 'k \<Rightarrow> bool"
    and feed :: "'r list \<Rightarrow> 'r list"
    and page :: "'r list \<Rightarrow> nat \<Rightarrow> 'k option \<Rightarrow> 'r list \<times> bool"
  assumes before_irrefl: "\<not> before k k"
    and before_trans: "before i j \<Longrightarrow> before j k \<Longrightarrow> before i k"
    and feed_sorted: "distinct (map key rows) \<Longrightarrow> sorted_wrt (\<lambda>x y. before (key x) (key y)) (feed rows)"
    and page_first: "page rows n None = keyset_page (feed rows) n"
    and page_after: "distinct (map key rows) \<Longrightarrow>
      page rows n (Some k) = keyset_page (filter (\<lambda>r. before k (key r)) (feed rows)) n"
begin

text \<open>In a sorted feed, the rows after the last row of a prefix are exactly the rest.\<close>

lemma rest_after_prefix:
  assumes "sorted_wrt (\<lambda>x y. before (key x) (key y)) (xs @ ys)" and "xs \<noteq> []"
  shows "filter (\<lambda>r. before (key (last xs)) (key r)) (xs @ ys) = ys"
proof -
  have s: "sorted_wrt (\<lambda>x y. before (key x) (key y)) xs"
    "\<And>x y. x \<in> set xs \<Longrightarrow> y \<in> set ys \<Longrightarrow> before (key x) (key y)"
    using assms(1) by (auto simp: sorted_wrt_append)
  have "\<not> before (key (last xs)) (key x)" if "x \<in> set xs" for x
  proof -
    from that obtain us vs where xs: "xs = us @ x # vs" by (auto simp: in_set_conv_decomp)
    show ?thesis
    proof (cases "vs = []")
      case True
      with xs before_irrefl show ?thesis by simp
    next
      case False
      with s(1) xs have "before (key x) (key (last xs))"
        by (auto simp: sorted_wrt_append)
      with before_irrefl before_trans show ?thesis by blast
    qed
  qed
  moreover have "filter (\<lambda>r. before (key (last xs)) (key r)) ys = ys"
    using s(2) assms(2) by (auto simp: filter_id_conv)
  ultimately show ?thesis by (simp add: filter_empty_conv)
qed

lemma walk_from:
  assumes "distinct (map key rows)" and "0 < n"
    and "feed rows = xs @ ys" and "length ys < fuel"
    and "page rows n c = keyset_page ys n"
  shows "feed_walk (page rows n) key fuel c = ys"
  using assms(3-5)
proof (induction fuel arbitrary: c xs ys)
  case 0
  then show ?case by simp
next
  case (Suc fuel)
  show ?case
  proof (cases "n < length ys")
    case False
    with Suc.prems show ?thesis by (simp add: keyset_page_eq)
  next
    case True
    define zs where "zs = take n ys"
    have zs: "zs \<noteq> []" "ys = zs @ drop n ys"
      using True assms(2) by (auto simp: zs_def)
    have split: "feed rows = (xs @ zs) @ drop n ys"
      using Suc.prems(1) zs(2) by (metis append.assoc)
    have last: "last (xs @ zs) = last zs" using zs(1) by simp
    have "filter (\<lambda>r. before (key (last zs)) (key r)) (feed rows) = drop n ys"
      using rest_after_prefix [of "xs @ zs" "drop n ys"] feed_sorted [OF assms(1)] zs(1) last
      by (simp only: split [symmetric]) simp
    then have next_page: "page rows n (Some (key (last zs))) = keyset_page (drop n ys) n"
      by (simp add: page_after [OF assms(1)])
    have "length (drop n ys) < fuel" using True assms(2) Suc.prems(2) by simp
    then have "feed_walk (page rows n) key fuel (Some (key (last zs))) = drop n ys"
      by (rule Suc.IH [OF split _ next_page])
    with True Suc.prems(3) zs(1) show ?thesis
      by (simp add: keyset_page_eq zs_def)
  qed
qed

text \<open>Following the cursors from the start yields the whole feed, each row once, in order.\<close>

lemma walk_complete:
  assumes "distinct (map key rows)" and "0 < n" and "length (feed rows) < fuel"
  shows "feed_walk (page rows n) key fuel None = feed rows"
  by (rule walk_from [where xs = "[]"]) (use assms page_first in auto)

end

section \<open>Opaque cursors\<close>

text \<open>
  What a service makes of a cursor parameter and of a page's last row, and a client that hands
  each page's \<open>next_cursor\<close> back until there is none.
\<close>

definition cursor_key :: "(pystr \<Rightarrow> 'k option) \<Rightarrow> pystr option \<Rightarrow> 'k option" where
  "cursor_key dec cursor = (case cursor of None \<Rightarrow> None | Some c \<Rightarrow> if c = [] then None else dec c)"

definition next_cursor :: "('k \<Rightarrow> pystr) \<Rightarrow> ('r \<Rightarrow> 'k) \<Rightarrow> 'r list \<Rightarrow> bool \<Rightarrow> pystr option" where
  "next_cursor enc key items has_more = (if has_more \<and> items \<noteq> [] then Some (enc (key (last items))) else None)"

fun token_walk :: "(pystr option \<Rightarrow> 'r list \<times> pystr option) \<Rightarrow> nat \<Rightarrow> pystr option \<Rightarrow> 'r list" where
  "token_walk page 0 c = []"
| "token_walk page (Suc fuel) c =
     (case page c of (items, nxt) \<Rightarrow> items @ (if nxt = None then [] else token_walk page fuel nxt))"

locale cursor_codec =
  fixes enc :: "'k \<Rightarrow> pystr"
    and dec :: "pystr \<Rightarrow> 'k option"
    and good :: "'k \<Rightarrow> bool"
  assumes dec_enc: "good k \<Longrightarrow> dec (enc k) = Some k"
    and enc_not_empty: "enc k \<noteq> []"
begin

lemma cursor_key_enc: "good k \<Longrightarrow> cursor_key dec (Some (enc k)) = Some k"
  by (simp add: cursor_key_def dec_enc enc_not_empty)

lemma token_walk_keys:
  assumes "\<And>c. \<forall>r \<in> set (fst (page c)). good (key r)"
  shows "token_walk (\<lambda>c. case page (cursor_key dec c) of (items, has_more) \<Rightarrow> (items, next_cursor enc key items has_more)) fuel c =
    feed_walk page key fuel (cursor_key dec c)"
proof (induction fuel arbitrary: c)
  case (Suc fuel)
  obtain items has_more where p: "page (cursor_key dec c) = (items, has_more)" by force
  show ?case
  proof (cases "has_more \<and> items \<noteq> []")
    case True
    then have "good (key (last items))" using assms [of "cursor_key dec c"] p by simp
    with True Suc.IH [of "Some (enc (key (last items)))"] show ?thesis
      by (simp add: p next_cursor_def cursor_key_enc)
  qed (auto simp: p next_cursor_def)
qed simp

end

locale cursor_feed = keyset_feed key before feed page + cursor_codec enc dec good
  for key :: "'r \<Rightarrow> 'k" and before feed page and enc :: "'k \<Rightarrow> pystr" and dec good
begin

lemma page_items: "distinct (map key rows) \<Longrightarrow> set (fst (page rows n c)) \<subseteq> set (feed rows)"
  by (cases c) (auto simp: page_first page_after keyset_page_eq dest: in_set_takeD)

text \<open>Handing the cursors back from the start yields the whole feed, each row once, in order.\<close>

lemma token_walk_complete:
  assumes "distinct (map key rows)" and "0 < n" and "length (feed rows) < fuel"
    and "\<forall>r \<in> set (feed rows). good (key r)"
  shows "token_walk (\<lambda>c. case page rows n (cursor_key dec c) of (items, has_more) \<Rightarrow>
    (items, next_cursor enc key items has_more)) fuel None = feed rows"
proof -
  have "\<forall>r \<in> set (fst (page rows n c)). good (key r)" for c
    using page_items [OF assms(1), of n c] assms(4) by blast
  from token_walk_keys [of "page rows n" key, OF this, of fuel None] show ?thesis
    using walk_complete [OF assms(1-3)] by (simp add: cursor_key_def)
qed

end

end
