(* ===== verification/TaskRepo.thy ===== *)
theory TaskRepo
  imports Keyset
begin

text \<open>
  \<open>TaskRepository\<close> (\<open>app/repositories/task.py\<close>): the filter criteria, with the SQL
  ILIKE search, the offset listing with its total and the keyset listing.
\<close>

section \<open>SQL pattern matching\<close>

text \<open>
  \<open>LIKE\<close>: \<open>%\<close> matches any text, \<open>_\<close> one character, and a backslash takes the next
  character literally. \<open>ILIKE\<close> compares without case.
\<close>

function like :: "pystr \<Rightarrow> pystr \<Rightarrow> bool" where
  "like [] t = (t = [])"
| "like (p # ps) t =
     (if p = CHR ''%'' then like ps t \<or> (case t of [] \<Rightarrow> False | _ # ts \<Rightarrow> like (p # ps) ts)
      else if p = CHR ''_'' then (case t of [] \<Rightarrow> False | _ # ts \<Rightarrow> like ps ts)
      else if p = CHR 0x5C then
        (case ps of [] \<Rightarrow> False
         | q # qs \<Rightarrow> (case t of [] \<Rightarrow> False | c # ts \<Rightarrow> c = q \<and> like qs ts))
      else (case t of [] \<Rightarrow> False | c # ts \<Rightarrow> c = p \<and> like ps ts))"
  by pat_completeness auto
termination
  by (relation "measure (\<lambda>(ps, t). length ps + length t)") auto

declare like.simps [simp del]

text \<open>Patterns with one wildcard in front, and plain text followed by one.\<close>

lemma like_any_prefix: "like (CHR ''%'' # ps) t \<longleftrightarrow> (\<exists>a b. t = a @ b \<and> like ps b)"
proof (induction t)
  case Nil
  then show ?case by (simp add: like.simps(2))
next
  case (Cons c t)
  have "like (CHR ''%'' # ps) (c # t) \<longleftrightarrow> like ps (c # t) \<or> like (CHR ''%'' # ps) t"
    by (simp add: like.simps(2))
  also have "\<dots> \<longleftrightarrow> (\<exists>a b. c # t = a @ b \<and> like ps b)"
    unfolding Cons by (auto simp: Cons_eq_append_conv)
  finally show ?case .
qed

definition plain_text :: "pystr \<Rightarrow> bool" where
  "plain_text s \<longleftrightarrow> (\<forall>c \<in> set s. c \<noteq> CHR ''%'' \<and> c \<noteq> CHR ''_'' \<and> c \<noteq> CHR 0x5C)"

lemma like_plain_any: "plain_text p \<Longrightarrow> like (p @ ''%'') t \<longleftrightarrow> (\<exists>b. t = p @ b)"
proof (induction p arbitrary: t)
  case Nil
  then show ?case by (simp add: like_any_prefix like.simps(1))
next
  case (Cons c p)
  then show ?case
    by (cases t) (auto simp: like.simps(2) plain_text_def)
qed

lemma like_contains: "plain_text p \<Longrightarrow> like (''%'' @ p @ ''%'') t \<longleftrightarrow> (\<exists>a b. t = a @ p @ b)"
  by (auto simp: like_any_prefix like_plain_any)

definition ilike :: "pystr \<Rightarrow> pystr \<Rightarrow> bool" where
  "ilike text pattern = like (py_lower pattern) (py_lower text)"

lemma lower_char_special:
  assumes "c \<in> {CHR ''%'', CHR ''_'', CHR 0x5C}"
  shows "lower_char d = c \<longleftrightarrow> d = c"
proof -
  have "(of_char c :: nat) \<in> {37, 95, 92}"
    using assms by (auto simp: of_char_def)
  then have "(of_char (lower_char d) :: nat) = of_char c \<longleftrightarrow> (of_char d :: nat) = of_char c"
    by (auto simp: of_char_lower Let_def)
  then show ?thesis by (simp only: of_char_eq_iff)
qed

lemma plain_text_lower: "plain_text s \<Longrightarrow> plain_text (py_lower s)"
  using lower_char_special by (auto simp: plain_text_def py_lower_def)

lemma plain_text_strip: "plain_text s \<Longrightarrow> plain_text (py_strip s)"
  using set_strip_while [of py_isspace s] by (auto simp: plain_text_def py_strip_def)

lemma py_lower_any: "py_lower (''%'' @ s @ ''%'') = ''%'' @ py_lower s @ ''%''"
  using lower_char_special [of "CHR ''%''" "CHR ''%''"] by (simp add: py_lower_def)

text \<open>A search for plain text finds the texts that contain it, without regard to case.\<close>

lemma ilike_contains:
  "plain_text s \<Longrightarrow> ilike t (''%'' @ s @ ''%'') \<longleftrightarrow> (\<exists>a b. py_lower t = a @ py_lower s @ b)"
  unfolding ilike_def py_lower_any by (rule like_contains [OF plain_text_lower])

definition ilike_opt :: "pystr option \<Rightarrow> pystr \<Rightarrow> bool" where
  "ilike_opt v pattern = (case v of None \<Rightarrow> False | Some text \<Rightarrow> ilike text pattern)"

section \<open>Filters\<close>

record task_filter_params =
  tf_project_id :: "uuid option"
  tf_status :: "task_status option"
  tf_priority :: "task_priority option"
  tf_assignee_id :: "uuid option"
  tf_reporter_id :: "uuid option"
  tf_search :: "pystr option"
  tf_sort_by :: pystr

text \<open>An optional equality filter; every given value is truthy.\<close>

definition eq_filter :: "'a option \<Rightarrow> 'a \<Rightarrow> bool" where
  "eq_filter v x \<longleftrightarrow> (case v of None \<Rightarrow> True | Some y \<Rightarrow> x = y)"

text \<open>The search clause: absent for a missing or empty search text.\<close>

definition search_filter :: "pystr option \<Rightarrow> task \<Rightarrow> bool" where
  "search_filter v t \<longleftrightarrow>
     (case v of
        None \<Rightarrow> True
      | Some s \<Rightarrow> if s = [] then True
          else (let search_pattern = ''%'' @ py_strip s @ ''%'' in
                ilike (t_title t) search_pattern \<or> ilike_opt (t_description t) search_pattern))"

definition build_filter_criteria :: "uuid \<Rightarrow> task_filter_params \<Rightarrow> task \<Rightarrow> bool" where
  "build_filter_criteria org filters t \<longleftrightarrow>
     t_organization_id t = org \<and> \<not> t_is_deleted t \<and>
     eq_filter (tf_project_id filters) (t_project_id t) \<and>
     eq_filter (tf_status filters) (t_status t) \<and>
     eq_filter (tf_priority filters) (t_priority t) \<and>
     (case tf_assignee_id filters of None \<Rightarrow> True | Some a \<Rightarrow> t_assignee_id t = Some a) \<and>
     eq_filter (tf_reporter_id filters) (t_reporter_id t) \<and>
     search_filter (tf_search filters) t"

section \<open>Listings\<close>

abbreviation task_key :: "task \<Rightarrow> instant \<times> uuid" where
  "task_key t \<equiv> (t_created_at t, t_id t)"

text \<open>\<open>ORDER BY created_at ASC, id ASC\<close> and its descending twin.\<close>

definition order_tasks_asc :: "task list \<Rightarrow> task list" where
  "order_tasks_asc ts = sort_key task_key ts"

definition order_tasks_desc :: "task list \<Rightarrow> task list" where
  "order_tasks_desc ts = rev (sort_key task_key ts)"

definition list_tasks_offset ::
  "(task list \<Rightarrow> task list) \<Rightarrow> uuid \<Rightarrow> task_filter_params \<Rightarrow> nat \<Rightarrow> nat \<Rightarrow> ('z, task list \<times> nat) tx" where
  "list_tasks_offset scan org filters offset limit =
     bindE (select_where Task (build_filter_criteria org filters)) (\<lambda>counted.
     bindE (getsE (\<lambda>s. filter (build_filter_criteria org filters) (scan (tbl_tasks (work s))))) (\<lambda>rows.
     let ordered = (if tf_sort_by filters = ''created_at:asc'' then order_tasks_asc rows else order_tasks_desc rows)
     in returnE (take limit (drop offset ordered), length counted)))"

text \<open>
  The keyset condition: strictly before the cursor in the descending order of
  \<open>(created_at, id)\<close>.
\<close>

definition task_cursor_filter :: "(instant \<times> uuid) option \<Rightarrow> task \<Rightarrow> bool" where
  "task_cursor_filter cursor_data t \<longleftrightarrow>
     (case cursor_data of
        None \<Rightarrow> True
      | Some (cursor_ts, cursor_id) \<Rightarrow>
          t_created_at t < cursor_ts \<or> (t_created_at t = cursor_ts \<and> t_id t < cursor_id))"

definition tasks_cursor_page ::
  "(task list \<Rightarrow> task list) \<Rightarrow> uuid \<Rightarrow> task_filter_params \<Rightarrow> task list \<Rightarrow> nat \<Rightarrow> (instant \<times> uuid) option \<Rightarrow>
     task list \<times> bool" where
  "tasks_cursor_page scan org filters rows limit cursor_data =
     keyset_page (order_tasks_desc
       (filter (\<lambda>t. build_filter_criteria org filters t \<and> task_cursor_filter cursor_data t) (scan rows))) limit"

definition list_tasks_cursor ::
  "(task list \<Rightarrow> task list) \<Rightarrow> uuid \<Rightarrow> task_filter_params \<Rightarrow> (instant \<times> uuid) option \<Rightarrow> nat \<Rightarrow>
     ('z, task list \<times> bool) tx" where
  "list_tasks_cursor scan org filters cursor_data limit =
     getsE (\<lambda>s. tasks_cursor_page scan org filters (tbl_tasks (work s)) limit cursor_data)"

lemma preserves_list_tasks_offset [preserve_intros]:
  "preserves I (list_tasks_offset scan org filters off lim)"
  unfolding list_tasks_offset_def Let_def by (intro preserve_intros)

lemma preserves_list_tasks_cursor [preserve_intros]:
  "preserves I (list_tasks_cursor scan org filters cur lim)"
  unfolding list_tasks_cursor_def by (rule preserves_getsE)

section \<open>Independence of the database's row order\<close>

lemma sort_key_scan:
  assumes "row_order scan" and "distinct (map f rows)"
  shows "sort_key f (filter P (scan rows)) = sort_key f (filter P rows)"
proof (rule sort_key_inj_key_eq)
  have "mset (scan rows) = mset rows" using assms(1) by (simp add: row_order_def)
  then show "mset (filter P (scan rows)) = mset (sort_key f (filter P rows))"
    by (metis mset_filter mset_sort)
  show "inj_on f (set (filter P (scan rows)))"
    using assms row_order_set [OF assms(1)] by (auto simp: distinct_map inj_on_def)
  show "sorted (map f (sort_key f (filter P rows)))" by simp
qed

lemma distinct_task_key: "distinct (map t_id ts) \<Longrightarrow> distinct (map task_key ts)"
  by (auto simp: distinct_map inj_on_def)

lemma order_desc_scan:
  "row_order scan \<Longrightarrow> distinct (map task_key rows) \<Longrightarrow>
     order_tasks_desc (filter P (scan rows)) = order_tasks_desc (filter P rows)"
  by (simp add: order_tasks_desc_def sort_key_scan)

lemma order_asc_scan:
  "row_order scan \<Longrightarrow> distinct (map task_key rows) \<Longrightarrow>
     order_tasks_asc (filter P (scan rows)) = order_tasks_asc (filter P rows)"
  by (simp add: order_tasks_asc_def sort_key_scan)

lemma tasks_cursor_page_scan:
  "row_order scan \<Longrightarrow> distinct (map task_key rows) \<Longrightarrow>
     tasks_cursor_page scan org filters rows n c = tasks_cursor_page (\<lambda>rs. rs) org filters rows n c"
  by (simp add: tasks_cursor_page_def order_desc_scan)

lemma wf_task_keys: "db_wf d \<Longrightarrow> distinct (map task_key (tbl_tasks d))"
  using tasks_tbl.pk_distinct by (intro distinct_task_key) simp

section \<open>The task feed provides the keyset interface\<close>

definition task_feed :: "uuid \<Rightarrow> task_filter_params \<Rightarrow> task list \<Rightarrow> task list" where
  "task_feed org filters rows = order_tasks_desc (filter (build_filter_criteria org filters) rows)"

lemma order_desc_filter: "order_tasks_desc (filter P ts) = filter P (order_tasks_desc ts)"
  by (simp add: order_tasks_desc_def rev_filter [symmetric] filter_sort [symmetric])

lemma task_cursor_filter_less: "task_cursor_filter (Some k) t \<longleftrightarrow> task_key t < k"
  by (auto simp: task_cursor_filter_def less_prod_def' split: prod.splits)

lemma sorted_desc:
  assumes "distinct (map task_key ts)"
  shows "sorted_wrt (\<lambda>x y. task_key y < task_key x) (order_tasks_desc ts)"
proof -
  have "sorted (map task_key (sort_key task_key ts))" "distinct (map task_key (sort_key task_key ts))"
    using assms by (simp_all add: distinct_map)
  then have "sorted_wrt (<) (map task_key (sort_key task_key ts))"
    by (simp only: strict_sorted_iff)
  then show ?thesis
    by (simp add: order_tasks_desc_def sorted_wrt_rev sorted_wrt_map)
qed

interpretation task_keyset: keyset_feed task_key "\<lambda>i j. j < i" "task_feed org filters"
    "tasks_cursor_page (\<lambda>rs. rs) org filters" for org filters
proof
  fix rows :: "task list" and n :: nat and k
  assume d: "distinct (map task_key rows)"
  then have "distinct (map task_key (filter (build_filter_criteria org filters) rows))"
    by (rule distinct_map_filter)
  then show "sorted_wrt (\<lambda>x y. task_key y < task_key x) (task_feed org filters rows)"
    unfolding task_feed_def by (rule sorted_desc)
  show "tasks_cursor_page (\<lambda>rs. rs) org filters rows n (Some k) =
      keyset_page (filter (\<lambda>r. task_key r < k) (task_feed org filters rows)) n"
    by (simp add: tasks_cursor_page_def task_feed_def task_cursor_filter_less order_desc_filter [symmetric]
        conj_commute)
next
  fix rows :: "task list" and n :: nat
  show "tasks_cursor_page (\<lambda>rs. rs) org filters rows n None = keyset_page (task_feed org filters rows) n"
    by (simp add: tasks_cursor_page_def task_feed_def task_cursor_filter_def)
qed auto

end
