(* ===== verification/TaskService.thy ===== *)
theory TaskService
  imports AuditTrail TaskRepo
begin

text \<open>
  \<open>TaskService\<close> (\<open>app/services/task.py\<close>): creating a task, and the status update under
  optimistic concurrency control, each in one transaction with its audit row.
\<close>

definition create_task ::
  "row_stamp \<Rightarrow> audit_stamp \<Rightarrow> uuid \<Rightarrow> uuid \<Rightarrow> uuid \<Rightarrow> pystr \<Rightarrow> pystr option \<Rightarrow> task_priority \<Rightarrow> uuid option \<Rightarrow>
     ('z, task) tx" where
  "create_task st ast organization_id project_id reporter_id ttl description priority assignee_id =
     transaction
       (bindE (tenant_create Task organization_id
          \<lparr>t_id = st_id st, t_organization_id = organization_id, t_project_id = project_id,
           t_parent_id = None, t_reporter_id = reporter_id, t_assignee_id = assignee_id,
           t_title = ttl, t_description = description, t_status = BACKLOG, t_priority = priority,
           t_due_date = None, t_version_id = 1, t_created_at = st_created_at st,
           t_updated_at = st_updated_at st, t_is_deleted = False, t_deleted_at = None\<rparr>) (\<lambda>task.
        bindE (add_audit (new_audit ast organization_id (Some reporter_id) ''Task'' (t_id task) AUDIT_CREATE None
          (Some (JObj [(''title'', JStr (t_title task)), (''status'', JStr (task_status_value (t_status task))),
             (''priority'', JStr (task_priority_value (t_priority task)))])))) (\<lambda>_.
        returnE task)))"

text \<open>The WHERE and the VALUES of the conditional UPDATE.\<close>

definition occ_match :: "uuid \<Rightarrow> uuid \<Rightarrow> int \<Rightarrow> task \<Rightarrow> bool" where
  "occ_match organization_id task_id expected_version t \<longleftrightarrow>
     t_id t = task_id \<and> t_organization_id t = organization_id \<and>
     t_version_id t = expected_version \<and> \<not> t_is_deleted t"

definition occ_values :: "task_status \<Rightarrow> int \<Rightarrow> task \<Rightarrow> task" where
  "occ_values new_status expected_version t =
     t\<lparr>t_status := new_status, t_version_id := expected_version + 1\<rparr>"

definition occ_state :: "task \<Rightarrow> json" where
  "occ_state t = JObj [(''status'', JStr (task_status_value (t_status t))), (''version_id'', JInt (t_version_id t))]"

definition occ_conflict :: "uuid \<Rightarrow> int \<Rightarrow> exn" where
  "occ_conflict task_id expected_version =
     EntityConflictException (''Conflict updating Task '' @ [CHR 0x27] @ uuid_str task_id @ [CHR 0x27] @
       ''. Expected version '' @ py_str_int expected_version @
       '', but record was modified by another concurrent transaction.'')"

definition update_task_status_occ ::
  "instant \<Rightarrow> audit_stamp \<Rightarrow> uuid \<Rightarrow> uuid \<Rightarrow> uuid \<Rightarrow> task_status \<Rightarrow> int \<Rightarrow> ('z, task) tx" where
  "update_task_status_occ now ast organization_id task_id actor_id new_status expected_version =
     transaction
       (bindE (tenant_get_by_id Task organization_id task_id False) (\<lambda>found.
        bindE (some_or_raise found (EntityNotFoundException ''Task'' (uuid_str task_id))) (\<lambda>existing_task.
        let before_state = occ_state existing_task in
        bindE (update_where Task (occ_match organization_id task_id expected_version)
                 (\<lambda>t. touch Task now (occ_values new_status expected_version t))) (\<lambda>rows.
        bindE (liftE (scalar_one_or_none rows)) (\<lambda>updated.
        bindE (some_or_raise updated (occ_conflict task_id expected_version)) (\<lambda>updated_task.
        bindE (add_audit (new_audit ast organization_id (Some actor_id) ''Task'' (t_id updated_task) AUDIT_UPDATE
                 (Some before_state) (Some (occ_state updated_task)))) (\<lambda>_.
        returnE updated_task)))))))"

section \<open>Invariants\<close>

lemma create_task_wf [preserve_intros]:
  "preserves session_wf (create_task st ast org p r ttl desc prio a)"
  unfolding create_task_def by (intro preserve_intros tasks_tbl.tenant_create_wf)

lemma update_task_status_occ_wf [preserve_intros]:
  "preserves session_wf (update_task_status_occ now ast org tid actor ns v)"
  unfolding update_task_status_occ_def Let_def
  by (intro preserve_intros tasks_tbl.update_where_wf) (simp add: occ_values_def)

lemma create_task_keeps_tenant [preserve_intros]:
  "b \<noteq> org \<Longrightarrow> preserves (keeps_tenant b d0) (create_task st ast org p r ttl desc prio a)"
  unfolding create_task_def
  by (intro preserve_intros tasks_tbl.tenant_create_keeps_tenant add_audit_keeps_tenant) simp_all

lemma update_task_status_occ_keeps_tenant [preserve_intros]:
  "b \<noteq> org \<Longrightarrow> preserves (keeps_tenant b d0) (update_task_status_occ now ast org tid actor ns v)"
  unfolding update_task_status_occ_def Let_def
  by (intro preserve_intros tasks_tbl.update_where_keeps_tenant add_audit_keeps_tenant)
    (auto simp: occ_match_def occ_values_def)

section \<open>The status update on every branch\<close>

text \<open>The live task a tenant sees under an id.\<close>

definition visible_task :: "uuid \<Rightarrow> uuid \<Rightarrow> database \<Rightarrow> task option" where
  "visible_task org tid d =
     find (\<lambda>t. t_id t = tid \<and> t_organization_id t = org \<and> \<not> t_is_deleted t) (tbl_tasks d)"

lemma tenant_get_task:
  "db_wf (work s) \<Longrightarrow> tenant_get_by_id Task org tid False s = (Inr (visible_task org tid (work s)), s)"
  by (simp add: tasks_tbl.tenant_get_by_id_eq visible_task_def not_deleted_def)

lemma visible_task_Some:
  "visible_task org tid d = Some t \<Longrightarrow>
     t \<in> set (tbl_tasks d) \<and> t_id t = tid \<and> t_organization_id t = org \<and> \<not> t_is_deleted t"
  by (auto simp: visible_task_def find_Some_iff)

lemma visible_task_iff:
  assumes "db_wf d"
  shows "visible_task org tid d = Some t \<longleftrightarrow>
    t \<in> set (tbl_tasks d) \<and> t_id t = tid \<and> t_organization_id t = org \<and> \<not> t_is_deleted t"
proof -
  have d: "distinct (map t_id (tbl_tasks d))"
    using tasks_tbl.pk_distinct [OF assms] by simp
  show ?thesis
  proof
    assume t: "t \<in> set (tbl_tasks d) \<and> t_id t = tid \<and> t_organization_id t = org \<and> \<not> t_is_deleted t"
    have "visible_task org tid d \<noteq> None"
      using t by (auto simp: visible_task_def find_None_iff)
    then obtain t' where t': "visible_task org tid d = Some t'" by blast
    with visible_task_Some [OF this] t have "t' = t"
      by (metis distinct_key_unique [OF d])
    with t' show "visible_task org tid d = Some t" by simp
  qed (rule visible_task_Some)
qed

text \<open>The conditional UPDATE matches the visible task exactly when the version agrees.\<close>

lemma occ_filter:
  assumes "db_wf d"
  shows "filter (occ_match org tid v) (tbl_tasks d) =
    (case visible_task org tid d of Some t \<Rightarrow> if t_version_id t = v then [t] else [] | None \<Rightarrow> [])"
proof (cases "\<exists>t \<in> set (tbl_tasks d). occ_match org tid v t")
  case True
  then obtain t where t: "t \<in> set (tbl_tasks d)" "occ_match org tid v t" by blast
  then have "visible_task org tid d = Some t"
    using visible_task_iff [OF assms] by (auto simp: occ_match_def)
  moreover have "filter (occ_match org tid v) (tbl_tasks d) = [t]"
    using tasks_tbl.pk_distinct [OF assms] t
    by (intro filter_singleton [where f = t_id]) (auto simp: occ_match_def)
  ultimately show ?thesis using t by (simp add: occ_match_def)
next
  case False
  then have "filter (occ_match org tid v) (tbl_tasks d) = []" by (auto simp: filter_empty_conv)
  with False show ?thesis
    using visible_task_Some [of org tid d] by (auto simp: occ_match_def split: option.splits)
qed

text \<open>The task table after the winning update.\<close>

definition occ_tasks :: "instant \<Rightarrow> uuid \<Rightarrow> uuid \<Rightarrow> task_status \<Rightarrow> int \<Rightarrow> task list \<Rightarrow> task list" where
  "occ_tasks now org tid ns v ts =
     map (\<lambda>t. if occ_match org tid v t then (occ_values ns v t)\<lparr>t_updated_at := now\<rparr> else t) ts"

lemma task_update_no_violation:
  assumes "db_wf d" and "t \<in> set (tbl_tasks d)" and "fits_int4 (t_version_id t')"
    and "t_title t' = t_title t" "t_organization_id t' = t_organization_id t" "t_project_id t' = t_project_id t"
      "t_parent_id t' = t_parent_id t" "t_reporter_id t' = t_reporter_id t" "t_assignee_id t' = t_assignee_id t"
    and "map t_id ts = map t_id (tbl_tasks d)"
  shows "violation Task (d\<lparr>tbl_tasks := ts\<rparr>) t' = None"
proof -
  have "violation Task d t = None"
    using tasks_tbl.wf_table [OF assms(1)] assms(2) by (simp add: table_ok_def)
  moreover have "set (map t_id ts) = set (map t_id (tbl_tasks d))" using assms(10) by simp
  ultimately show ?thesis
    using assms(3-9) by (simp add: violation_def Task_def key_set_defs split: if_splits)
qed

text \<open>
  The functional behaviour of \<open>update_task_status_occ\<close>: not found, stale, or updated with
  the version one higher and exactly one audit row holding both states.
\<close>

lemma update_task_status_occ_eq:
  fixes s :: "'z session_scheme"
  assumes wf: "db_wf (work s)" and "commit_fault s = None" and int4: "fits_int4 (v + 1)"
    and audit: "as_id ast \<notin> al_id ` set (tbl_audit_logs (work s))" "actor \<in> user_ids (work s)"
  shows "update_task_status_occ now ast org tid actor ns v s =
    (case visible_task org tid (work s) of
       None \<Rightarrow> (Inl (EntityNotFoundException ''Task'' (uuid_str tid)), rollback s)
     | Some t \<Rightarrow>
         if t_version_id t \<noteq> v then (Inl (occ_conflict tid v), rollback s)
         else (let t' = touch Task now (occ_values ns v t);
                   a = new_audit ast org (Some actor) ''Task'' tid AUDIT_UPDATE (Some (occ_state t)) (Some (occ_state t'));
                   d = (work s)\<lparr>tbl_tasks := occ_tasks now org tid ns v (tbl_tasks (work s)),
                                tbl_audit_logs := tbl_audit_logs (work s) @ [a]\<rparr>
               in (Inr t', s\<lparr>work := d, committed := d\<rparr>)))"
proof (cases "visible_task org tid (work s)")
  case None
  with wf show ?thesis
    by (simp add: update_task_status_occ_def transaction_cases tenant_get_task exec_simps)
next
  case (Some t)
  note t = visible_task_Some [OF Some]
  let ?f = "\<lambda>t. touch Task now (occ_values ns v t)"
  let ?d' = "(work s)\<lparr>tbl_tasks := occ_tasks now org tid ns v (tbl_tasks (work s))\<rparr>"
  show ?thesis
  proof (cases "t_version_id t = v")
    case False
    with Some wf have "update_where Task (occ_match org tid v) ?f s =
        (Inr [], s\<lparr>work := ?d'\<rparr>)"
      by (simp add: update_where_def occ_filter occ_tasks_def List.map_filter_simps Let_def)
    moreover have "rollback (s\<lparr>work := ?d'\<rparr>) = rollback s"
      by (simp add: rollback_def)
    ultimately show ?thesis
      using Some wf False
      by (simp add: update_task_status_occ_def transaction_cases tenant_get_task exec_simps Let_def)
  next
    case True
    have "violation Task ?d' (?f t) = None"
      by (rule task_update_no_violation [OF wf])
        (use t int4 in \<open>auto simp: occ_values_def occ_tasks_def\<close>)
    then have upd: "update_where Task (occ_match org tid v) ?f s = (Inr [?f t], s\<lparr>work := ?d'\<rparr>)"
      using Some wf True
      by (simp add: update_where_def occ_filter occ_tasks_def List.map_filter_simps Let_def)
    have org: "org \<in> organization_ids (work s)"
      using tasks_tbl.wf_table [OF wf] t by (auto simp: table_ok_def violation_def Task_def split: if_splits)
    have "audit_writable ?d' (new_audit ast org (Some actor) ''Task'' (t_id (?f t)) AUDIT_UPDATE
        (Some (occ_state t)) (Some (occ_state (?f t))))"
      using audit org by (simp add: audit_writable_def opt_ref_def organization_ids_def user_ids_def)
    from add_audit_ok [of "s\<lparr>work := ?d'\<rparr>", simplified, OF this]
    show ?thesis
      using Some wf True assms(2) upd t
      by (simp add: update_task_status_occ_def transaction_cases tenant_get_task exec_simps Let_def occ_values_def)
  qed
qed

section \<open>Creating a task\<close>

definition new_task ::
  "row_stamp \<Rightarrow> uuid \<Rightarrow> uuid \<Rightarrow> uuid \<Rightarrow> pystr \<Rightarrow> pystr option \<Rightarrow> task_priority \<Rightarrow> uuid option \<Rightarrow> task" where
  "new_task st org project reporter ttl desc prio assignee =
     \<lparr>t_id = st_id st, t_organization_id = org, t_project_id = project, t_parent_id = None,
      t_reporter_id = reporter, t_assignee_id = assignee, t_title = ttl, t_description = desc,
      t_status = BACKLOG, t_priority = prio, t_due_date = None, t_version_id = 1,
      t_created_at = st_created_at st, t_updated_at = st_updated_at st, t_is_deleted = False, t_deleted_at = None\<rparr>"

text \<open>The foreign keys the database checks: nothing relates the project or the assignee to the tenant.\<close>

definition task_refs_exist :: "database \<Rightarrow> uuid \<Rightarrow> uuid \<Rightarrow> uuid \<Rightarrow> uuid option \<Rightarrow> bool" where
  "task_refs_exist d org project reporter assignee \<longleftrightarrow> org \<in> organization_ids d \<and>
     project \<in> project_ids d \<and> reporter \<in> user_ids d \<and> opt_ref assignee (user_ids d)"

lemma opt_ref_simps: "opt_ref None A" "opt_ref (Some i) A \<longleftrightarrow> i \<in> A"
  by (simp_all add: opt_ref_def)

lemma create_task_eq:
  assumes "commit_fault s = None" and "length ttl \<le> 255"
    and refs: "task_refs_exist (work s) org project reporter assignee"
    and fresh: "st_id st \<notin> task_ids (work s)" "as_id ast \<notin> al_id ` set (tbl_audit_logs (work s))"
  shows "create_task st ast org project reporter ttl desc prio assignee s =
    (let t = new_task st org project reporter ttl desc prio assignee;
         a = new_audit ast org (Some reporter) ''Task'' (st_id st) AUDIT_CREATE None
               (Some (JObj [(''title'', JStr ttl), (''status'', JStr ''backlog''),
                            (''priority'', JStr (task_priority_value prio))]));
         d = (work s)\<lparr>tbl_tasks := tbl_tasks (work s) @ [t], tbl_audit_logs := tbl_audit_logs (work s) @ [a]\<rparr>
     in (Inr t, s\<lparr>work := d, committed := d\<rparr>))"
proof -
  let ?t = "new_task st org project reporter ttl desc prio assignee"
  let ?d' = "(work s)\<lparr>tbl_tasks := tbl_tasks (work s) @ [?t]\<rparr>"
  have "violation Task ?d' ?t = None"
    using refs assms(2)
    by (simp add: violation_def Task_def new_task_def fits_defs key_set_defs task_refs_exist_def opt_ref_simps)
  then have ins: "tenant_create Task org ?t s = (Inr ?t, s\<lparr>work := ?d'\<rparr>)"
    using fresh(1)
    by (simp add: tenant_create_def base_create_def insert_row_def Let_def new_task_def task_ids_def)
  have "audit_writable ?d' (new_audit ast org (Some reporter) ''Task'' (st_id st) AUDIT_CREATE None
      (Some (JObj [(''title'', JStr ttl), (''status'', JStr ''backlog''), (''priority'', JStr (task_priority_value prio))])))"
    using refs fresh(2) by (simp add: audit_writable_def organization_ids_def user_ids_def task_refs_exist_def opt_ref_simps)
  from add_audit_ok [of "s\<lparr>work := ?d'\<rparr>", simplified, OF this] ins assms(1)
  show ?thesis
    by (simp add: create_task_def transaction_cases exec_simps Let_def new_task_def)
qed

end
