(* ===== verification/JsonText.thy ===== *)
theory JsonText
  imports Models
begin

text \<open>
  \<open>json.dumps\<close> with its default separators and ASCII output, and \<open>json.loads\<close> with the
  grammar of Python's scanner (literals, numbers, strict strings, white space, and the
  constants \<open>NaN\<close> and \<open>Infinity\<close>). Text is the characters below 256, so an escape beyond
  them is refused. Between two characters the parser makes at most two calls, so fuel of twice
  the length of the text never runs out before the text does; the interpreter's limit on
  nesting is not modelled.
\<close>

section \<open>Printing\<close>

text \<open>Characters outside the printable ASCII range and the two special ones are escaped.\<close>

definition json_char :: "char \<Rightarrow> pystr" where
  "json_char c =
     (if c = CHR 0x22 then [CHR 0x5C, CHR 0x22]
      else if c = CHR 0x5C then [CHR 0x5C, CHR 0x5C]
      else if c = CHR 0x0A then [CHR 0x5C, CHR ''n'']
      else if c = CHR 0x0D then [CHR 0x5C, CHR ''r'']
      else if c = CHR 0x09 then [CHR 0x5C, CHR ''t'']
      else if c = CHR 0x08 then [CHR 0x5C, CHR ''b'']
      else if c = CHR 0x0C then [CHR 0x5C, CHR ''f'']
      else if 32 \<le> (of_char c :: nat) \<and> (of_char c :: nat) \<le> 126 then [c]
      else [CHR 0x5C, CHR ''u''] @ hex_digits 4 (of_char c))"

definition json_string :: "pystr \<Rightarrow> pystr" where
  "json_string s = [CHR 0x22] @ concat (map json_char s) @ [CHR 0x22]"

fun json_dumps :: "json \<Rightarrow> pystr" and json_members :: "(pystr \<times> json) list \<Rightarrow> pystr"
  and json_items :: "json list \<Rightarrow> pystr" where
  "json_dumps JNull = ''null''"
| "json_dumps (JBool b) = (if b then ''true'' else ''false'')"
| "json_dumps (JInt i) = py_str_int i"
| "json_dumps (JFloat t) = t"
| "json_dumps (JStr s) = json_string s"
| "json_dumps (JArr js) = ''['' @ json_items js @ '']''"
| "json_dumps (JObj kvs) = ''{'' @ json_members kvs @ ''}''"
| "json_members [] = []"
| "json_members [(k, v)] = json_string k @ '': '' @ json_dumps v"
| "json_members ((k, v) # kv # kvs) = json_string k @ '': '' @ json_dumps v @ '', '' @ json_members (kv # kvs)"
| "json_items [] = []"
| "json_items [j] = json_dumps j"
| "json_items (j # j' # js) = json_dumps j @ '', '' @ json_items (j' # js)"

section \<open>Parsing\<close>

definition json_space :: "char \<Rightarrow> bool" where
  "json_space c \<longleftrightarrow> c = CHR 0x20 \<or> c = CHR 0x09 \<or> c = CHR 0x0A \<or> c = CHR 0x0D"

abbreviation skip_ws :: "pystr \<Rightarrow> pystr" where
  "skip_ws \<equiv> dropWhile json_space"

definition is_digit :: "char \<Rightarrow> bool" where
  "is_digit c \<longleftrightarrow> 48 \<le> (of_char c :: nat) \<and> (of_char c :: nat) \<le> 57"

definition dec_value :: "pystr \<Rightarrow> nat" where
  "dec_value ds = fold (\<lambda>c n. 10 * n + (of_char c - 48)) ds 0"

text \<open>The escapes of a string, then the string up to its closing quote.\<close>

definition escaped :: "char \<Rightarrow> char option" where
  "escaped e =
     map_of [(CHR 0x22, CHR 0x22), (CHR 0x5C, CHR 0x5C), (CHR ''/'', CHR ''/''), (CHR ''b'', CHR 0x08),
             (CHR ''f'', CHR 0x0C), (CHR ''n'', CHR 0x0A), (CHR ''r'', CHR 0x0D), (CHR ''t'', CHR 0x09)] e"

definition hex4 :: "char \<Rightarrow> char \<Rightarrow> char \<Rightarrow> char \<Rightarrow> char option" where
  "hex4 a b c d =
     (case (hex_val a, hex_val b, hex_val c, hex_val d) of
        (Some w, Some x, Some y, Some z) \<Rightarrow>
          (let n = ((w * 16 + x) * 16 + y) * 16 + z in if n < 256 then Some (char_of n) else None)
      | _ \<Rightarrow> None)"

fun j_string :: "pystr \<Rightarrow> (pystr \<times> pystr) option" where
  "j_string [] = None"
| "j_string (c # s) =
     (if c = CHR 0x22 then Some ([], s)
      else if c = CHR 0x5C then
        (case s of
           [] \<Rightarrow> None
         | e # s \<Rightarrow>
             if e = CHR ''u'' then
               (case s of
                  h1 # h2 # h3 # h4 # s \<Rightarrow>
                    Option.bind (hex4 h1 h2 h3 h4) (\<lambda>x. map_option (\<lambda>(t, r). (x # t, r)) (j_string s))
                | _ \<Rightarrow> None)
             else Option.bind (escaped e) (\<lambda>x. map_option (\<lambda>(t, r). (x # t, r)) (j_string s)))
      else if (of_char c :: nat) < 32 then None
      else map_option (\<lambda>(t, r). (c # t, r)) (j_string s))"

text \<open>A number: an integer part without needless zeros, then a fraction and an exponent if complete.\<close>

definition int_part :: "pystr \<Rightarrow> (pystr \<times> pystr) option" where
  "int_part s =
     (case s of
        [] \<Rightarrow> None
      | c # r \<Rightarrow> if c = CHR ''0'' then Some (''0'', r)
                 else if is_digit c then Some (takeWhile is_digit s, dropWhile is_digit s) else None)"

definition fraction :: "pystr \<Rightarrow> pystr \<times> pystr" where
  "fraction s =
     (case s of
        c # r \<Rightarrow> if c = CHR ''.'' \<and> takeWhile is_digit r \<noteq> []
                 then (c # takeWhile is_digit r, dropWhile is_digit r) else ([], s)
      | [] \<Rightarrow> ([], []))"

definition exponent :: "pystr \<Rightarrow> pystr \<times> pystr" where
  "exponent s =
     (case s of
        c # r \<Rightarrow>
          (let (sg, r') = (case r of x # r' \<Rightarrow> if x = CHR ''+'' \<or> x = CHR ''-'' then ([x], r') else ([], r) | [] \<Rightarrow> ([], []))
           in if (c = CHR ''e'' \<or> c = CHR ''E'') \<and> takeWhile is_digit r' \<noteq> []
              then (c # sg @ takeWhile is_digit r', dropWhile is_digit r') else ([], s))
      | [] \<Rightarrow> ([], []))"

definition j_number :: "pystr \<Rightarrow> (json \<times> pystr) option" where
  "j_number s =
     (let (sg, r) = (case s of c # r \<Rightarrow> if c = CHR ''-'' then (''-'', r) else ([], s) | [] \<Rightarrow> ([], [])) in
      Option.bind (int_part r) (\<lambda>(ds, r).
      let (fr, r) = fraction r; (ex, r) = exponent r in
      if fr = [] \<and> ex = [] then Some (JInt (if sg = [] then int (dec_value ds) else - int (dec_value ds)), r)
      else Some (JFloat (sg @ ds @ fr @ ex), r)))"

text \<open>A literal at the front of the text.\<close>

definition literal :: "pystr \<Rightarrow> json \<Rightarrow> pystr \<Rightarrow> (json \<times> pystr) option" where
  "literal w j s = (if take (length w) s = w then Some (j, drop (length w) s) else None)"

definition j_scalar :: "pystr \<Rightarrow> (json \<times> pystr) option" where
  "j_scalar s =
     (case map_of (map (\<lambda>(w, j). (hd w, literal w j s))
        [(''null'', JNull), (''true'', JBool True), (''false'', JBool False),
         (''NaN'', JFloat ''NaN''), (''Infinity'', JFloat ''Infinity'')]) (hd s) of
        Some r \<Rightarrow> r
      | None \<Rightarrow> (case literal ''-Infinity'' (JFloat ''-Infinity'') s of Some r \<Rightarrow> Some r | None \<Rightarrow> j_number s))"

fun j_value :: "nat \<Rightarrow> pystr \<Rightarrow> (json \<times> pystr) option"
  and j_members :: "nat \<Rightarrow> pystr \<Rightarrow> ((pystr \<times> json) list \<times> pystr) option"
  and j_items :: "nat \<Rightarrow> pystr \<Rightarrow> (json list \<times> pystr) option" where
  "j_value 0 s = None"
| "j_value (Suc n) s =
     (case s of
        [] \<Rightarrow> None
      | c # r \<Rightarrow>
          if c = CHR 0x22 then map_option (\<lambda>(t, r). (JStr t, r)) (j_string r)
          else if c = CHR ''{'' then
            (case skip_ws r of
               [] \<Rightarrow> None
             | c' # r' \<Rightarrow> if c' = CHR ''}'' then Some (JObj [], r')
                          else map_option (\<lambda>(kvs, r). (JObj kvs, r)) (j_members n (c' # r')))
          else if c = CHR ''['' then
            (case skip_ws r of
               [] \<Rightarrow> None
             | c' # r' \<Rightarrow> if c' = CHR '']'' then Some (JArr [], r')
                          else map_option (\<lambda>(js, r). (JArr js, r)) (j_items n (c' # r')))
          else j_scalar s)"
| "j_members 0 s = None"
| "j_members (Suc n) s =
     (case s of
        [] \<Rightarrow> None
      | c # r \<Rightarrow>
          if c \<noteq> CHR 0x22 then None
          else Option.bind (j_string r) (\<lambda>(k, r).
            (case skip_ws r of
               [] \<Rightarrow> None
             | c # r \<Rightarrow>
                 if c \<noteq> CHR '':'' then None
                 else Option.bind (j_value n (skip_ws r)) (\<lambda>(v, r).
                   (case skip_ws r of
                      [] \<Rightarrow> None
                    | c # r \<Rightarrow>
                        if c = CHR ''}'' then Some ([(k, v)], r)
                        else if c = CHR '','' then map_option (\<lambda>(kvs, r). ((k, v) # kvs, r)) (j_members n (skip_ws r))
                        else None)))))"
| "j_items 0 s = None"
| "j_items (Suc n) s =
     Option.bind (j_value n s) (\<lambda>(v, r).
       (case skip_ws r of
          [] \<Rightarrow> None
        | c # r \<Rightarrow>
            if c = CHR '']'' then Some ([v], r)
            else if c = CHR '','' then map_option (\<lambda>(js, r). (v # js, r)) (j_items n (skip_ws r))
            else None))"

definition json_loads :: "pystr \<Rightarrow> json option" where
  "json_loads s =
     (case j_value (2 * length s + 2) (skip_ws s) of
        Some (j, r) \<Rightarrow> if skip_ws r = [] then Some j else None
      | None \<Rightarrow> None)"

text \<open>A member of a parsed object: the last one of a repeated key.\<close>

definition dict_get :: "(pystr \<times> json) list \<Rightarrow> pystr \<Rightarrow> json option" where
  "dict_get kvs k = map_of (rev kvs) k"

section \<open>Parsing undoes printing\<close>

lemma numeral_4_eq_4: "4 = Suc (Suc (Suc (Suc 0)))"
  by simp

lemma hex4_digits:
  assumes "n < 256"
  shows "hex_digits 4 n = [hex_char 0, hex_char 0, hex_char (n div 16), hex_char (n mod 16)]"
    and "hex4 (hex_char 0) (hex_char 0) (hex_char (n div 16)) (hex_char (n mod 16)) = Some (char_of n)"
proof -
  have "n div 16 < 16" "n div 16 div 16 = 0" using assms by auto
  then show "hex_digits 4 n = [hex_char 0, hex_char 0, hex_char (n div 16), hex_char (n mod 16)]"
    unfolding numeral_4_eq_4 by (simp add: div_mult2_eq [symmetric])
  show "hex4 (hex_char 0) (hex_char 0) (hex_char (n div 16)) (hex_char (n mod 16)) = Some (char_of n)"
    using assms by (simp add: hex4_def hex_val_char)
qed

lemma j_string_char:
  "j_string (json_char c @ r) = map_option (\<lambda>(t, r). (c # t, r)) (j_string r)"
proof (cases "c \<in> set [CHR 0x22, CHR 0x5C, CHR 0x0A, CHR 0x0D, CHR 0x09, CHR 0x08, CHR 0x0C]")
  case True
  then show ?thesis by (auto simp: json_char_def escaped_def)
next
  case False
  then have special: "c \<noteq> CHR 0x22" "c \<noteq> CHR 0x5C" "c \<noteq> CHR 0x0A" "c \<noteq> CHR 0x0D" "c \<noteq> CHR 0x09" "c \<noteq> CHR 0x08"
    "c \<noteq> CHR 0x0C" by simp_all
  show ?thesis
  proof (cases "32 \<le> (of_char c :: nat) \<and> (of_char c :: nat) \<le> 126")
    case True
    with special show ?thesis by (simp add: json_char_def)
  next
    case False
    have "(of_char c :: nat) < 256" by simp
    note digits = hex4_digits [OF this]
    have "json_char c = [CHR 0x5C, CHR ''u''] @ hex_digits 4 (of_char c)"
      unfolding json_char_def using special False by (simp only: if_False if_not_P not_False_eq_True)
    then show ?thesis using digits by simp
  qed
qed

lemma j_string_printed: "j_string (concat (map json_char s) @ CHR 0x22 # r) = Some (s, r)"
  by (induction s) (simp_all add: j_string_char)

lemma digit_char: "(d::nat) < 10 \<Longrightarrow> is_digit (char_of (48 + d)) \<and> (of_char (char_of (48 + d) :: char) :: nat) = 48 + d"
  by (simp add: is_digit_def)

lemma nat_digits_facts:
  "nat_digits n \<noteq> [] \<and> (\<forall>c \<in> set (nat_digits n). is_digit c) \<and> dec_value (nat_digits n) = n \<and>
     (hd (nat_digits n) = CHR ''0'' \<longrightarrow> nat_digits n = ''0'')"
proof (induction n rule: nat_digits.induct)
  case (1 n)
  show ?case
  proof (cases "n < 10")
    case True
    then have "char_of (48 + n) = CHR ''0'' \<Longrightarrow> n = 0"
      using digit_char [of n] by (auto simp: char_of_eq_iff take_bit_eq_mod)
    with True show ?thesis
      using digit_char [of n] by (auto simp: nat_digits.simps [of n] dec_value_def)
  next
    case False
    have "n mod 10 < 10" by simp
    moreover have "nat_digits (n div 10) \<noteq> ''0''"
    proof
      assume "nat_digits (n div 10) = ''0''"
      then have "n div 10 = 0" using 1 False by (auto simp: dec_value_def)
      with False show False by simp
    qed
    ultimately show ?thesis
      using 1 False digit_char [of "n mod 10"] by (auto simp: nat_digits.simps [of n] dec_value_def)
  qed
qed

definition num_end :: "pystr \<Rightarrow> bool" where
  "num_end r \<longleftrightarrow> (case r of [] \<Rightarrow> True | c # _ \<Rightarrow> \<not> is_digit c \<and> c \<notin> {CHR ''.'', CHR ''e'', CHR ''E''})"

lemma digits_stop:
  "\<forall>c \<in> set ds. is_digit c \<Longrightarrow> num_end r \<Longrightarrow> takeWhile is_digit (ds @ r) = ds \<and> dropWhile is_digit (ds @ r) = r"
  by (cases r) (auto simp: num_end_def)

lemma number_end: "num_end r \<Longrightarrow> fraction r = ([], r) \<and> exponent r = ([], r)"
  by (cases r) (auto simp: num_end_def fraction_def exponent_def Let_def split: list.splits if_splits prod.splits)

lemma int_part_digits: "num_end r \<Longrightarrow> int_part (nat_digits n @ r) = Some (nat_digits n, r)"
  using nat_digits_facts [of n] digits_stop [of "nat_digits n" r]
  by (cases "nat_digits n") (auto simp: int_part_def)

lemma digit_not: "is_digit c \<Longrightarrow> c \<notin> {CHR ''n'', CHR ''t'', CHR ''f'', CHR ''N'', CHR ''I'', CHR ''-'', CHR 0x22, CHR ''{'',
    CHR ''['', CHR 0x20, CHR 0x09, CHR 0x0A, CHR 0x0D, CHR ''}'', CHR '']''}"
  by (auto simp: is_digit_def)

lemma j_value_int:
  assumes "num_end r"
  shows "j_value (Suc m) (py_str_int i @ r) = Some (JInt i, r)"
proof -
  define n where "n = nat \<bar>i\<bar>"
  obtain c ds where c: "nat_digits n = c # ds" "is_digit c"
    using nat_digits_facts [of n] by (cases "nat_digits n") auto
  note digits = int_part_digits [OF assms, of n] number_end [OF assms] nat_digits_facts [of n]
  show ?thesis
  proof (cases "i < 0")
    case True
    then have "py_str_int i @ r = CHR ''-'' # nat_digits n @ r" by (simp add: py_str_int_def n_def)
    then show ?thesis
      using digits c True digit_not [OF c(2)]
      by (simp add: j_scalar_def literal_def j_number_def n_def Let_def)
  next
    case False
    then have "py_str_int i @ r = nat_digits n @ r" by (simp add: py_str_int_def n_def)
    then show ?thesis
      using digits c False digit_not [OF c(2)]
      by (simp add: j_scalar_def literal_def j_number_def n_def Let_def)
  qed
qed

fun no_floats :: "json \<Rightarrow> bool" where
  "no_floats (JFloat _) = False"
| "no_floats (JArr js) = list_all no_floats js"
| "no_floats (JObj kvs) = list_all (\<lambda>kv. no_floats (snd kv)) kvs"
| "no_floats _ = True"

lemma json_dumps_head:
  "no_floats j \<Longrightarrow> \<exists>c t. json_dumps j = c # t \<and> \<not> json_space c \<and> c \<noteq> CHR ''}'' \<and> c \<noteq> CHR '']''"
proof (cases j)
  case (JInt i)
  obtain c ds where "nat_digits (nat \<bar>i\<bar>) = c # ds" "is_digit c"
    using nat_digits_facts [of "nat \<bar>i\<bar>"] by (cases "nat_digits (nat \<bar>i\<bar>)") auto
  then show ?thesis
    using digit_not [of c] JInt by (auto simp: py_str_int_def json_space_def)
qed (auto simp: json_space_def json_string_def)

lemma skip_ws_head: "\<not> json_space c \<Longrightarrow> skip_ws (c # s) = c # s"
  by simp

lemma json_string_head: "json_string s @ r = CHR 0x22 # concat (map json_char s) @ CHR 0x22 # r"
  by (simp add: json_string_def)

lemma punctuation [simp]:
  "\<not> json_space (CHR '':'')" "\<not> json_space (CHR '','')" "\<not> json_space (CHR ''}'')" "\<not> json_space (CHR '']'')"
  "\<not> json_space (CHR 0x22)" "json_space (CHR 0x20)"
  by (simp_all add: json_space_def)

lemma num_end_punctuation [simp]:
  "num_end []" "num_end (CHR '','' # r)" "num_end (CHR ''}'' # r)" "num_end (CHR '']'' # r)"
  by (simp_all add: num_end_def is_digit_def)

lemma j_value_scalars:
  "j_value (Suc n) (''null'' @ r) = Some (JNull, r)" "j_value (Suc n) (''true'' @ r) = Some (JBool True, r)"
  "j_value (Suc n) (''false'' @ r) = Some (JBool False, r)"
  by (simp_all add: j_scalar_def literal_def)

text \<open>One member and one item, in front of what follows.\<close>

lemma j_members_step:
  assumes "json_dumps v = c # t" "\<not> json_space c" and "j_value n (json_dumps v @ r) = Some (v, r)"
  shows "j_members (Suc n) (json_string k @ '': '' @ json_dumps v @ r) =
    (case skip_ws r of
       [] \<Rightarrow> None
     | c # r \<Rightarrow>
         if c = CHR ''}'' then Some ([(k, v)], r)
         else if c = CHR '','' then map_option (\<lambda>(kvs, r). ((k, v) # kvs, r)) (j_members n (skip_ws r))
         else None)"
  using assms by (simp add: json_string_head j_string_printed skip_ws_head)

lemma j_items_step:
  assumes "j_value n (json_dumps v @ r) = Some (v, r)"
  shows "j_items (Suc n) (json_dumps v @ r) =
    (case skip_ws r of
       [] \<Rightarrow> None
     | c # r \<Rightarrow>
         if c = CHR '']'' then Some ([v], r)
         else if c = CHR '','' then map_option (\<lambda>(js, r). (v # js, r)) (j_items n (skip_ws r))
         else None)"
  using assms by simp

lemma json_members_head: "kvs \<noteq> [] \<Longrightarrow> \<exists>t. json_members kvs = CHR 0x22 # t"
  by (cases kvs rule: json_members.cases) (auto simp: json_string_def)

lemma json_items_head:
  assumes "js \<noteq> []" and "list_all no_floats js"
  shows "\<exists>c t. json_items js = c # t \<and> \<not> json_space c \<and> c \<noteq> CHR '']''"
proof -
  obtain j js' where js: "js = j # js'" using assms(1) by (cases js) auto
  then show ?thesis using json_dumps_head [of j] assms(2) by (cases js') auto
qed

lemma j_value_printed:
  "\<And>n r. no_floats j \<Longrightarrow> length (json_dumps j) < n \<Longrightarrow> num_end r \<Longrightarrow> j_value n (json_dumps j @ r) = Some (j, r)"
  "\<And>n r. list_all (\<lambda>kv. no_floats (snd kv)) kvs \<Longrightarrow> kvs \<noteq> [] \<Longrightarrow> length (json_members kvs) < n \<Longrightarrow>
     j_members n (json_members kvs @ CHR ''}'' # r) = Some (kvs, r)"
  "\<And>n r. list_all no_floats js \<Longrightarrow> js \<noteq> [] \<Longrightarrow> length (json_items js) + 1 < n \<Longrightarrow>
     j_items n (json_items js @ CHR '']'' # r) = Some (js, r)"
proof (induction j and kvs and js rule: json_dumps_json_members_json_items.induct)
  case 1
  then show ?case using j_value_scalars(1) by (cases n) (simp_all del: j_value.simps(2))
next
  case (2 b)
  then show ?case using j_value_scalars(2,3) by (cases n) (simp_all del: j_value.simps(2))
next
  case (3 i)
  then show ?case using j_value_int by (cases n) (simp_all del: j_value.simps(2))
next
  case (4 t)
  then show ?case by simp
next
  case (5 s)
  then show ?case by (cases n) (simp_all add: json_string_head j_string_printed)
next
  case (6 js)
  then obtain m where n: "n = Suc m" by (cases n) auto
  show ?case
  proof (cases "js = []")
    case False
    then obtain c t where "json_items js = c # t" "\<not> json_space c" "c \<noteq> CHR '']''"
      using json_items_head [of js] 6 by auto
    then show ?thesis using 6 n False by simp
  qed (use n in simp)
next
  case (7 kvs)
  then obtain m where n: "n = Suc m" by (cases n) auto
  show ?case
  proof (cases "kvs = []")
    case False
    then obtain t where "json_members kvs = CHR 0x22 # t"
      using json_members_head [of kvs] by auto
    then show ?thesis using 7 n False by simp
  qed (use n in simp)
next
  case 8
  then show ?case by simp
next
  case (9 k v)
  then obtain m where n: "n = Suc m" by (cases n) auto
  obtain c t where "json_dumps v = c # t" "\<not> json_space c" using json_dumps_head [of v] 9 by auto
  from j_members_step [OF this, of m "CHR ''}'' # r" k] show ?case using 9 n by simp
next
  case (10 k v kv kvs)
  then obtain m where n: "n = Suc m" by (cases n) auto
  obtain c t where v: "json_dumps v = c # t" "\<not> json_space c" using json_dumps_head [of v] 10 by auto
  obtain t' where t': "json_members (kv # kvs) = CHR 0x22 # t'" using json_members_head [of "kv # kvs"] by auto
  from j_members_step [OF v, of m "'', '' @ json_members (kv # kvs) @ CHR ''}'' # r" k] show ?case
    using 10 n t' by simp
next
  case 11
  then show ?case by simp
next
  case (12 j)
  then obtain m where n: "n = Suc m" by (cases n) auto
  from j_items_step [of m j "CHR '']'' # r"] show ?case using 12 n by simp
next
  case (13 j j' js)
  then obtain m where n: "n = Suc m" by (cases n) auto
  obtain c t where t: "json_items (j' # js) = c # t" "\<not> json_space c" using json_items_head [of "j' # js"] 13 by auto
  from j_items_step [of m j "'', '' @ json_items (j' # js) @ CHR '']'' # r"] show ?case using 13 n t by simp
qed

lemma json_roundtrip: "no_floats j \<Longrightarrow> json_loads (json_dumps j) = Some j"
proof -
  assume plain: "no_floats j"
  then obtain c t where "json_dumps j = c # t" "\<not> json_space c" using json_dumps_head [of j] by auto
  then have "skip_ws (json_dumps j) = json_dumps j" by simp
  then show ?thesis
    using j_value_printed(1) [OF plain, of "2 * length (json_dumps j) + 2" "[]"] by (simp add: json_loads_def)
qed

end
