(* ===== verification/Events.thy ===== *)
theory Events
  imports AppState JsonText
begin

text \<open>
  Publishing events (\<open>WebSocketHub.broadcast_to_room\<close>, \<open>app/websockets/hub.py\<close>).
\<close>

section \<open>Broadcasts\<close>

definition channel_name :: "uuid \<Rightarrow> pystr" where
  "channel_name project_id = ''project_events:'' @ uuid_str project_id"

text \<open>A failing publication is logged and dropped: a broadcast never fails its request.\<close>

definition broadcast_to_room :: "uuid \<Rightarrow> pystr \<Rightarrow> json \<Rightarrow> ('r, 'z, unit) app" where
  "broadcast_to_room project_id event_type data s =
     (Inr (), if redis_down s then s
              else s\<lparr>published := published s @
                [(channel_name project_id, json_dumps (JObj [(''event'', JStr event_type), (''data'', data)]))]\<rparr>)"

lemma preserves_broadcast [preserve_intros]: "session_frame I \<Longrightarrow> preserves I (broadcast_to_room p e d)"
  by (erule preserves_session_frame) (simp add: broadcast_to_room_def)

lemma channel_name_inject: "channel_name p = channel_name p' \<longleftrightarrow> p = p'"
  by (simp add: channel_name_def uuid_str_inject)

end
