(* ===== verification/TaskApi.thy ===== *)
theory TaskApi
  imports Accounts TaskService Events
begin

text \<open>
  The task endpoints (\<open>app/api/v1/endpoints/tasks.py\<close>) as whole requests: a session of its own,
  the caller and its role, the handler with its writes and broadcasts.
\<close>

section \<open>Payloads and answers\<close>

record task_create_payload =
  tc_project_id :: uuid
  tc_title :: pystr
  tc_description :: "pystr option"
  tc_priority :: task_priority
  tc_assignee_id :: "uuid option"
  tc_parent_id :: "uuid option"
  tc_due_date :: "instant option"

record task_update_payload =
  tu_title :: "pystr option"
  tu_description :: "pystr option"
  tu_status :: "task_status option"
  tu_priority :: "task_priority option"
  tu_assignee_id :: "uuid option"
  tu_due_date :: "instant option"
  tu_expected_version :: int

definition valid_task_create :: "task_create_payload \<Rightarrow> bool" where
  "valid_task_create p \<longleftrightarrow> 1 \<le> length (tc_title p) \<and> length (tc_title p) \<le> 255"

definition valid_task_update :: "task_update_payload \<Rightarrow> bool" where
  "valid_task_update p \<longleftrightarrow>
     (case tu_title p of None \<Rightarrow> True | Some s \<Rightarrow> 1 \<le> length s \<and> length s \<le> 255) \<and> 1 \<le> tu_expected_version p"

record task_response =
  tr_id :: uuid
  tr_organization_id :: uuid
  tr_project_id :: uuid
  tr_parent_id :: "uuid option"
  tr_reporter_id :: uuid
  tr_assignee_id :: "uuid option"
  tr_title :: pystr
  tr_description :: "pystr option"
  tr_status :: task_status
  tr_priority :: task_priority
  tr_due_date :: "instant option"
  tr_version_id :: int
  tr_created_at :: instant
  tr_updated_at :: instant

definition task_response :: "task \<Rightarrow> task_response" where
  "task_response t =
     \<lparr>tr_id = t_id t, tr_organization_id = t_organization_id t, tr_project_id = t_project_id t,
      tr_parent_id = t_parent_id t, tr_reporter_id = t_reporter_id t, tr_assignee_id = t_assignee_id t,
      tr_title = t_title t, tr_description = t_description t, tr_status = t_status t,
      tr_priority = t_priority t, tr_due_date = t_due_date t, tr_version_id = t_version_id t,
      tr_created_at = t_created_at t, tr_updated_at = t_updated_at t\<rparr>"

record 'a offset_page =
  op_items :: "'a list"
  op_total :: nat
  op_page :: nat
  op_page_size :: nat
  op_total_pages :: nat

section \<open>Handlers\<close>

definition create_task_handler ::
  "row_stamp \<Rightarrow> audit_stamp \<Rightarrow> task_create_payload \<Rightarrow> tenant_context \<Rightarrow> ('r, 'z, task_response) app" where
  "create_task_handler st ast payload ctx =
     bindE (create_task st ast (ctx_organization_id ctx) (tc_project_id payload) (u_id (ctx_user ctx))
              (tc_title payload) (tc_description payload) (tc_priority payload) (tc_assignee_id payload)) (\<lambda>task.
     bindE (broadcast_to_room (tc_project_id payload) ''TASK_CREATED''
              (JObj [(''task_id'', JStr (uuid_str (t_id task))), (''title'', JStr (t_title task)),
                     (''priority'', JStr (task_priority_value (t_priority task))),
                     (''status'', JStr (task_status_value (t_status task)))])) (\<lambda>_.
     returnE (task_response task)))"

text \<open>\<open>math.ceil(total / page_size) if total > 0 else 0\<close>.\<close>

definition total_pages :: "nat \<Rightarrow> nat \<Rightarrow> nat" where
  "total_pages n page_size = (if 0 < n then (n + page_size - 1) div page_size else 0)"

definition list_tasks_offset_handler ::
  "(task list \<Rightarrow> task list) \<Rightarrow> task_filter_params \<Rightarrow> nat \<Rightarrow> nat \<Rightarrow> tenant_context \<Rightarrow> ('z, task_response offset_page) tx" where
  "list_tasks_offset_handler scan filters page page_size ctx =
     bindE (list_tasks_offset scan (ctx_organization_id ctx) (filters\<lparr>tf_reporter_id := None\<rparr>)
              ((page - 1) * page_size) page_size) (\<lambda>(items, n).
     returnE \<lparr>op_items = map task_response items, op_total = n, op_page = page,
              op_page_size = page_size, op_total_pages = total_pages n page_size\<rparr>)"

definition task_not_found :: "uuid \<Rightarrow> exn" where
  "task_not_found task_id = EntityNotFoundException ''Task'' (uuid_str task_id)"

definition get_task_handler :: "uuid \<Rightarrow> tenant_context \<Rightarrow> ('z, task_response) tx" where
  "get_task_handler task_id ctx =
     bindE (tenant_get_by_id Task (ctx_organization_id ctx) task_id False) (\<lambda>found.
     bindE (some_or_raise found (task_not_found task_id)) (\<lambda>task.
     returnE (task_response task)))"

text \<open>The assignments of the field update, then the version.\<close>

definition apply_task_update :: "task_update_payload \<Rightarrow> task \<Rightarrow> task" where
  "apply_task_update payload t =
     (let t = (case tu_title payload of Some x \<Rightarrow> t\<lparr>t_title := py_strip x\<rparr> | None \<Rightarrow> t);
          t = (case tu_description payload of Some x \<Rightarrow> t\<lparr>t_description := Some x\<rparr> | None \<Rightarrow> t);
          t = (case tu_priority payload of Some x \<Rightarrow> t\<lparr>t_priority := x\<rparr> | None \<Rightarrow> t);
          t = (case tu_assignee_id payload of Some x \<Rightarrow> t\<lparr>t_assignee_id := Some x\<rparr> | None \<Rightarrow> t);
          t = (case tu_due_date payload of Some x \<Rightarrow> t\<lparr>t_due_date := Some x\<rparr> | None \<Rightarrow> t)
      in t\<lparr>t_version_id := t_version_id t + 1\<rparr>)"

definition update_task_handler ::
  "instant \<Rightarrow> audit_stamp \<Rightarrow> uuid \<Rightarrow> task_update_payload \<Rightarrow> tenant_context \<Rightarrow> ('r, 'z, task_response) app" where
  "update_task_handler now ast task_id payload ctx =
     (case tu_status payload of
        Some new_status \<Rightarrow>
          bindE (update_task_status_occ now ast (ctx_organization_id ctx) task_id (u_id (ctx_user ctx))
                   new_status (tu_expected_version payload)) (\<lambda>updated_task.
          bindE (broadcast_to_room (t_project_id updated_task) ''TASK_UPDATED''
                   (JObj [(''task_id'', JStr (uuid_str task_id)),
                          (''status'', JStr (task_status_value (t_status updated_task))),
                          (''version_id'', JInt (t_version_id updated_task))])) (\<lambda>_.
          returnE (task_response updated_task)))
      | None \<Rightarrow>
          bindE (tenant_get_by_id Task (ctx_organization_id ctx) task_id False) (\<lambda>found.
          bindE (some_or_raise found (task_not_found task_id)) (\<lambda>task.
          bindE (raise_if (t_version_id task \<noteq> tu_expected_version payload)
                   (EntityConflictException ''Task was modified by another concurrent transaction.'')) (\<lambda>_.
          bindE (flush_dirty Task now (apply_task_update payload task)) (\<lambda>task.
          bindE commit (\<lambda>_.
          bindE (broadcast_to_room (t_project_id task) ''TASK_UPDATED''
                   (JObj [(''task_id'', JStr (uuid_str task_id)), (''title'', JStr (t_title task)),
                          (''priority'', JStr (task_priority_value (t_priority task))),
                          (''version_id'', JInt (t_version_id task))])) (\<lambda>_.
          returnE (task_response task))))))))"

definition delete_task_handler ::
  "instant \<Rightarrow> instant \<Rightarrow> uuid \<Rightarrow> tenant_context \<Rightarrow> ('r, 'z, unit) app" where
  "delete_task_handler db_now now task_id ctx =
     bindE (tenant_get_by_id Task (ctx_organization_id ctx) task_id False) (\<lambda>found.
     bindE (some_or_raise found (task_not_found task_id)) (\<lambda>task.
     bindE (soft_delete Task (ctx_organization_id ctx) db_now now task_id) (\<lambda>success.
     bindE (raise_if (\<not> success) (task_not_found task_id)) (\<lambda>_.
     bindE commit (\<lambda>_.
     broadcast_to_room (t_project_id task) ''TASK_DELETED'' (JObj [(''task_id'', JStr (uuid_str task_id))]))))))"

section \<open>Requests\<close>

text \<open>A request: its own session, the dependency chain, then the handler.\<close>

definition request ::
  "jwt_api \<Rightarrow> org_role \<Rightarrow> pystr \<Rightarrow> uuid \<Rightarrow> (tenant_context \<Rightarrow> ('r, 'z, 'a) app) \<Rightarrow> ('r, 'z, 'a) app" where
  "request J min_role token x_organization_id handler =
     with_db_session (bindE (authorize J min_role token x_organization_id) handler)"

definition post_task ::
  "jwt_api \<Rightarrow> row_stamp \<Rightarrow> audit_stamp \<Rightarrow> pystr \<Rightarrow> uuid \<Rightarrow> task_create_payload \<Rightarrow> ('r, 'z, task_response) app" where
  "post_task J st ast token org payload = request J MEMBER token org (create_task_handler st ast payload)"

definition list_tasks ::
  "jwt_api \<Rightarrow> (task list \<Rightarrow> task list) \<Rightarrow> pystr \<Rightarrow> uuid \<Rightarrow> task_filter_params \<Rightarrow> nat \<Rightarrow> nat \<Rightarrow> ('r, 'z, task_response offset_page) app" where
  "list_tasks J scan token org filters page page_size =
     request J VIEWER token org (list_tasks_offset_handler scan filters page page_size)"

definition get_task :: "jwt_api \<Rightarrow> pystr \<Rightarrow> uuid \<Rightarrow> uuid \<Rightarrow> ('r, 'z, task_response) app" where
  "get_task J token org task_id = request J VIEWER token org (get_task_handler task_id)"

definition patch_task ::
  "jwt_api \<Rightarrow> instant \<Rightarrow> audit_stamp \<Rightarrow> pystr \<Rightarrow> uuid \<Rightarrow> uuid \<Rightarrow> task_update_payload \<Rightarrow> ('r, 'z, task_response) app" where
  "patch_task J now ast token org task_id payload =
     request J MEMBER token org (update_task_handler now ast task_id payload)"

definition delete_task ::
  "jwt_api \<Rightarrow> instant \<Rightarrow> instant \<Rightarrow> pystr \<Rightarrow> uuid \<Rightarrow> uuid \<Rightarrow> ('r, 'z, unit) app" where
  "delete_task J db_now now token org task_id =
     request J MEMBER token org (delete_task_handler db_now now task_id)"

section \<open>Who gets in\<close>

lemma get_current_user_state:
  "snd (get_current_user J token s) = s\<lparr>clock := \<lambda>n. clock s (Suc n)\<rparr>"
  by (simp add: get_current_user_def decode_jwt_token_def app_defs exec_simps base_get_by_id_def
      split: sum.splits option.splits)

lemma require_role_state: "snd (require_role r u org s) = s"
  by (simp add: require_role_def get_membership_def select_where_def exec_simps split: sum.splits option.splits)

lemma authorize_state: "snd (authorize J r token org s) = s\<lparr>clock := \<lambda>n. clock s (Suc n)\<rparr>"
  using get_current_user_state [of J token s]
  by (auto simp: authorize_def bindE_def require_role_state split: prod.splits sum.splits)

lemma authorize_ok:
  assumes "db_wf (work s)" and "fst (authorize J r token org s) = Inr ctx"
  shows "ctx_organization_id ctx = org \<and> r \<le> ctx_role ctx \<and>
    (\<exists>m. membership org (u_id (ctx_user ctx)) (work s) = Some m \<and> m_role m = ctx_role ctx)"
proof -
  obtain u s1 where u: "get_current_user J token s = (Inr u, s1)" "fst (require_role r u org s1) = Inr ctx"
    using assms(2) by (auto simp: authorize_def bindE_def split: prod.splits sum.splits)
  then have ok: "require_role r u org s1 = (Inr ctx, s1)"
    using require_role_state [of r u org s1] by (simp add: prod_eq_iff)
  have "s1 = s\<lparr>clock := \<lambda>n. clock s (Suc n)\<rparr>"
    using get_current_user_state [of J token s] u(1) by simp
  with ok assms(1) show ?thesis
    by (auto simp: require_role_ok)
qed

text \<open>A request on its own session: refused with the error of the chain, or handled.\<close>

definition opened :: "('r, 'z) app_state_scheme \<Rightarrow> ('r, 'z) app_state_scheme" where
  "opened s = s\<lparr>work := committed s, clock := \<lambda>n. clock s (Suc n)\<rparr>"

lemma request_cases:
  "request J r token org handler s =
     (case fst (authorize J r token org (s\<lparr>work := committed s\<rparr>)) of
        Inl e \<Rightarrow> (Inl e, opened s)
      | Inr ctx \<Rightarrow> (case handler ctx (opened s) of (x, s') \<Rightarrow> (x, rollback s')))"
  using authorize_state [of J r token org "s\<lparr>work := committed s\<rparr>"]
  by (auto simp: request_def with_db_session_def bindE_def opened_def rollback_def split: prod.splits sum.splits)

lemma opened_simps [simp]:
  "committed (opened s) = committed s" "work (opened s) = committed s" "commit_fault (opened s) = commit_fault s"
  "redis_down (opened s) = redis_down s" "published (opened s) = published s" "redis (opened s) = redis s"
  by (simp_all add: opened_def)

lemma request_ok:
  assumes "db_wf (committed s)" and "request J r token org handler s = (Inr x, s')"
  shows "\<exists>ctx s1. handler ctx (opened s) = (Inr x, s1) \<and> s' = rollback s1 \<and> ctx_organization_id ctx = org \<and>
    r \<le> ctx_role ctx \<and> (\<exists>m. membership org (u_id (ctx_user ctx)) (committed s) = Some m \<and> m_role m = ctx_role ctx)"
proof -
  obtain ctx where ctx: "fst (authorize J r token org (s\<lparr>work := committed s\<rparr>)) = Inr ctx"
    "handler ctx (opened s) = (Inr x, snd (handler ctx (opened s)))" "s' = rollback (snd (handler ctx (opened s)))"
    using assms(2) by (auto simp: request_cases split: sum.splits prod.splits)
  moreover have "db_wf (work (s\<lparr>work := committed s\<rparr>))" using assms(1) by simp
  ultimately show ?thesis
    using authorize_ok [of "s\<lparr>work := committed s\<rparr>" J r token org ctx] by auto
qed

lemma request_committed:
  assumes "\<And>ctx. ctx_organization_id ctx = org \<Longrightarrow> I (committed (snd (handler ctx (opened s))))"
    and "I (committed s)" and "db_wf (committed s)"
  shows "I (committed (snd (request J r token org handler s)))"
proof (cases "fst (authorize J r token org (s\<lparr>work := committed s\<rparr>))")
  case (Inr ctx)
  then have "ctx_organization_id ctx = org"
    using authorize_ok [of "s\<lparr>work := committed s\<rparr>" J r token org ctx] assms(3) by simp
  with Inr assms(1) [of ctx] show ?thesis
    by (auto simp: request_cases rollback_def split: prod.splits)
qed (use assms(2) in \<open>simp add: request_cases\<close>)

section \<open>Invariants of the handlers\<close>

lemma request_wf [preserve_intros]:
  "(\<And>ctx. preserves session_wf (handler ctx)) \<Longrightarrow> preserves session_wf (request J r token org handler)"
  unfolding request_def by (intro preserve_intros) simp_all

lemma task_handlers_wf [preserve_intros]:
  "preserves session_wf (create_task_handler st ast p ctx)"
  "preserves session_wf (update_task_handler now ast tid u ctx)"
  "preserves session_wf (delete_task_handler db_now now tid ctx)"
  unfolding create_task_handler_def update_task_handler_def delete_task_handler_def
  by (intro preserve_intros tasks_tbl.flush_dirty_wf tasks_tbl.soft_delete_wf session_frame_wf)+

lemma preserves_task_queries [preserve_intros]:
  "preserves I (get_task_handler tid ctx)"
  "preserves I (list_tasks_offset_handler scan filters page psize ctx)"
  unfolding get_task_handler_def list_tasks_offset_handler_def by (auto intro!: preserve_intros)

text \<open>Reads leave the committed database as it is.\<close>

lemma task_reads_committed:
  "committed (snd (get_task J token org tid s)) = committed s"
  "committed (snd (list_tasks J scan token org filters page psize s)) = committed s"
proof -
  have "preserves (\<lambda>s'. committed s' = committed s) (get_task J token org tid)"
    "preserves (\<lambda>s'. committed s' = committed s) (list_tasks J scan token org filters page psize)"
    unfolding get_task_def list_tasks_def request_def
    by (intro with_db_session_preserves preserve_intros; simp)+
  then show "committed (snd (get_task J token org tid s)) = committed s"
    "committed (snd (list_tasks J scan token org filters page psize s)) = committed s"
    by (auto dest: preservesD)
qed

section \<open>The field update on every branch\<close>

lemma apply_task_update_fields [simp]:
  "t_id (apply_task_update u t) = t_id t"
  "t_organization_id (apply_task_update u t) = t_organization_id t"
  "t_project_id (apply_task_update u t) = t_project_id t"
  "t_parent_id (apply_task_update u t) = t_parent_id t"
  "t_reporter_id (apply_task_update u t) = t_reporter_id t"
  "t_status (apply_task_update u t) = t_status t"
  "t_version_id (apply_task_update u t) = t_version_id t + 1"
  "t_is_deleted (apply_task_update u t) = t_is_deleted t"
  by (simp_all add: apply_task_update_def Let_def split: option.splits)

lemma apply_task_update_neq: "t \<noteq> apply_task_update u t"
  by (metis apply_task_update_fields(7) add_cancel_left_right zero_neq_one)

lemma update_task_handler_keeps_tenant:
  assumes "b \<noteq> ctx_organization_id ctx" and wf: "db_wf (work s)" and keep: "keeps_tenant b d0 s"
  shows "keeps_tenant b d0 (snd (update_task_handler now ast tid u ctx s))"
proof (cases "tu_status u")
  case (Some ns)
  have "preserves (keeps_tenant b d0) (update_task_handler now ast tid u ctx)"
    unfolding update_task_handler_def Some
    by (simp, intro preserve_intros session_frame_keeps) (rule assms)
  then show ?thesis using keep by (rule preservesD)
next
  case None
  show ?thesis
    unfolding update_task_handler_def None option.case
    by (intro tasks_tbl.guarded_flush_keeps_tenant assms preserve_intros session_frame_keeps) simp_all
qed

lemma delete_task_handler_keeps_tenant:
  "b \<noteq> ctx_organization_id ctx \<Longrightarrow> preserves (keeps_tenant b d0) (delete_task_handler db_now now tid ctx)"
  unfolding delete_task_handler_def
  by (intro preserve_intros tasks_tbl.soft_delete_keeps_tenant session_frame_keeps)

lemma create_task_handler_keeps_tenant:
  "b \<noteq> ctx_organization_id ctx \<Longrightarrow> preserves (keeps_tenant b d0) (create_task_handler st ast p ctx)"
  unfolding create_task_handler_def
  by (intro preserve_intros session_frame_keeps)

lemma request_keeps_tenant:
  assumes wf: "db_wf (committed s)"
    and "\<And>ctx s'. ctx_organization_id ctx = org \<Longrightarrow> db_wf (work s') \<Longrightarrow> keeps_tenant b d0 s' \<Longrightarrow>
      keeps_tenant b d0 (snd (handler ctx s'))"
    and "tenant_view b (committed s) = tenant_view b d0"
  shows "tenant_view b (committed (snd (request J r token org handler s))) = tenant_view b d0"
proof (rule request_committed [where I = "\<lambda>d. tenant_view b d = tenant_view b d0"])
  fix ctx :: tenant_context
  assume "ctx_organization_id ctx = org"
  then have "keeps_tenant b d0 (snd (handler ctx (opened s)))"
    by (rule assms(2)) (use assms in \<open>simp_all add: keeps_tenant_def\<close>)
  then show "tenant_view b (committed (snd (handler ctx (opened s)))) = tenant_view b d0"
    by (simp add: keeps_tenant_def)
qed (use assms in simp_all)

section \<open>Deleting a task\<close>

definition deleted_task :: "instant \<Rightarrow> instant \<Rightarrow> task \<Rightarrow> task" where
  "deleted_task db_now now t = t\<lparr>t_is_deleted := True, t_deleted_at := Some db_now, t_updated_at := now\<rparr>"

definition live_match :: "uuid \<Rightarrow> uuid \<Rightarrow> task \<Rightarrow> bool" where
  "live_match org tid t \<longleftrightarrow> t_id t = tid \<and> t_organization_id t = org \<and> \<not> t_is_deleted t"

definition delete_in :: "instant \<Rightarrow> instant \<Rightarrow> uuid \<Rightarrow> uuid \<Rightarrow> task list \<Rightarrow> task list" where
  "delete_in db_now now org tid ts = map (\<lambda>t. if live_match org tid t then deleted_task db_now now t else t) ts"

lemma live_filter:
  assumes "db_wf d"
  shows "filter (live_match org tid) (tbl_tasks d) = (case visible_task org tid d of Some t \<Rightarrow> [t] | None \<Rightarrow> [])"
proof (cases "visible_task org tid d")
  case None
  then have "filter (live_match org tid) (tbl_tasks d) = []"
    by (auto simp: visible_task_def find_None_iff live_match_def filter_empty_conv)
  with None show ?thesis by simp
next
  case (Some t)
  note t = visible_task_Some [OF Some]
  have "filter (live_match org tid) (tbl_tasks d) = [t]"
    using tasks_tbl.pk_distinct [OF assms] t
    by (intro filter_singleton [where f = t_id]) (auto simp: live_match_def)
  with Some show ?thesis by simp
qed

lemma soft_delete_task:
  assumes wf: "db_wf (work s)"
  shows "soft_delete Task org db_now now tid s =
    (Inr (visible_task org tid (work s) \<noteq> None),
     s\<lparr>work := (work s)\<lparr>tbl_tasks := delete_in db_now now org tid (tbl_tasks (work s))\<rparr>\<rparr>)"
proof -
  have P: "(\<lambda>r. t_id r = tid \<and> t_organization_id r = org \<and> \<not> t_is_deleted r) = live_match org tid"
    by (simp add: live_match_def fun_eq_iff)
  have f: "(\<lambda>r. r\<lparr>t_is_deleted := True, t_deleted_at := Some db_now, t_updated_at := now\<rparr>) = deleted_task db_now now"
    by (simp add: deleted_task_def fun_eq_iff)
  have "violation Task ((work s)\<lparr>tbl_tasks := delete_in db_now now org tid (tbl_tasks (work s))\<rparr>)
      (deleted_task db_now now t) = None" if "visible_task org tid (work s) = Some t" for t
  proof (rule task_update_no_violation [OF wf, of t])
    show "t \<in> set (tbl_tasks (work s))" using visible_task_Some [OF that] by simp
    have "violation Task (work s) t = None"
      using tasks_tbl.wf_table [OF wf] visible_task_Some [OF that] by (simp add: table_ok_def)
    then show "fits_int4 (t_version_id (deleted_task db_now now t))"
      by (auto simp: violation_def Task_def deleted_task_def split: if_splits)
  qed (auto simp: deleted_task_def delete_in_def)
  then have "update_where Task (live_match org tid) (deleted_task db_now now) s =
    (Inr (map (deleted_task db_now now) (filter (live_match org tid) (tbl_tasks (work s)))),
     s\<lparr>work := (work s)\<lparr>tbl_tasks := delete_in db_now now org tid (tbl_tasks (work s))\<rparr>\<rparr>)"
    by (auto simp: update_where_def live_filter [OF wf] delete_in_def [symmetric] Let_def List.map_filter_simps
        split: option.splits)
  then show ?thesis
    by (simp add: soft_delete_def P f bindE_def live_filter [OF wf] liftE_def returnE_def split: option.splits)
qed

lemma visible_after_delete:
  "visible_task org tid (d\<lparr>tbl_tasks := delete_in db_now now org tid ts\<rparr>) = None"
  by (induction ts) (auto simp: visible_task_def delete_in_def live_match_def deleted_task_def)

lemma delete_task_handler_eq:
  assumes wf: "db_wf (work s)"
  shows "delete_task_handler db_now now tid ctx s =
    (case visible_task (ctx_organization_id ctx) tid (work s) of
       None \<Rightarrow> (Inl (task_not_found tid), s)
     | Some t \<Rightarrow>
         let d = (work s)\<lparr>tbl_tasks := delete_in db_now now (ctx_organization_id ctx) tid (tbl_tasks (work s))\<rparr>
         in case commit_fault s of
              Some e \<Rightarrow> (Inl e, s\<lparr>work := d\<rparr>)
            | None \<Rightarrow> broadcast_to_room (t_project_id t) ''TASK_DELETED'' (JObj [(''task_id'', JStr (uuid_str tid))])
                (s\<lparr>work := d, committed := d\<rparr>))"
  by (auto simp: delete_task_handler_def tenant_get_task [OF wf] soft_delete_task [OF wf] commit_def exec_simps
      Let_def split: option.splits)

lemma get_task_handler_eq:
  "db_wf (work s) \<Longrightarrow> get_task_handler tid ctx s =
     (case visible_task (ctx_organization_id ctx) tid (work s) of
        None \<Rightarrow> (Inl (task_not_found tid), s)
      | Some t \<Rightarrow> (Inr (task_response t), s))"
  by (simp add: get_task_handler_def tenant_get_task exec_simps split: option.splits)

text \<open>After a deletion the tenant no longer sees the task under its id.\<close>

lemma delete_task_hidden:
  assumes wf: "db_wf (committed s)" and "delete_task J db_now now token org tid s = (Inr (), s')"
  shows "visible_task org tid (committed s') = None"
proof -
  obtain ctx s1 where "delete_task_handler db_now now tid ctx (opened s) = (Inr (), s1)" "s' = rollback s1"
      "ctx_organization_id ctx = org"
    using request_ok [OF wf] assms(2) by (fastforce simp: delete_task_def)
  then show ?thesis
    using wf visible_after_delete
    by (auto simp: delete_task_handler_eq Let_def broadcast_to_room_def rollback_def
        split: option.splits if_splits)
qed

section \<open>The field update\<close>

definition updated_task :: "instant \<Rightarrow> task_update_payload \<Rightarrow> task \<Rightarrow> task" where
  "updated_task now u t = (apply_task_update u t)\<lparr>t_updated_at := now\<rparr>"

definition replace_task :: "task \<Rightarrow> task list \<Rightarrow> task list" where
  "replace_task t' ts = map (\<lambda>q. if t_id q = t_id t' then t' else q) ts"

lemma task_field_update_violation:
  assumes wf: "db_wf d" and t: "t \<in> set (tbl_tasks d)" and valid: "valid_task_update u"
    and "fits_int4 (t_version_id t + 1)" and "opt_ref (tu_assignee_id u) (user_ids d)"
  shows "violation Task (d\<lparr>tbl_tasks := replace_task (updated_task now u t) (tbl_tasks d)\<rparr>) (updated_task now u t) = None"
proof -
  have v: "violation Task d t = None"
    using tasks_tbl.wf_table [OF wf] t by (simp add: table_ok_def)
  have "length (t_title (updated_task now u t)) \<le> 255"
    using v valid length_py_strip
    by (auto simp: updated_task_def apply_task_update_def violation_def Task_def fits_def valid_task_update_def Let_def
        split: option.splits if_splits intro: le_trans)
  moreover have "opt_ref (t_assignee_id (updated_task now u t)) (user_ids d)"
    using v assms(5)
    by (auto simp: updated_task_def apply_task_update_def violation_def Task_def opt_ref_def Let_def
        split: option.splits if_splits)
  moreover have "map t_id (replace_task (updated_task now u t) (tbl_tasks d)) = map t_id (tbl_tasks d)"
    by (simp add: replace_task_def)
  then have "t_id ` set (replace_task (updated_task now u t) (tbl_tasks d)) = task_ids d"
    unfolding task_ids_def by (metis list.set_map)
  ultimately show ?thesis
    using v assms(4)
    by (auto simp: violation_def Task_def fits_def updated_task_def key_set_defs split: if_splits)
qed

lemma update_task_handler_fields:
  assumes wf: "db_wf (work s)" and "tu_status u = None" and valid: "valid_task_update u"
    and int4: "fits_int4 (tu_expected_version u + 1)" and ref: "opt_ref (tu_assignee_id u) (user_ids (work s))"
  shows "update_task_handler now ast tid u ctx s =
    (case visible_task (ctx_organization_id ctx) tid (work s) of
       None \<Rightarrow> (Inl (task_not_found tid), s)
     | Some t \<Rightarrow>
         if t_version_id t \<noteq> tu_expected_version u
         then (Inl (EntityConflictException ''Task was modified by another concurrent transaction.''), s)
         else (let t' = updated_task now u t;
                   d = (work s)\<lparr>tbl_tasks := replace_task t' (tbl_tasks (work s))\<rparr>
               in case commit_fault s of
                    Some e \<Rightarrow> (Inl e, s\<lparr>work := d\<rparr>)
                  | None \<Rightarrow> bindE (broadcast_to_room (t_project_id t) ''TASK_UPDATED''
                      (JObj [(''task_id'', JStr (uuid_str tid)), (''title'', JStr (t_title t')),
                             (''priority'', JStr (task_priority_value (t_priority t'))),
                             (''version_id'', JInt (t_version_id t'))]))
                      (\<lambda>_. returnE (task_response t')) (s\<lparr>work := d, committed := d\<rparr>)))"
proof (cases "visible_task (ctx_organization_id ctx) tid (work s)")
  case None
  then show ?thesis
    using assms(2) by (simp add: update_task_handler_def tenant_get_task [OF wf] exec_simps)
next
  case (Some t)
  note t = visible_task_Some [OF Some]
  let ?t = "updated_task now u t"
  let ?d' = "(work s)\<lparr>tbl_tasks := replace_task ?t (tbl_tasks (work s))\<rparr>"
  show ?thesis
  proof (cases "t_version_id t = tu_expected_version u")
    case False
    with Some assms(2) show ?thesis
      by (simp add: update_task_handler_def tenant_get_task [OF wf] exec_simps)
  next
    case True
    have "violation Task ?d' ?t = None"
      by (rule task_field_update_violation [OF wf]) (use t True valid int4 ref in simp_all)
    then have "flush_dirty Task now (apply_task_update u t) s = (Inr ?t, s\<lparr>work := ?d'\<rparr>)"
      using t apply_task_update_neq [of t u]
      by (simp add: tasks_tbl.flush_dirty_eq [OF wf, of t] updated_task_def replace_task_def Let_def cong: if_cong)
    then show ?thesis
      using Some assms(2) True
      by (simp add: update_task_handler_def tenant_get_task [OF wf] bindE_def some_or_raise_def raise_if_def
          commit_def Let_def updated_task_def split: option.splits)
  qed
qed

end
