(* ===== verification/ProjectService.thy ===== *)
theory ProjectService
  imports AuditTrail
begin

text \<open>
  \<open>ProjectRepository\<close> and \<open>ProjectService\<close> (\<open>app/repositories/project.py\<close>,
  \<open>app/services/project.py\<close>): project keys are normalised and unique per tenant, and
  updates compare the expected version before they write.
\<close>

record project_create =
  pc_name :: pystr
  pc_key :: pystr
  pc_description :: "pystr option"
  pc_team_id :: "uuid option"

record project_update =
  pu_name :: "pystr option"
  pu_description :: "pystr option"
  pu_team_id :: "uuid option"
  pu_is_archived :: "bool option"
  pu_expected_version :: int

text \<open>The bounds the schemas declare (\<open>app/schemas/project.py\<close>).\<close>

definition length_between :: "nat \<Rightarrow> nat \<Rightarrow> pystr \<Rightarrow> bool" where
  "length_between lo hi s \<longleftrightarrow> lo \<le> length s \<and> length s \<le> hi"

definition valid_project_create :: "project_create \<Rightarrow> bool" where
  "valid_project_create p \<longleftrightarrow> length_between 2 100 (pc_name p) \<and> length_between 2 10 (pc_key p)"

definition valid_project_update :: "project_update \<Rightarrow> bool" where
  "valid_project_update p \<longleftrightarrow>
     (case pu_name p of None \<Rightarrow> True | Some n \<Rightarrow> length_between 2 100 n) \<and> 1 \<le> pu_expected_version p"

text \<open>\<open>key.upper().strip()\<close>.\<close>

definition clean_key :: "pystr \<Rightarrow> pystr" where
  "clean_key key = py_strip (py_upper key)"

lemma clean_key_idem [simp]: "clean_key (clean_key k) = clean_key k"
  by (simp add: clean_key_def py_strip_upper)

lemma length_clean_key: "length (clean_key k) \<le> length k"
  unfolding clean_key_def using length_py_strip [of "py_upper k"] by simp

definition get_by_key :: "uuid \<Rightarrow> pystr \<Rightarrow> ('z, project option) tx" where
  "get_by_key organization_id key =
     bindE (select_where Project (\<lambda>p. p_organization_id p = organization_id \<and> p_key p = clean_key key))
       (\<lambda>rs. liftE (scalar_one_or_none rs))"

definition key_conflict :: "pystr \<Rightarrow> exn" where
  "key_conflict key =
     EntityConflictException (''Project with key '' @ [CHR 0x27] @ key @ [CHR 0x27] @
       '' already exists in this organization.'')"

definition create_project ::
  "row_stamp \<Rightarrow> audit_stamp \<Rightarrow> uuid \<Rightarrow> project_create \<Rightarrow> uuid option \<Rightarrow> ('z, project) tx" where
  "create_project st ast organization_id payload actor_id =
     transaction
       (let key = clean_key (pc_key payload) in
        bindE (get_by_key organization_id key) (\<lambda>existing.
        bindE (raise_if (existing \<noteq> None) (key_conflict key)) (\<lambda>_.
        bindE (tenant_create Project organization_id
          \<lparr>p_id = st_id st, p_organization_id = organization_id, p_team_id = pc_team_id payload,
           p_name = py_strip (pc_name payload), p_key = key, p_description = pc_description payload,
           p_is_archived = False, p_version_id = 1, p_created_at = st_created_at st,
           p_updated_at = st_updated_at st\<rparr>) (\<lambda>project.
        bindE (add_audit (new_audit ast organization_id actor_id ''Project'' (p_id project) AUDIT_CREATE None
          (Some (JObj [(''name'', JStr (p_name project)), (''key'', JStr (p_key project))])))) (\<lambda>_.
        returnE project)))))"

definition project_state :: "project \<Rightarrow> json" where
  "project_state p =
     JObj [(''name'', JStr (p_name p)), (''description'', json_opt_str (p_description p)),
           (''is_archived'', JBool (p_is_archived p)), (''version_id'', JInt (p_version_id p))]"

definition project_conflict :: "uuid \<Rightarrow> int \<Rightarrow> int \<Rightarrow> exn" where
  "project_conflict project_id expected_version current =
     EntityConflictException (''Conflict updating Project '' @ [CHR 0x27] @ uuid_str project_id @ [CHR 0x27] @
       ''. Expected version '' @ py_str_int expected_version @
       '', but record was modified by another concurrent transaction (current version: '' @
       py_str_int current @ '').'')"

text \<open>The assignments to the loaded object: given fields, then the version.\<close>

definition apply_project_update :: "project_update \<Rightarrow> project \<Rightarrow> project" where
  "apply_project_update payload p =
     (let p = (case pu_name payload of Some n \<Rightarrow> p\<lparr>p_name := py_strip n\<rparr> | None \<Rightarrow> p);
          p = (case pu_description payload of Some x \<Rightarrow> p\<lparr>p_description := Some x\<rparr> | None \<Rightarrow> p);
          p = (case pu_team_id payload of Some x \<Rightarrow> p\<lparr>p_team_id := Some x\<rparr> | None \<Rightarrow> p);
          p = (case pu_is_archived payload of Some x \<Rightarrow> p\<lparr>p_is_archived := x\<rparr> | None \<Rightarrow> p)
      in p\<lparr>p_version_id := p_version_id p + 1\<rparr>)"

definition update_project ::
  "instant \<Rightarrow> audit_stamp \<Rightarrow> uuid \<Rightarrow> uuid \<Rightarrow> project_update \<Rightarrow> uuid option \<Rightarrow> ('z, project) tx" where
  "update_project now ast organization_id project_id payload actor_id =
     transaction
       (bindE (tenant_get_by_id Project organization_id project_id False) (\<lambda>found.
        bindE (some_or_raise found (EntityNotFoundException ''Project'' (uuid_str project_id))) (\<lambda>project.
        bindE (raise_if (p_version_id project \<noteq> pu_expected_version payload)
                 (project_conflict project_id (pu_expected_version payload) (p_version_id project))) (\<lambda>_.
        let before_state = project_state project in
        bindE (flush_dirty Project now (apply_project_update payload project)) (\<lambda>project.
        bindE (add_audit (new_audit ast organization_id actor_id ''Project'' (p_id project) AUDIT_UPDATE
                 (Some before_state) (Some (project_state project)))) (\<lambda>_.
        returnE project))))))"

section \<open>Invariants\<close>

lemma apply_project_update_fields [simp]:
  "p_id (apply_project_update u p) = p_id p"
  "p_organization_id (apply_project_update u p) = p_organization_id p"
  "p_key (apply_project_update u p) = p_key p"
  "p_version_id (apply_project_update u p) = p_version_id p + 1"
  "p_created_at (apply_project_update u p) = p_created_at p"
  by (simp_all add: apply_project_update_def Let_def split: option.splits)

lemma preserves_get_by_key [preserve_intros]: "preserves I (get_by_key org key)"
  unfolding get_by_key_def by (intro preserve_intros)

lemma create_project_wf [preserve_intros]:
  "preserves session_wf (create_project st ast org payload actor)"
  unfolding create_project_def Let_def by (intro preserve_intros projects_tbl.tenant_create_wf)

lemma update_project_wf [preserve_intros]:
  "preserves session_wf (update_project now ast org pid payload actor)"
  unfolding update_project_def Let_def by (intro preserve_intros projects_tbl.flush_dirty_wf)

lemma create_project_keeps_tenant [preserve_intros]:
  "b \<noteq> org \<Longrightarrow> preserves (keeps_tenant b d0) (create_project st ast org payload actor)"
  unfolding create_project_def Let_def
  by (intro preserve_intros projects_tbl.tenant_create_keeps_tenant add_audit_keeps_tenant) simp_all

section \<open>Reads by key and by id\<close>

definition project_with_key :: "uuid \<Rightarrow> pystr \<Rightarrow> database \<Rightarrow> project option" where
  "project_with_key org k d = find (\<lambda>p. p_organization_id p = org \<and> p_key p = k) (tbl_projects d)"

lemma project_keys_distinct:
  assumes "db_wf d" and "p \<in> set (tbl_projects d)" and "q \<in> set (tbl_projects d)"
    and "p_organization_id p = p_organization_id q" and "p_key p = p_key q"
  shows "p = q"
proof -
  have ok: "table_ok Project d" by (rule projects_tbl.wf_table [OF assms(1)])
  then have "violation Project d q = None" using assms(3) by (simp add: table_ok_def)
  then have "p_id p = p_id q"
    using assms(2,4,5) by (auto simp: violation_def Project_def split: if_splits)
  moreover have "distinct (map p_id (tbl_projects d))"
    using projects_tbl.pk_distinct [OF assms(1)] by simp
  ultimately show ?thesis
    using assms(2,3) by (metis distinct_key_unique)
qed

lemma get_by_key_eq:
  assumes "db_wf (work s)"
  shows "get_by_key org k s = (Inr (project_with_key org (clean_key k) (work s)), s)"
proof -
  let ?P = "\<lambda>p. p_organization_id p = org \<and> p_key p = clean_key k"
  let ?F = "filter ?P (tbl_projects (work s))"
  have "distinct ?F"
    using projects_tbl.pk_distinct [OF assms] by (simp add: distinct_map)
  then have "length ?F \<le> 1"
    by (rule distinct_all_equal_length) (auto intro: project_keys_distinct [OF assms])
  then have "scalar_one_or_none ?F = Inr (project_with_key org (clean_key k) (work s))"
    unfolding project_with_key_def by (rule scalar_one_filter)
  then show ?thesis
    by (simp add: get_by_key_def select_where_def exec_simps)
qed

definition visible_project :: "uuid \<Rightarrow> uuid \<Rightarrow> database \<Rightarrow> project option" where
  "visible_project org pid d = find (\<lambda>p. p_id p = pid \<and> p_organization_id p = org) (tbl_projects d)"

lemma tenant_get_project:
  "db_wf (work s) \<Longrightarrow> tenant_get_by_id Project org pid incl s = (Inr (visible_project org pid (work s)), s)"
  by (cases incl) (simp_all add: projects_tbl.tenant_get_by_id_eq visible_project_def not_deleted_def)

lemma visible_project_Some:
  "visible_project org pid d = Some p \<Longrightarrow>
     p \<in> set (tbl_projects d) \<and> p_id p = pid \<and> p_organization_id p = org"
  by (auto simp: visible_project_def find_Some_iff)

section \<open>The writes on every branch\<close>

lemma wf_organization_refs:
  "db_wf d \<Longrightarrow> p \<in> set (tbl_projects d) \<Longrightarrow> p_organization_id p \<in> organization_ids d"
  using projects_tbl.wf_table by (fastforce simp: table_ok_def violation_def Project_def split: if_splits)

text \<open>The table after an update of one project, and the row it holds then.\<close>

definition updated_project :: "instant \<Rightarrow> project_update \<Rightarrow> project \<Rightarrow> project" where
  "updated_project now payload p = (apply_project_update payload p)\<lparr>p_updated_at := now\<rparr>"

definition replace_project :: "project \<Rightarrow> project list \<Rightarrow> project list" where
  "replace_project p' ps = map (\<lambda>q. if p_id q = p_id p' then p' else q) ps"

lemma project_update_violation:
  assumes wf: "db_wf d" and p: "p \<in> set (tbl_projects d)"
    and "fits_int4 (p_version_id p + 1)" and "case pu_name u of None \<Rightarrow> True | Some n \<Rightarrow> length n \<le> 100"
    and "opt_ref (pu_team_id u) (team_ids d)"
  shows "violation Project (d\<lparr>tbl_projects := replace_project (updated_project now u p) (tbl_projects d)\<rparr>)
    (updated_project now u p) = None"
proof -
  let ?p = "updated_project now u p"
  let ?d = "d\<lparr>tbl_projects := replace_project ?p (tbl_projects d)\<rparr>"
  have v: "violation Project d p = None"
    using projects_tbl.wf_table [OF wf] p by (simp add: table_ok_def)
  have fields: "p_id ?p = p_id p" "p_organization_id ?p = p_organization_id p" "p_key ?p = p_key p"
    "p_version_id ?p = p_version_id p + 1"
    by (simp_all add: updated_project_def)
  have "length (p_name ?p) \<le> 100"
    using v assms(4) length_py_strip
    by (auto simp: updated_project_def apply_project_update_def violation_def Project_def fits_def Let_def
        split: option.splits if_splits intro: le_trans)
  moreover have "opt_ref (p_team_id ?p) (team_ids d)"
    using v assms(5)
    by (auto simp: updated_project_def apply_project_update_def violation_def Project_def opt_ref_def Let_def
        split: option.splits if_splits)
  ultimately show ?thesis
    using v assms(3) fields
    by (auto simp: violation_def Project_def fits_def replace_project_def key_set_defs split: if_splits)
qed

lemma update_project_eq:
  assumes wf: "db_wf (work s)" and "commit_fault s = None"
    and name: "case pu_name u of None \<Rightarrow> True | Some n \<Rightarrow> length n \<le> 100"
    and team: "opt_ref (pu_team_id u) (team_ids (work s))" and int4: "fits_int4 (pu_expected_version u + 1)"
    and audit: "as_id ast \<notin> al_id ` set (tbl_audit_logs (work s))" "opt_ref actor (user_ids (work s))"
  shows "update_project now ast org pid u actor s =
    (case visible_project org pid (work s) of
       None \<Rightarrow> (Inl (EntityNotFoundException ''Project'' (uuid_str pid)), rollback s)
     | Some p \<Rightarrow>
         if p_version_id p \<noteq> pu_expected_version u
         then (Inl (project_conflict pid (pu_expected_version u) (p_version_id p)), rollback s)
         else (let p' = updated_project now u p;
                   a = new_audit ast org actor ''Project'' pid AUDIT_UPDATE (Some (project_state p)) (Some (project_state p'));
                   d = (work s)\<lparr>tbl_projects := replace_project p' (tbl_projects (work s)),
                                tbl_audit_logs := tbl_audit_logs (work s) @ [a]\<rparr>
               in (Inr p', s\<lparr>work := d, committed := d\<rparr>)))"
proof (cases "visible_project org pid (work s)")
  case None
  with wf show ?thesis
    by (simp add: update_project_def transaction_cases tenant_get_project exec_simps)
next
  case (Some p)
  note p = visible_project_Some [OF Some]
  show ?thesis
  proof (cases "p_version_id p = pu_expected_version u")
    case False
    with Some wf show ?thesis
      by (simp add: update_project_def transaction_cases tenant_get_project exec_simps)
  next
    case True
    let ?p = "updated_project now u p"
    let ?d' = "(work s)\<lparr>tbl_projects := replace_project ?p (tbl_projects (work s))\<rparr>"
    have "violation Project ?d' ?p = None"
      by (rule project_update_violation [OF wf]) (use p True name team int4 in simp_all)
    moreover have "p \<noteq> apply_project_update u p"
      by (metis apply_project_update_fields(4) add_cancel_left_right zero_neq_one)
    ultimately have upd: "flush_dirty Project now (apply_project_update u p) s = (Inr ?p, s\<lparr>work := ?d'\<rparr>)"
      using p by (simp add: projects_tbl.flush_dirty_eq [OF wf, of p] updated_project_def replace_project_def Let_def
          cong: if_cong)
    have "audit_writable ?d' (new_audit ast org actor ''Project'' pid AUDIT_UPDATE
        (Some (project_state p)) (Some (project_state ?p)))"
      using audit p wf_organization_refs [OF wf, of p]
      by (simp add: audit_writable_def organization_ids_def user_ids_def)
    from add_audit_ok [of "s\<lparr>work := ?d'\<rparr>", simplified, OF this]
    show ?thesis
      using Some wf True assms(2) upd p
      by (simp add: update_project_def transaction_cases tenant_get_project exec_simps Let_def updated_project_def)
  qed
qed

definition new_project :: "row_stamp \<Rightarrow> uuid \<Rightarrow> project_create \<Rightarrow> project" where
  "new_project st org u =
     \<lparr>p_id = st_id st, p_organization_id = org, p_team_id = pc_team_id u,
      p_name = py_strip (pc_name u), p_key = clean_key (pc_key u), p_description = pc_description u,
      p_is_archived = False, p_version_id = 1, p_created_at = st_created_at st,
      p_updated_at = st_updated_at st\<rparr>"

lemma new_project_no_violation:
  assumes "project_with_key org (clean_key (pc_key u)) d = None" and "valid_project_create u"
    and "org \<in> organization_ids d" and "opt_ref (pc_team_id u) (team_ids d)"
  shows "violation Project (d\<lparr>tbl_projects := tbl_projects d @ [new_project st org u]\<rparr>) (new_project st org u) = None"
proof -
  have "length (py_strip (pc_name u)) \<le> 100" "length (clean_key (pc_key u)) \<le> 10"
    using assms(2) length_py_strip [of "pc_name u"] length_clean_key [of "pc_key u"]
    by (auto simp: valid_project_create_def length_between_def)
  with assms show ?thesis
    by (auto simp: violation_def Project_def new_project_def fits_defs project_with_key_def find_None_iff
        key_set_defs)
qed

lemma create_project_eq:
  assumes wf: "db_wf (work s)" and "commit_fault s = None" and valid: "valid_project_create u"
    and refs: "org \<in> organization_ids (work s)" "opt_ref (pc_team_id u) (team_ids (work s))"
    and fresh: "st_id st \<notin> project_ids (work s)"
    and audit: "as_id ast \<notin> al_id ` set (tbl_audit_logs (work s))" "opt_ref actor (user_ids (work s))"
  shows "create_project st ast org u actor s =
    (if project_with_key org (clean_key (pc_key u)) (work s) \<noteq> None
     then (Inl (key_conflict (clean_key (pc_key u))), rollback s)
     else (let p = new_project st org u;
               a = new_audit ast org actor ''Project'' (p_id p) AUDIT_CREATE None
                     (Some (JObj [(''name'', JStr (p_name p)), (''key'', JStr (p_key p))]));
               d = (work s)\<lparr>tbl_projects := tbl_projects (work s) @ [p],
                            tbl_audit_logs := tbl_audit_logs (work s) @ [a]\<rparr>
           in (Inr p, s\<lparr>work := d, committed := d\<rparr>)))"
proof (cases "project_with_key org (clean_key (pc_key u)) (work s)")
  case (Some q)
  with wf show ?thesis
    by (simp add: create_project_def transaction_cases get_by_key_eq exec_simps Let_def)
next
  case None
  let ?p = "new_project st org u"
  let ?d' = "(work s)\<lparr>tbl_projects := tbl_projects (work s) @ [?p]\<rparr>"
  have "violation Project ?d' ?p = None"
    by (rule new_project_no_violation [OF None valid refs])
  then have ins: "tenant_create Project org ?p s = (Inr ?p, s\<lparr>work := ?d'\<rparr>)"
    using fresh
    by (simp add: tenant_create_def base_create_def insert_row_def Let_def new_project_def project_ids_def)
  have "audit_writable ?d' (new_audit ast org actor ''Project'' (p_id ?p) AUDIT_CREATE None
      (Some (JObj [(''name'', JStr (p_name ?p)), (''key'', JStr (p_key ?p))])))"
    using audit refs by (simp add: audit_writable_def organization_ids_def user_ids_def)
  from add_audit_ok [of "s\<lparr>work := ?d'\<rparr>", simplified, OF this] ins None wf assms(2)
  show ?thesis
    by (simp add: create_project_def transaction_cases get_by_key_eq exec_simps Let_def
        new_project_def [symmetric])
qed

lemma update_project_keeps_tenant:
  assumes "b \<noteq> org" and wf: "db_wf (work s)" and keep: "keeps_tenant b d0 s"
  shows "keeps_tenant b d0 (snd (update_project now ast org pid u actor s))"
  unfolding update_project_def Let_def
  by (intro transaction_keeps_tenant_at projects_tbl.guarded_flush_keeps_tenant assms preserve_intros
      add_audit_keeps_tenant) (use assms in simp_all)

end
