(* ===== verification/Cache.thy ===== *)
theory Cache
  imports AppState JsonText
begin

text \<open>
  The cache (\<open>CacheService\<close>, \<open>app/core/cache.py\<close>): schema objects as JSON texts in Redis with a
  time to live. No operation raises: a failing command or text that does not parse is a miss, and
  a failing write is dropped.

  The Redis commands of the cache and the JSON methods of a pydantic schema are parameters.
  \<open>delete_pattern\<close>, which has no caller in the service, is in \<open>Keyspace\<close>.
\<close>

record 'r cache_api = "'r redis_api" +
  get_key :: "instant \<Rightarrow> pystr \<Rightarrow> 'r \<Rightarrow> pystr option"
  delete_key :: "instant \<Rightarrow> pystr \<Rightarrow> 'r \<Rightarrow> 'r"

text \<open>
  \<open>SET key value EX ttl\<close> answers the value to \<open>GET\<close> until it expires, \<open>DEL\<close> removes the key, and
  neither touches another key.
\<close>

definition cache_laws :: "'r cache_api \<Rightarrow> bool" where
  "cache_laws C \<longleftrightarrow>
     (\<forall>t k v ttl r now. 0 < ttl \<longrightarrow>
        get_key C now k (set_ex C t k v ttl r) = (if now < t + ttl * usec_per_sec then Some v else None)) \<and>
     (\<forall>t k v ttl r now k'. k' \<noteq> k \<longrightarrow> get_key C now k' (set_ex C t k v ttl r) = get_key C now k' r) \<and>
     (\<forall>t k r now. get_key C now k (delete_key C t k r) = None) \<and>
     (\<forall>t k r now k'. k' \<noteq> k \<longrightarrow> get_key C now k' (delete_key C t k r) = get_key C now k' r)"

record 'a schema =
  model_dump_json :: "'a \<Rightarrow> pystr"
  model_validate :: "json \<Rightarrow> 'a option"

text \<open>A dumped object is valid JSON that validates to the object, for the objects the schema covers.\<close>

definition schema_laws :: "'a schema \<Rightarrow> ('a \<Rightarrow> bool) \<Rightarrow> bool" where
  "schema_laws M covered \<longleftrightarrow>
     (\<forall>x. covered x \<longrightarrow> model_dump_json M x \<noteq> [] \<and>
        Option.bind (json_loads (model_dump_json M x)) (model_validate M) = Some x)"

section \<open>The operations\<close>

fun py_join :: "pystr \<Rightarrow> pystr list \<Rightarrow> pystr" where
  "py_join sep [] = []"
| "py_join sep [s] = s"
| "py_join sep (s # t # ts) = s @ sep @ py_join sep (t # ts)"

definition build_key :: "pystr \<Rightarrow> pystr option list \<Rightarrow> pystr" where
  "build_key namespace parts =
     (let clean_parts = map py_strip (List.map_filter (\<lambda>p. p) parts) in namespace @ '':'' @ py_join '':'' clean_parts)"

text \<open>\<open>try: m except Exception: (log) return x\<close>.\<close>

definition or_else :: "('z, 'a) tx \<Rightarrow> 'a \<Rightarrow> ('z, 'a) tx" where
  "or_else m x s = (case m s of (Inl _, s') \<Rightarrow> (Inr x, s') | (Inr y, s') \<Rightarrow> (Inr y, s'))"

text \<open>The server reads its own clock, which stands for the same time as the service's.\<close>

definition server_time :: "('r, 'z, instant) app" where
  "server_time = datetime_now"

definition cache_get :: "'r cache_api \<Rightarrow> 'a schema \<Rightarrow> pystr \<Rightarrow> ('r, 'z, 'a option) app" where
  "cache_get C M key =
     or_else
       (bindE server_time (\<lambda>now.
        bindE (redis_ask (get_key C now key)) (\<lambda>cached_val.
        case cached_val of
          None \<Rightarrow> returnE None
        | Some txt \<Rightarrow>
            if txt = [] then returnE None
            else bindE (some_or_raise (json_loads txt) PyValueError) (\<lambda>data.
                 bindE (some_or_raise (model_validate M data) PyValueError) (\<lambda>x. returnE (Some x))))))
       None"

text \<open>A value is a schema object or a plain dictionary.\<close>

definition cache_set :: "'r cache_api \<Rightarrow> 'a schema \<Rightarrow> pystr \<Rightarrow> 'a + json \<Rightarrow> int \<Rightarrow> ('r, 'z, unit) app" where
  "cache_set C M key v ttl_seconds =
     or_else
       (let payload = (case v of Inl x \<Rightarrow> model_dump_json M x | Inr j \<Rightarrow> json_dumps j) in
        bindE server_time (\<lambda>now. redis_do (set_ex C now key payload ttl_seconds)))
       ()"

definition cache_delete :: "'r cache_api \<Rightarrow> pystr \<Rightarrow> ('r, 'z, unit) app" where
  "cache_delete C key = or_else (bindE server_time (\<lambda>now. redis_do (delete_key C now key))) ()"

section \<open>What they do\<close>

text \<open>What a text in the cache stands for.\<close>

definition cached_value :: "'a schema \<Rightarrow> pystr option \<Rightarrow> 'a option" where
  "cached_value M cached =
     (case cached of
        None \<Rightarrow> None
      | Some txt \<Rightarrow> if txt = [] then None else Option.bind (json_loads txt) (model_validate M))"

lemma cache_get_eq:
  "cache_get C M key s =
     (Inr (if redis_down s then None else cached_value M (get_key C (clock s 0) key (redis s))),
      s\<lparr>clock := \<lambda>n. clock s (Suc n)\<rparr>)"
  by (simp add: cache_get_def or_else_def server_time_def app_defs exec_simps cached_value_def
      split: option.splits)

lemma cache_set_eq:
  "cache_set C M key v ttl s =
     (Inr (), let s' = s\<lparr>clock := \<lambda>n. clock s (Suc n)\<rparr> in
      if redis_down s then s'
      else s'\<lparr>redis := set_ex C (clock s 0) key (case v of Inl x \<Rightarrow> model_dump_json M x | Inr j \<Rightarrow> json_dumps j) ttl (redis s)\<rparr>)"
  by (simp add: cache_set_def or_else_def server_time_def app_defs exec_simps Let_def)

lemma cache_delete_eq:
  "cache_delete C key s =
     (Inr (), let s' = s\<lparr>clock := \<lambda>n. clock s (Suc n)\<rparr> in
      if redis_down s then s' else s'\<lparr>redis := delete_key C (clock s 0) key (redis s)\<rparr>)"
  by (simp add: cache_delete_def or_else_def server_time_def app_defs exec_simps Let_def)

lemma preserves_cache [preserve_intros]:
  "session_frame I \<Longrightarrow> preserves I (cache_get C M k)"
  "session_frame I \<Longrightarrow> preserves I (cache_set C M k v ttl)"
  "session_frame I \<Longrightarrow> preserves I (cache_delete C k)"
  by (erule preserves_session_frame, simp add: cache_get_eq cache_set_eq cache_delete_eq Let_def)+

section \<open>A store that satisfies the laws\<close>

definition memory_cache :: "store cache_api" where
  "memory_cache = redis_api.extend memory_redis
     \<lparr>get_key = (\<lambda>now k st. case live now k st of Some (e, SString v) \<Rightarrow> Some v | _ \<Rightarrow> None),
      delete_key = (\<lambda>now k st. st(k := None))\<rparr>"

lemma memory_cache_laws: "cache_laws memory_cache"
  by (auto simp: cache_laws_def memory_cache_def memory_redis_def redis_api.defs cache_api.defs live_def)

end
