(* ===== verification/Calendar.thy ===== *)
theory Calendar
  imports PyText
begin

text \<open>
  The part of Python's \<open>datetime\<close> the cursors use: the proleptic Gregorian calendar,
  \<open>isoformat\<close> of a time in UTC, and \<open>fromisoformat\<close>. The forms \<open>isoformat\<close> prints are
  parsed here; which of the many other ISO 8601 forms an interpreter accepts, and which
  instant the database driver makes of them (in the server's zone when they have no offset),
  is the parameter \<open>other\<close>.
\<close>

section \<open>Days\<close>

definition is_leap :: "nat \<Rightarrow> bool" where
  "is_leap y \<longleftrightarrow> y mod 4 = 0 \<and> (y mod 100 \<noteq> 0 \<or> y mod 400 = 0)"

definition month_lengths :: "nat \<Rightarrow> nat list" where
  "month_lengths y = [31, if is_leap y then 29 else 28, 31, 30, 31, 30, 31, 31, 30, 31, 30, 31]"

text \<open>The days before January 1 of year \<open>y + 1\<close>.\<close>

definition days_to_year :: "nat \<Rightarrow> nat" where
  "days_to_year y = 365 * y + y div 4 - y div 100 + y div 400"

text \<open>Years and months count from 1, and January 1 of year 1 is day 1.\<close>

definition ymd2ord :: "nat \<Rightarrow> nat \<Rightarrow> nat \<Rightarrow> nat" where
  "ymd2ord y m d = days_to_year (y - 1) + sum_list (take (m - 1) (month_lengths y)) + d"

lemma days_to_year_Suc: "days_to_year (Suc y) = days_to_year y + (if is_leap (Suc y) then 366 else 365)"
proof -
  obtain k where k: "y div 4 = y div 100 + k"
    using div_le_mono2 [of 4 100 y] le_Suc_ex by auto
  have "Suc y mod 400 = 0 \<Longrightarrow> Suc y mod 100 = 0"
    using dvd_trans [of 100 400 "Suc y"] by (simp add: dvd_eq_mod_eq_0)
  moreover have "Suc y mod 100 = 0 \<Longrightarrow> Suc y mod 4 = 0"
    using dvd_trans [of 4 100 "Suc y"] by (simp add: dvd_eq_mod_eq_0)
  ultimately show ?thesis
    unfolding days_to_year_def is_leap_def div_Suc k by (simp split: if_splits)
qed

lemma days_to_year_mono: "y \<le> z \<Longrightarrow> days_to_year y \<le> days_to_year z"
  by (induction z rule: dec_induct) (simp_all add: days_to_year_Suc)

lemma year_le_days: "y \<le> days_to_year y"
  by (induction y) (simp_all add: days_to_year_Suc days_to_year_def)

lemma sum_month_lengths: "sum_list (month_lengths y) = (if is_leap y then 366 else 365)"
  by (simp add: month_lengths_def)

text \<open>The year of an ordinal: the last year that begins before it, looked for from below.\<close>

function find_year :: "nat \<Rightarrow> nat \<Rightarrow> nat" where
  "find_year y n = (if days_to_year y < n then find_year (Suc y) n else y)"
  by pat_completeness auto

termination
proof (relation "measure (\<lambda>(y, n). n - y)")
  fix y n :: nat
  assume "days_to_year y < n"
  then have "y < n" using year_le_days [of y] by linarith
  then show "((Suc y, n), (y, n)) \<in> measure (\<lambda>(y, n). n - y)" by simp
qed simp

declare find_year.simps [simp del]

fun split_month :: "nat list \<Rightarrow> nat \<Rightarrow> nat \<times> nat" where
  "split_month [] d = (0, d)"
| "split_month (k # ks) d = (if d \<le> k then (0, d) else (let (m, d') = split_month ks (d - k) in (Suc m, d')))"

definition ord2ymd :: "nat \<Rightarrow> nat \<times> nat \<times> nat" where
  "ord2ymd n =
     (let y = find_year ((n - 1) div 366 + 1) n; (m, d) = split_month (month_lengths y) (n - days_to_year (y - 1))
      in (y, m + 1, d))"

lemma find_year_eq:
  "y \<le> z \<Longrightarrow> 0 < z \<Longrightarrow> days_to_year (z - 1) < n \<Longrightarrow> n \<le> days_to_year z \<Longrightarrow> find_year y n = z"
proof (induction y n rule: find_year.induct)
  case (1 y n)
  show ?case
  proof (cases "y = z")
    case True
    then show ?thesis using 1 by (subst find_year.simps) simp
  next
    case False
    then have "y \<le> z - 1" using 1 by simp
    then have "days_to_year y < n" using 1 days_to_year_mono [of y "z - 1"] by linarith
    then show ?thesis using 1 False by (subst find_year.simps) simp
  qed
qed

lemma split_month_eq:
  "m < length ks \<Longrightarrow> 0 < d \<Longrightarrow> d \<le> ks ! m \<Longrightarrow> split_month ks (sum_list (take m ks) + d) = (m, d)"
proof (induction ks arbitrary: m)
  case (Cons k ks)
  then show ?case by (cases m) auto
qed simp

definition valid_date :: "nat \<Rightarrow> nat \<Rightarrow> nat \<Rightarrow> bool" where
  "valid_date y m d \<longleftrightarrow> 1 \<le> y \<and> y \<le> 9999 \<and> 1 \<le> m \<and> m \<le> 12 \<and> 1 \<le> d \<and> d \<le> month_lengths y ! (m - 1)"

lemma sum_list_take_le: "m < length ks \<Longrightarrow> sum_list (take m ks) + ks ! m \<le> (sum_list ks :: nat)"
proof (induction ks arbitrary: m)
  case (Cons k ks)
  then show ?case by (cases m) auto
qed simp

lemma length_month_lengths [simp]: "length (month_lengths y) = 12"
  by (simp add: month_lengths_def)

text \<open>A date in its year: between the ordinals of the year's ends.\<close>

lemma ymd2ord_in_year:
  assumes "valid_date y m d"
  shows "days_to_year (y - 1) < ymd2ord y m d" and "ymd2ord y m d \<le> days_to_year y"
proof -
  have "sum_list (take (m - 1) (month_lengths y)) + month_lengths y ! (m - 1) \<le> sum_list (month_lengths y)"
    by (rule sum_list_take_le) (use assms in \<open>auto simp: valid_date_def\<close>)
  then show "ymd2ord y m d \<le> days_to_year y"
    using assms days_to_year_Suc [of "y - 1"] by (simp add: ymd2ord_def valid_date_def sum_month_lengths split: if_splits)
  show "days_to_year (y - 1) < ymd2ord y m d"
    using assms by (simp add: ymd2ord_def valid_date_def)
qed

lemma search_start:
  assumes "0 < n"
  shows "days_to_year ((n - 1) div 366) < n"
proof -
  have "days_to_year y \<le> 366 * y" for y by (induction y) (simp_all add: days_to_year_Suc, simp add: days_to_year_def)
  then have "days_to_year ((n - 1) div 366) \<le> 366 * ((n - 1) div 366)" .
  also have "\<dots> \<le> n - 1" by simp
  finally show ?thesis using assms by linarith
qed

lemma year_from_start:
  assumes "days_to_year (z - 1) < n" "n \<le> days_to_year z" "0 < z"
  shows "(n - 1) div 366 + 1 \<le> z"
proof (rule ccontr)
  assume "\<not> ?thesis"
  then have "z \<le> (n - 1) div 366" by simp
  then have "days_to_year z \<le> days_to_year ((n - 1) div 366)" by (rule days_to_year_mono)
  then show False using search_start [of n] assms by linarith
qed

lemma ord2ymd_ymd2ord: "valid_date y m d \<Longrightarrow> ord2ymd (ymd2ord y m d) = (y, m, d)"
proof -
  assume valid: "valid_date y m d"
  note year = ymd2ord_in_year [OF valid]
  have y: "0 < y" using valid by (simp add: valid_date_def)
  have "find_year ((ymd2ord y m d - 1) div 366 + 1) (ymd2ord y m d) = y"
    by (rule find_year_eq [OF year_from_start [OF year y] y year])
  then show "ord2ymd (ymd2ord y m d) = (y, m, d)"
    using split_month_eq [of "m - 1" "month_lengths y" d] valid
    by (auto simp: ord2ymd_def Let_def ymd2ord_def valid_date_def)
qed

lemma find_year_bounds:
  "0 < y \<Longrightarrow> days_to_year (y - 1) < n \<Longrightarrow>
     0 < find_year y n \<and> days_to_year (find_year y n - 1) < n \<and> n \<le> days_to_year (find_year y n)"
proof (induction y n rule: find_year.induct)
  case (1 y n)
  then show ?case by (subst (1 2 3) find_year.simps) auto
qed

lemma split_month_bounds:
  "0 < d \<Longrightarrow> d \<le> sum_list ks \<Longrightarrow> split_month ks d = (m, d') \<Longrightarrow>
     m < length ks \<and> 0 < d' \<and> d' \<le> ks ! m \<and> sum_list (take m ks) + d' = d"
proof (induction ks d arbitrary: m d' rule: split_month.induct)
  case (2 k ks d)
  show ?case
  proof (cases "d \<le> k")
    case False
    then have "d - k \<le> sum_list ks" "0 < d - k" using "2.prems"(2) by simp_all
    then show ?thesis using 2 False by (fastforce simp: Let_def split: prod.splits)
  qed (use 2 in auto)
qed simp

lemma last_day: "days_to_year 9999 = 3652059"
  by (simp add: days_to_year_def)

lemma ymd2ord_ord2ymd:
  assumes "0 < n" and "n \<le> 3652059" and "ord2ymd n = (y, m, d)"
  shows "ymd2ord y m d = n \<and> valid_date y m d"
proof -
  define z where "z = find_year ((n - 1) div 366 + 1) n"
  have z: "0 < z" "days_to_year (z - 1) < n" "n \<le> days_to_year z"
    using find_year_bounds [of "(n - 1) div 366 + 1" n] search_start [OF assms(1)] by (simp_all add: z_def)
  have "z \<le> 9999"
  proof (rule ccontr)
    assume "\<not> z \<le> 9999"
    then have "days_to_year 9999 \<le> days_to_year (z - 1)" by (intro days_to_year_mono) simp
    then show False using z(2) assms(2) last_day by simp
  qed
  obtain m' d' where md: "split_month (month_lengths z) (n - days_to_year (z - 1)) = (m', d')" by force
  have "n - days_to_year (z - 1) \<le> sum_list (month_lengths z)"
    using z days_to_year_Suc [of "z - 1"] by (auto simp: sum_month_lengths split: if_splits)
  then have b: "m' < 12" "0 < d'" "d' \<le> month_lengths z ! m'"
      "sum_list (take m' (month_lengths z)) + d' = n - days_to_year (z - 1)"
    using split_month_bounds [OF _ _ md] z(2) by auto
  have "y = z" "m = m' + 1" "d = d'"
    using assms(3) md by (auto simp: ord2ymd_def z_def Let_def)
  then show ?thesis
    using b z \<open>z \<le> 9999\<close> by (auto simp: ymd2ord_def valid_date_def)
qed

section \<open>Text\<close>

text \<open>The \<open>k\<close> lowest decimal digits of \<open>n\<close>, zeros in front, as \<open>%0kd\<close> prints a number that fits.\<close>

definition dec_char :: "nat \<Rightarrow> char" where
  "dec_char d = char_of (48 + d)"

definition dec_val :: "char \<Rightarrow> nat option" where
  "dec_val c = (let n = (of_char c :: nat) in if 48 \<le> n \<and> n \<le> 57 then Some (n - 48) else None)"

fun dec_digits :: "nat \<Rightarrow> nat \<Rightarrow> pystr" where
  "dec_digits 0 n = []"
| "dec_digits (Suc k) n = dec_digits k (n div 10) @ [dec_char (n mod 10)]"

text \<open>Reading exactly \<open>k\<close> digits, and one given character, off the front of a text.\<close>

fun read_digits :: "nat \<Rightarrow> nat \<Rightarrow> pystr \<Rightarrow> (nat \<times> pystr) option" where
  "read_digits 0 acc s = Some (acc, s)"
| "read_digits (Suc k) acc [] = None"
| "read_digits (Suc k) acc (c # s) = Option.bind (dec_val c) (\<lambda>v. read_digits k (10 * acc + v) s)"

fun read_char :: "char \<Rightarrow> pystr \<Rightarrow> pystr option" where
  "read_char c [] = None"
| "read_char c (x # s) = (if x = c then Some s else None)"

lemma dec_val_char [simp]: "d < 10 \<Longrightarrow> dec_val (dec_char d) = Some d"
  by (simp add: dec_val_def dec_char_def)

lemma read_digits_append:
  "read_digits (k + j) acc (dec_digits k n @ s) = read_digits j (acc * 10 ^ k + n mod 10 ^ k) s"
proof (induction k arbitrary: n j s)
  case (Suc k)
  have "read_digits (Suc k + j) acc (dec_digits (Suc k) n @ s) =
      read_digits (k + Suc j) acc (dec_digits k (n div 10) @ dec_char (n mod 10) # s)" by simp
  also have "\<dots> = read_digits (Suc j) (acc * 10 ^ k + n div 10 mod 10 ^ k) (dec_char (n mod 10) # s)"
    by (rule Suc)
  also have "\<dots> = read_digits j (acc * 10 ^ Suc k + n mod 10 ^ Suc k) s"
    by (simp add: mod_mult2_eq algebra_simps)
  finally show ?case .
qed simp

lemma read_dec_digits [simp]: "read_digits k 0 (dec_digits k n @ s) = Some (n mod 10 ^ k, s)"
  using read_digits_append [of k 0 0 n s] by simp

section \<open>\<open>isoformat\<close> and \<open>fromisoformat\<close>\<close>

abbreviation usec_per_day :: nat where "usec_per_day \<equiv> 86400000000"

text \<open>Midnight of January 1 of year 1, and the number of days a \<open>datetime\<close> can name.\<close>

abbreviation first_instant :: instant where "first_instant \<equiv> - 62135596800000000"

definition datetime_range :: "instant \<Rightarrow> bool" where
  "datetime_range t \<longleftrightarrow> first_instant \<le> t \<and> t < first_instant + 3652059 * int usec_per_day"

definition iso_time :: "nat \<Rightarrow> pystr" where
  "iso_time u =
     (let v = u div 1000000; us = u mod 1000000 in
      dec_digits 2 (v div 60 div 60) @ '':'' @ dec_digits 2 (v div 60 mod 60) @ '':'' @ dec_digits 2 (v mod 60) @
      (if us = 0 then [] else ''.'' @ dec_digits 6 us))"

definition isoformat_utc :: "instant \<Rightarrow> pystr" where
  "isoformat_utc t =
     (let n = nat (t - first_instant); (y, m, d) = ord2ymd (n div usec_per_day + 1) in
      dec_digits 4 y @ ''-'' @ dec_digits 2 m @ ''-'' @ dec_digits 2 d @ ''T'' @
      iso_time (n mod usec_per_day) @ ''+00:00'')"

definition read_date :: "pystr \<Rightarrow> ((nat \<times> nat \<times> nat) \<times> pystr) option" where
  "read_date s =
     Option.bind (read_digits 4 0 s) (\<lambda>(y, s).
     Option.bind (read_char (CHR ''-'') s) (\<lambda>s.
     Option.bind (read_digits 2 0 s) (\<lambda>(m, s).
     Option.bind (read_char (CHR ''-'') s) (\<lambda>s.
     Option.bind (read_digits 2 0 s) (\<lambda>(d, s). Some ((y, m, d), s))))))"

definition read_time :: "pystr \<Rightarrow> ((nat \<times> nat \<times> nat \<times> nat) \<times> pystr) option" where
  "read_time s =
     Option.bind (read_digits 2 0 s) (\<lambda>(h, s).
     Option.bind (read_char (CHR '':'') s) (\<lambda>s.
     Option.bind (read_digits 2 0 s) (\<lambda>(mi, s).
     Option.bind (read_char (CHR '':'') s) (\<lambda>s.
     Option.bind (read_digits 2 0 s) (\<lambda>(sec, s).
     Option.bind (case read_char (CHR ''.'') s of None \<Rightarrow> Some (0, s) | Some s' \<Rightarrow> read_digits 6 0 s') (\<lambda>(us, s).
     Some ((h, mi, sec, us), s)))))))"

text \<open>The forms \<open>isoformat\<close> prints for a time in UTC.\<close>

definition parse_iso :: "pystr \<Rightarrow> instant option" where
  "parse_iso s =
     Option.bind (read_date s) (\<lambda>((y, m, d), s).
     Option.bind (read_char (CHR ''T'') s) (\<lambda>s.
     Option.bind (read_time s) (\<lambda>((h, mi, sec, us), s).
     if valid_date y m d \<and> h < 24 \<and> mi < 60 \<and> sec < 60 then
       (let u = ((h * 60 + mi) * 60 + sec) * 1000000 + us;
            t = first_instant + int ((ymd2ord y m d - 1) * usec_per_day + u) in
        if s = ''+00:00'' then Some t else None)
     else None)))"

definition fromisoformat :: "(pystr \<Rightarrow> instant option) \<Rightarrow> pystr \<Rightarrow> instant option" where
  "fromisoformat other s = (case parse_iso s of Some r \<Rightarrow> Some r | None \<Rightarrow> other s)"

lemma read_iso_time:
  assumes "u < usec_per_day"
  obtains h mi sec us where "read_time (iso_time u @ ''+00:00'') = Some ((h, mi, sec, us), ''+00:00'')"
    and "h < 24" "mi < 60" "sec < 60" and "((h * 60 + mi) * 60 + sec) * 1000000 + us = u"
proof -
  define v where "v = u div 1000000"
  have "v div 60 div 60 < 24"
    using assms unfolding v_def by (simp add: div_mult2_eq [symmetric] less_mult_imp_div_less)
  moreover have "((v div 60 div 60 * 60 + v div 60 mod 60) * 60 + v mod 60) * 1000000 + u mod 1000000 = u"
    by (simp add: v_def)
  moreover have "read_time (iso_time u @ ''+00:00'') =
      Some ((v div 60 div 60, v div 60 mod 60, v mod 60, u mod 1000000), ''+00:00'')"
    using calculation(1) by (auto simp: read_time_def iso_time_def Let_def v_def [symmetric] less_imp_le)
  ultimately show ?thesis
    using that [of "v div 60 div 60" "v div 60 mod 60" "v mod 60" "u mod 1000000"] by simp
qed

lemma isoformat_roundtrip:
  assumes "datetime_range t"
  shows "parse_iso (isoformat_utc t) = Some t"
proof -
  define n where "n = nat (t - first_instant)"
  have n: "t = first_instant + int n" "n < 3652059 * usec_per_day"
    using assms by (auto simp: n_def datetime_range_def)
  obtain y m d where ymd: "ord2ymd (n div usec_per_day + 1) = (y, m, d)" by (metis prod_cases3)
  have "n div usec_per_day + 1 \<le> 3652059" using n(2) by (simp add: less_mult_imp_div_less Suc_leI)
  then have date: "ymd2ord y m d = n div usec_per_day + 1" "valid_date y m d"
    using ymd2ord_ord2ymd [OF _ _ ymd] by auto
  have "n mod usec_per_day < usec_per_day" by simp
  from read_iso_time [OF this] obtain h mi sec us where
    time: "read_time (iso_time (n mod usec_per_day) @ ''+00:00'') = Some ((h, mi, sec, us), ''+00:00'')"
      "h < 24" "mi < 60" "sec < 60" "((h * 60 + mi) * 60 + sec) * 1000000 + us = n mod usec_per_day"
    by metis
  have len: "month_lengths y ! (m - 1) \<le> 31"
    using nth_mem [of "m - 1" "month_lengths y"] date(2) by (force simp: valid_date_def month_lengths_def)
  then have small: "y < 10000" "m < 100" "d < 100" using date(2) by (auto simp: valid_date_def)
  then have "read_date (dec_digits 4 y @ ''-'' @ dec_digits 2 m @ ''-'' @ dec_digits 2 d @ s) = Some ((y, m, d), s)" for s
    by (simp add: read_date_def)
  moreover have "n div usec_per_day * usec_per_day + (((h * 60 + mi) * 60 + sec) * 1000000 + us) = n"
    unfolding time(5) by simp
  ultimately show ?thesis
    using date time(1-4) n(1) small
    by (simp add: parse_iso_def isoformat_utc_def n_def [symmetric] ymd [simplified] Let_def
        del: of_nat_add of_nat_mult)
qed

end
