(* ===== verification/ProjectApi.thy ===== *)
theory ProjectApi
  imports TaskApi ProjectService Cache Calendar
begin

text \<open>
  The project endpoints (\<open>app/api/v1/endpoints/projects.py\<close>): reads of a project go through the
  cache, and an update drops the project's entry after its transaction.
\<close>

record project_response =
  pr_id :: uuid
  pr_organization_id :: uuid
  pr_team_id :: "uuid option"
  pr_name :: pystr
  pr_key :: pystr
  pr_description :: "pystr option"
  pr_is_archived :: bool
  pr_version_id :: int
  pr_created_at :: instant

definition project_response_of :: "project \<Rightarrow> project_response" where
  "project_response_of p =
     \<lparr>pr_id = p_id p, pr_organization_id = p_organization_id p, pr_team_id = p_team_id p, pr_name = p_name p,
      pr_key = p_key p, pr_description = p_description p, pr_is_archived = p_is_archived p,
      pr_version_id = p_version_id p, pr_created_at = p_created_at p\<rparr>"

definition project_cache_key :: "uuid \<Rightarrow> uuid \<Rightarrow> pystr" where
  "project_cache_key org project_id =
     build_key ''tenant'' [Some (uuid_str org), Some ''projects'', Some (uuid_str project_id)]"

definition project_not_found :: "uuid \<Rightarrow> exn" where
  "project_not_found project_id = EntityNotFoundException ''Project'' (uuid_str project_id)"

section \<open>The handlers\<close>

definition create_project_handler ::
  "row_stamp \<Rightarrow> audit_stamp \<Rightarrow> project_create \<Rightarrow> tenant_context \<Rightarrow> ('z, project_response) tx" where
  "create_project_handler st ast payload ctx =
     bindE (create_project st ast (ctx_organization_id ctx) payload None) (\<lambda>p. returnE (project_response_of p))"

definition list_projects_handler ::
  "(project list \<Rightarrow> project list) \<Rightarrow> tenant_context \<Rightarrow> ('z, project_response list) tx" where
  "list_projects_handler scan ctx =
     bindE (list_paginated Project scan (ctx_organization_id ctx) 0 100 False) (\<lambda>projects.
     returnE (map project_response_of projects))"

text \<open>The read has two halves: the lookups, and the answer, which fills the cache.\<close>

definition get_project_lookup ::
  "'r cache_api \<Rightarrow> project_response schema \<Rightarrow> uuid \<Rightarrow> tenant_context \<Rightarrow>
     ('r, 'z, project_response + project) app" where
  "get_project_lookup C M project_id ctx =
     bindE (cache_get C M (project_cache_key (ctx_organization_id ctx) project_id)) (\<lambda>cached_project.
     case cached_project of
       Some r \<Rightarrow> returnE (Inl r)
     | None \<Rightarrow>
         bindE (tenant_get_by_id Project (ctx_organization_id ctx) project_id False) (\<lambda>found.
         bindE (some_or_raise found (project_not_found project_id)) (\<lambda>project. returnE (Inr project))))"

definition get_project_answer ::
  "'r cache_api \<Rightarrow> project_response schema \<Rightarrow> uuid \<Rightarrow> tenant_context \<Rightarrow> project_response + project \<Rightarrow>
     ('r, 'z, project_response) app" where
  "get_project_answer C M project_id ctx found =
     (case found of
        Inl r \<Rightarrow> returnE r
      | Inr project \<Rightarrow>
          let response = project_response_of project in
          bindE (cache_set C M (project_cache_key (ctx_organization_id ctx) project_id) (Inl response) 300) (\<lambda>_.
          returnE response))"

definition get_project_handler ::
  "'r cache_api \<Rightarrow> project_response schema \<Rightarrow> uuid \<Rightarrow> tenant_context \<Rightarrow> ('r, 'z, project_response) app" where
  "get_project_handler C M project_id ctx =
     bindE (get_project_lookup C M project_id ctx) (get_project_answer C M project_id ctx)"

definition update_project_handler ::
  "'r cache_api \<Rightarrow> instant \<Rightarrow> audit_stamp \<Rightarrow> uuid \<Rightarrow> project_update \<Rightarrow> tenant_context \<Rightarrow>
     ('r, 'z, project_response) app" where
  "update_project_handler C now ast project_id payload ctx =
     bindE (update_project now ast (ctx_organization_id ctx) project_id payload None) (\<lambda>project.
     bindE (cache_delete C (project_cache_key (ctx_organization_id ctx) project_id)) (\<lambda>_.
     returnE (project_response_of project)))"

section \<open>The endpoints\<close>

definition post_project ::
  "jwt_api \<Rightarrow> row_stamp \<Rightarrow> audit_stamp \<Rightarrow> pystr \<Rightarrow> uuid \<Rightarrow> project_create \<Rightarrow> ('r, 'z, project_response) app" where
  "post_project J st ast token org payload = request J MANAGER token org (create_project_handler st ast payload)"

definition list_projects ::
  "jwt_api \<Rightarrow> (project list \<Rightarrow> project list) \<Rightarrow> pystr \<Rightarrow> uuid \<Rightarrow> ('r, 'z, project_response list) app" where
  "list_projects J scan token org = request J VIEWER token org (list_projects_handler scan)"

definition get_project ::
  "jwt_api \<Rightarrow> 'r cache_api \<Rightarrow> project_response schema \<Rightarrow> pystr \<Rightarrow> uuid \<Rightarrow> uuid \<Rightarrow> ('r, 'z, project_response) app" where
  "get_project J C M token org project_id = request J VIEWER token org (get_project_handler C M project_id)"

definition patch_project ::
  "jwt_api \<Rightarrow> 'r cache_api \<Rightarrow> instant \<Rightarrow> audit_stamp \<Rightarrow> pystr \<Rightarrow> uuid \<Rightarrow> uuid \<Rightarrow> project_update \<Rightarrow>
     ('r, 'z, project_response) app" where
  "patch_project J C now ast token org project_id payload =
     request J MANAGER token org (update_project_handler C now ast project_id payload)"

section \<open>Invariants\<close>

lemma project_handlers_wf [preserve_intros]:
  "preserves session_wf (create_project_handler st ast p ctx)"
  "preserves session_wf (update_project_handler C now ast pid u ctx)"
  unfolding create_project_handler_def update_project_handler_def
  by (intro preserve_intros session_frame_wf)+

lemma project_handlers_keep_tenant:
  "b \<noteq> ctx_organization_id ctx \<Longrightarrow> preserves (keeps_tenant b d0) (create_project_handler st ast p ctx)"
  "b \<noteq> ctx_organization_id ctx \<Longrightarrow> db_wf (work s) \<Longrightarrow> keeps_tenant b d0 s \<Longrightarrow>
     keeps_tenant b d0 (snd (update_project_handler C now ast pid u ctx s))"
proof -
  show "b \<noteq> ctx_organization_id ctx \<Longrightarrow> preserves (keeps_tenant b d0) (create_project_handler st ast p ctx)"
    unfolding create_project_handler_def by (intro preserve_intros)
  have rest: "preserves (keeps_tenant b d0) (bindE (cache_delete C k) (\<lambda>_. returnE x))" for k and x :: project_response
    by (intro preserve_intros session_frame_keeps)
  show "b \<noteq> ctx_organization_id ctx \<Longrightarrow> db_wf (work s) \<Longrightarrow> keeps_tenant b d0 s \<Longrightarrow>
     keeps_tenant b d0 (snd (update_project_handler C now ast pid u ctx s))"
    unfolding update_project_handler_def
    by (rule bindE_keeps, erule (2) update_project_keeps_tenant, erule preservesD [OF rest])
qed

lemma preserves_get_project [preserve_intros]:
  "session_frame I \<Longrightarrow> preserves I (get_project_handler C M pid ctx)"
  unfolding get_project_handler_def get_project_lookup_def get_project_answer_def Let_def
  by (intro preserve_intros) (auto intro!: preserve_intros split: sum.splits)

lemma preserves_list_projects [preserve_intros]: "preserves I (list_projects_handler scan ctx)"
  unfolding list_projects_handler_def list_paginated_def by (intro preserve_intros)

section \<open>The cache entries of projects\<close>

lemma length_uuid_str: "length (uuid_str u) = 36"
  by (simp add: uuid_str_def Let_def length_hex_digits)

lemma uuid_str_not_space: "c \<in> set (uuid_str u) \<Longrightarrow> \<not> py_isspace c"
  using hex_char_not(2) by (auto dest!: uuid_str_chars simp: py_isspace_def)

lemma strip_key_parts [simp]: "py_strip (uuid_str u) = uuid_str u" "py_strip ''projects'' = ''projects''"
  unfolding py_strip_def by (rule strip_while_none, use uuid_str_not_space in blast) code_simp

lemma project_cache_key_inject:
  "project_cache_key org pid = project_cache_key org' pid' \<longleftrightarrow> org = org' \<and> pid = pid'"
proof -
  have "project_cache_key o' q = ''tenant:'' @ uuid_str o' @ '':projects:'' @ uuid_str q" for o' q
    by (simp add: project_cache_key_def build_key_def List.map_filter_simps)
  then show ?thesis by (simp add: length_uuid_str uuid_str_inject)
qed

text \<open>What the cache holds of a project, and that it is what the database holds.\<close>

definition cached_project ::
  "'r cache_api \<Rightarrow> project_response schema \<Rightarrow> instant \<Rightarrow> uuid \<Rightarrow> uuid \<Rightarrow> 'r \<Rightarrow> project_response option" where
  "cached_project C M now org pid r = cached_value M (get_key C now (project_cache_key org pid) r)"

definition cache_coherent ::
  "'r cache_api \<Rightarrow> project_response schema \<Rightarrow> ('r, 'z) app_state_scheme \<Rightarrow> bool" where
  "cache_coherent C M s \<longleftrightarrow>
     (\<forall>now org pid v. cached_project C M now org pid (redis s) = Some v \<longrightarrow>
        (\<exists>p. visible_project org pid (committed s) = Some p \<and> v = project_response_of p))"

definition cacheable :: "project_response \<Rightarrow> bool" where
  "cacheable r \<longleftrightarrow> datetime_range (pr_created_at r)"

lemma cached_after_set:
  assumes "cache_laws C" and "schema_laws M cacheable" and "cacheable v"
  shows "cached_project C M now org pid (set_ex C t (project_cache_key org' pid') (model_dump_json M v) 300 r) =
    (if org' = org \<and> pid' = pid then (if now < t + 300 * usec_per_sec then Some v else None)
     else cached_project C M now org pid r)"
  using assms
  by (auto simp: cached_project_def cached_value_def cache_laws_def schema_laws_def project_cache_key_inject)

lemma cached_after_delete:
  assumes "cache_laws C"
  shows "cached_project C M now org pid (delete_key C t (project_cache_key org' pid') r) =
    (if org' = org \<and> pid' = pid then None else cached_project C M now org pid r)"
  using assms by (auto simp: cached_project_def cached_value_def cache_laws_def project_cache_key_inject)

lemma cache_coherent_set:
  assumes "cache_laws C" and "schema_laws M cacheable" and "cache_coherent C M s"
    and "visible_project org pid (committed s) = Some p" and "datetime_range (p_created_at p)"
  shows "cache_coherent C M (s\<lparr>redis := set_ex C t (project_cache_key org pid) (model_dump_json M (project_response_of p)) 300 (redis s)\<rparr>)"
proof -
  have "cacheable (project_response_of p)" using assms(5) by (simp add: cacheable_def project_response_of_def)
  from cached_after_set [OF assms(1,2) this] show ?thesis
    using assms(3,4) by (auto simp: cache_coherent_def split: if_splits)
qed

text \<open>A change of one project is harmless once its entry is gone.\<close>

lemma cache_coherent_delete:
  assumes "cache_laws C" and "cache_coherent C M s" and "redis s' = delete_key C t (project_cache_key org pid) (redis s)"
    and "\<And>o' q. (o', q) \<noteq> (org, pid) \<Longrightarrow> visible_project o' q (committed s') = visible_project o' q (committed s)"
  shows "cache_coherent C M s'"
  unfolding cache_coherent_def assms(3) cached_after_delete [OF assms(1)]
  using assms(2,4) by (auto simp: cache_coherent_def split: if_splits)

lemma cache_coherent_frame:
  "cache_coherent C M s \<Longrightarrow> redis s' = redis s \<Longrightarrow> committed s' = committed s \<Longrightarrow> cache_coherent C M s'"
  by (simp add: cache_coherent_def)

section \<open>What the handlers do to database and cache\<close>

lemma visible_project_iff:
  "db_wf d \<Longrightarrow> visible_project org pid d = Some p \<longleftrightarrow> p \<in> set (tbl_projects d) \<and> p_id p = pid \<and> p_organization_id p = org"
proof
  assume wf: "db_wf d" and p: "p \<in> set (tbl_projects d) \<and> p_id p = pid \<and> p_organization_id p = org"
  then obtain q where q: "visible_project org pid d = Some q"
    by (cases "visible_project org pid d") (auto simp: visible_project_def find_None_iff)
  with visible_project_Some [OF q] p have "q = p"
    using distinct_key_unique [OF projects_tbl.pk_distinct [OF wf], of q p] by simp
  with q show "visible_project org pid d = Some p" by simp
qed (use visible_project_Some in blast)

lemma find_map_same:
  assumes "\<And>q. p_id (f q) = p_id q \<and> (q \<in> set ps \<longrightarrow> p_organization_id (f q) = p_organization_id q)"
  shows "find (\<lambda>q. p_id q = pid \<and> p_organization_id q = org) (map f ps) =
    map_option f (find (\<lambda>q. p_id q = pid \<and> p_organization_id q = org) ps)"
  using assms by (induction ps) auto

lemma visible_project_replace:
  assumes "db_wf d" and "p \<in> set (tbl_projects d)" and "p_id p' = p_id p" and "p_organization_id p' = p_organization_id p"
    and "tbl_projects d' = replace_project p' (tbl_projects d)"
  shows "visible_project org pid d' = (if pid = p_id p \<and> org = p_organization_id p then Some p' else visible_project org pid d)"
proof -
  have same: "q = p" if "q \<in> set (tbl_projects d)" "p_id q = p_id p" for q
    using distinct_key_unique [OF projects_tbl.pk_distinct [OF assms(1)], of q p] that assms(2) by simp
  define f where "f = (\<lambda>q. if p_id q = p_id p then p' else q)"
  have f: "p_id (f q) = p_id q \<and> (q \<in> set (tbl_projects d) \<longrightarrow> p_organization_id (f q) = p_organization_id q)" for q
    using same assms(3,4) by (auto simp: f_def)
  have "visible_project org pid d' = find (\<lambda>q. p_id q = pid \<and> p_organization_id q = org) (map f (tbl_projects d))"
    by (simp add: visible_project_def assms(3,5) replace_project_def f_def)
  also have "\<dots> = map_option f (visible_project org pid d)"
    unfolding visible_project_def find_map_same [OF f] ..
  finally show ?thesis
    using visible_project_iff [OF assms(1), of "p_organization_id p" "p_id p" p] assms(2) visible_project_Some [of org pid d]
    by (cases "visible_project org pid d") (auto simp: f_def dest: same)
qed

lemma project_writes_beside:
  "beside s (snd (update_project now ast org pid u a s))" "beside s (snd (create_project st ast org pc a s))"
proof -
  have "preserves (beside s) (update_project now ast org pid u a)" "preserves (beside s) (create_project st ast org pc a)"
    unfolding update_project_def create_project_def Let_def tenant_create_def base_create_def add_audit_def get_by_key_def
      tenant_get_by_id_def
    by (intro preserve_intros)+
  then show "beside s (snd (update_project now ast org pid u a s))" "beside s (snd (create_project st ast org pc a s))"
    using preservesD [of "beside s" _ s] by auto
qed

lemma beside_app:
  "beside s s' \<Longrightarrow> redis s' = redis s \<and> redis_down s' = redis_down s \<and> clock s' = clock s \<and> published s' = published s"
  by (auto simp: beside_def)

text \<open>An update that returns has replaced the one project, and everything else is as it was.\<close>

lemma update_project_ok:
  assumes wf: "db_wf (work s)" and "update_project now ast org pid u a s = (Inr p', s')"
  shows "\<exists>p. visible_project org pid (work s) = Some p \<and> p' = updated_project now u p \<and>
    tbl_projects (committed s') = replace_project p' (tbl_projects (work s)) \<and> work s' = committed s'"
proof -
  obtain p s1 s2 where p: "visible_project org pid (work s) = Some p"
    and s1: "flush_dirty Project now (apply_project_update u p) s = (Inr p', s1)"
    and s2: "add_audit (new_audit ast org a ''Project'' (p_id p') AUDIT_UPDATE (Some (project_state p)) (Some (project_state p'))) s1 = (Inr (), s2)"
    and s': "s' = s2\<lparr>committed := work s2\<rparr>"
    using assms
    by (auto simp: update_project_def transaction_ok bindE_ok tenant_get_project some_or_raise_def raise_if_def returnE_def Let_def
        raiseE_def split: option.splits if_splits)
  have "p \<noteq> apply_project_update u p"
    by (metis apply_project_update_fields(4) add_cancel_left_right zero_neq_one)
  then have "p' = updated_project now u p \<and> tbl_projects (work s1) = replace_project p' (tbl_projects (work s))"
    using s1 visible_project_Some [OF p]
    by (auto simp: projects_tbl.flush_dirty_eq [OF wf, of p] updated_project_def replace_project_def Let_def
        split: option.splits cong: if_cong)
  moreover have "tbl_projects (work s2) = tbl_projects (work s1)"
    using s2 by (auto simp: add_audit_def insert_row_def bindE_ok returnE_def AuditLog_def Let_def split: option.splits if_splits)
  ultimately show ?thesis using p s' by auto
qed

lemma transaction_error_keeps:
  "(\<And>d. preserves (\<lambda>s. committed s = d) body) \<Longrightarrow> transaction body s = (Inl e, s') \<Longrightarrow> committed s' = committed s"
  using transaction_error_rolls_back [of body s e s'] by (auto simp: no_commit_preserves)

lemma project_write_error:
  "update_project now ast org pid u a s = (Inl e, s') \<Longrightarrow> committed s' = committed s"
  "create_project st ast org pc a s = (Inl e, s') \<Longrightarrow> committed s' = committed s"
  unfolding update_project_def create_project_def Let_def
  by (erule transaction_error_keeps [rotated], intro preserve_intros)+

lemma create_project_ok:
  assumes wf: "db_wf (work s)" and "create_project st ast org pc a s = (Inr p, s')"
  shows "tbl_projects (committed s') = tbl_projects (work s) @ [p] \<and> p_id p \<notin> project_ids (work s) \<and> work s' = committed s'"
proof -
  obtain s1 s2 where s1: "tenant_create Project org (new_project st org pc) s = (Inr p, s1)"
    and s2: "add_audit (new_audit ast org a ''Project'' (p_id p) AUDIT_CREATE None
      (Some (JObj [(''name'', JStr (p_name p)), (''key'', JStr (p_key p))]))) s1 = (Inr (), s2)"
    and s': "s' = s2\<lparr>committed := work s2\<rparr>"
    using assms
    by (auto simp: create_project_def transaction_ok bindE_ok get_by_key_eq raise_if_def returnE_def Let_def raiseE_def
        new_project_def split: option.splits if_splits)
  have "tbl_projects (work s1) = tbl_projects (work s) @ [p] \<and> p_id p \<notin> project_ids (work s)"
    using s1 by (auto simp: tenant_create_def base_create_def insert_row_def project_ids_def Project_def Let_def new_project_def
        split: option.splits if_splits)
  moreover have "tbl_projects (work s2) = tbl_projects (work s1)"
    using s2 by (auto simp: add_audit_def insert_row_def bindE_ok returnE_def AuditLog_def Let_def split: option.splits if_splits)
  ultimately show ?thesis using s' by auto
qed

lemma get_project_handler_eq:
  assumes "db_wf (work s)"
  shows "get_project_handler C M pid ctx s =
    (let org = ctx_organization_id ctx; s1 = s\<lparr>clock := \<lambda>n. clock s (Suc n)\<rparr> in
     case (if redis_down s then None else cached_project C M (clock s 0) org pid (redis s)) of
       Some r \<Rightarrow> (Inr r, s1)
     | None \<Rightarrow>
         (case visible_project org pid (work s) of
            None \<Rightarrow> (Inl (project_not_found pid), s1)
          | Some p \<Rightarrow> get_project_answer C M pid ctx (Inr p) s1))"
  using assms
  by (auto simp: get_project_handler_def get_project_lookup_def get_project_answer_def bindE_def cache_get_eq
      tenant_get_project exec_simps cached_project_def Let_def split: option.splits)

lemma get_project_answer_eq:
  "get_project_answer C M pid ctx (Inr p) s =
    (Inr (project_response_of p), let s' = s\<lparr>clock := \<lambda>n. clock s (Suc n)\<rparr> in
      if redis_down s then s'
      else s'\<lparr>redis := set_ex C (clock s 0) (project_cache_key (ctx_organization_id ctx) pid)
        (model_dump_json M (project_response_of p)) 300 (redis s)\<rparr>)"
  by (simp add: get_project_answer_def bindE_def cache_set_eq exec_simps Let_def)

text \<open>On a coherent cache the read answers what the database holds, and keeps the cache coherent.\<close>

lemma get_project_coherent:
  assumes laws: "cache_laws C" "schema_laws M cacheable" and coherent: "cache_coherent C M s"
    and wf: "db_wf (work s)" "work s = committed s"
    and range: "\<forall>p \<in> set (tbl_projects (committed s)). datetime_range (p_created_at p)"
  shows "fst (get_project_handler C M pid ctx s) =
      (case visible_project (ctx_organization_id ctx) pid (committed s) of
         None \<Rightarrow> Inl (project_not_found pid) | Some p \<Rightarrow> Inr (project_response_of p)) \<and>
    committed (snd (get_project_handler C M pid ctx s)) = committed s \<and>
    cache_coherent C M (snd (get_project_handler C M pid ctx s))"
proof -
  let ?org = "ctx_organization_id ctx" and ?s = "s\<lparr>clock := \<lambda>n. clock s (Suc n)\<rparr>"
  have coherent': "cache_coherent C M ?s" by (rule cache_coherent_frame [OF coherent]) simp_all
  show ?thesis
  proof (cases "if redis_down s then None else cached_project C M (clock s 0) ?org pid (redis s)")
    case (Some r)
    then have "cached_project C M (clock s 0) ?org pid (redis s) = Some r" "\<not> redis_down s"
      by (simp_all split: if_splits)
    then obtain p where "visible_project ?org pid (committed s) = Some p" "r = project_response_of p"
      using coherent unfolding cache_coherent_def by blast
    then show ?thesis
      using Some coherent' by (simp add: get_project_handler_eq [OF wf(1)] Let_def)
  next
    case None
    show ?thesis
    proof (cases "visible_project ?org pid (committed s)")
      case None': None
      then show ?thesis
        using None coherent' wf(2) by (simp add: get_project_handler_eq [OF wf(1)] Let_def)
    next
      case (Some p)
      let ?t = "s\<lparr>clock := \<lambda>n. clock s (Suc (Suc n))\<rparr>"
      have "datetime_range (p_created_at p)" using range visible_project_Some [OF Some] by blast
      moreover have t: "cache_coherent C M ?t" by (rule cache_coherent_frame [OF coherent]) simp_all
      ultimately show ?thesis
        using None Some wf(2) cache_coherent_set [OF laws t, of ?org pid p "clock s 1"]
        by (simp add: get_project_handler_eq [OF wf(1)] get_project_answer_eq Let_def)
    qed
  qed
qed

lemma update_project_coherent:
  assumes laws: "cache_laws C" and coherent: "cache_coherent C M s" and up: "\<not> redis_down s"
    and wf: "db_wf (work s)" "work s = committed s"
  shows "cache_coherent C M (snd (update_project_handler C now ast pid u ctx s))"
proof -
  let ?org = "ctx_organization_id ctx"
  obtain res s1 where upd: "update_project now ast ?org pid u None s = (res, s1)" by force
  note same = beside_app [OF project_writes_beside(1) [of s now ast ?org pid u None], unfolded upd snd_conv]
  show ?thesis
  proof (cases res)
    case (Inl e)
    then have "committed s1 = committed s" using project_write_error(1) upd by blast
    then have "cache_coherent C M s1" using same coherent by (intro cache_coherent_frame [OF coherent]) simp_all
    then show ?thesis using upd Inl by (simp add: update_project_handler_def bindE_def)
  next
    case (Inr p')
    obtain p where p: "visible_project ?org pid (work s) = Some p" "p' = updated_project now u p"
      "tbl_projects (committed s1) = replace_project p' (tbl_projects (work s))"
      using update_project_ok [OF wf(1) upd [unfolded Inr]] by blast
    have vis: "visible_project o' q (committed s1) = visible_project o' q (committed s)" if "(o', q) \<noteq> (?org, pid)" for o' q
      using visible_project_replace [OF wf(1) _ _ _ p(3), of p o' q] visible_project_Some [OF p(1)] p(2) wf(2) that
      by (auto simp: updated_project_def)
    show ?thesis
      by (rule cache_coherent_delete [OF laws coherent, of _ "clock s 0" ?org pid])
        (use upd Inr same up vis in \<open>simp_all add: update_project_handler_def bindE_def cache_delete_eq returnE_def Let_def\<close>)
  qed
qed

lemma visible_project_append:
  "visible_project org q d = Some x \<Longrightarrow> tbl_projects d' = tbl_projects d @ [p] \<Longrightarrow>
     visible_project org q d' = Some x"
proof -
  have "find P xs = Some x \<Longrightarrow> find P (xs @ ys) = Some x" for P and xs ys :: "project list"
    by (induction xs) auto
  then show "visible_project org q d = Some x \<Longrightarrow> tbl_projects d' = tbl_projects d @ [p] \<Longrightarrow> ?thesis"
    by (simp add: visible_project_def)
qed

lemma create_project_coherent:
  assumes coherent: "cache_coherent C M s" and wf: "db_wf (work s)" "work s = committed s"
  shows "cache_coherent C M (snd (create_project_handler st ast pc ctx s))"
proof -
  let ?org = "ctx_organization_id ctx"
  obtain res s1 where upd: "create_project st ast ?org pc None s = (res, s1)" by force
  note same = beside_app [OF project_writes_beside(2) [of s st ast ?org pc None], unfolded upd snd_conv]
  have "cache_coherent C M s1"
  proof (cases res)
    case (Inl e)
    then have "committed s1 = committed s" using project_write_error(2) upd by blast
    then show ?thesis using same coherent by (intro cache_coherent_frame [OF coherent]) simp_all
  next
    case (Inr p)
    note p = create_project_ok [OF wf(1) upd [unfolded Inr]]
    show ?thesis
      unfolding cache_coherent_def
    proof (intro allI impI)
      fix now org pid v
      assume "cached_project C M now org pid (redis s1) = Some v"
      then have "cached_project C M now org pid (redis s) = Some v" using same by simp
      then obtain x where "visible_project org pid (committed s) = Some x" "v = project_response_of x"
        using coherent unfolding cache_coherent_def by blast
      then show "\<exists>x. visible_project org pid (committed s1) = Some x \<and> v = project_response_of x"
        using visible_project_append [of org pid "work s" x "committed s1" p] p wf(2) by auto
    qed
  qed
  then show ?thesis
    using upd by (auto simp: create_project_handler_def bindE_def returnE_def split: sum.splits)
qed

text \<open>A session opened and closed around a handler changes nothing the cache depends on.\<close>

lemma request_coherent:
  assumes "cache_coherent C M s" and "db_wf (committed s)"
    and "\<And>ctx. cache_coherent C M (opened s) \<Longrightarrow> cache_coherent C M (snd (handler ctx (opened s)))"
  shows "cache_coherent C M (snd (request J r token org handler s))"
proof -
  have "cache_coherent C M (opened s)" by (rule cache_coherent_frame [OF assms(1)]) simp_all
  with assms(3) show ?thesis
    by (auto simp: request_cases rollback_def cache_coherent_def split: sum.splits prod.splits)
      (metis snd_conv)+
qed

section \<open>A reader that overlaps an update\<close>

lemma get_project_lookup_eq:
  assumes "db_wf (work s)"
  shows "get_project_lookup C M pid ctx s =
    (case (if redis_down s then None else cached_project C M (clock s 0) (ctx_organization_id ctx) pid (redis s)) of
       Some r \<Rightarrow> Inr (Inl r)
     | None \<Rightarrow> (case visible_project (ctx_organization_id ctx) pid (work s) of
                 None \<Rightarrow> Inl (project_not_found pid) | Some p \<Rightarrow> Inr (Inr p)),
     s\<lparr>clock := \<lambda>n. clock s (Suc n)\<rparr>)"
  using assms
  by (auto simp: get_project_lookup_def bindE_def cache_get_eq tenant_get_project exec_simps cached_project_def
      split: option.splits)

lemma patch_project_ok:
  assumes "db_wf (committed s)" and "fst (patch_project J C now ast token org pid u s) = Inr r"
  shows "\<exists>p. visible_project org pid (committed s) = Some p \<and> r = project_response_of (updated_project now u p) \<and>
    visible_project org pid (committed (snd (patch_project J C now ast token org pid u s))) = Some (updated_project now u p)"
proof -
  obtain s' where req: "patch_project J C now ast token org pid u s = (Inr r, s')"
    using assms(2) by (metis prod.collapse)
  obtain ctx s1 where h: "update_project_handler C now ast pid u ctx (opened s) = (Inr r, s1)" "s' = rollback s1"
    "ctx_organization_id ctx = org"
    using request_ok [OF assms(1) req [unfolded patch_project_def]] by blast
  then obtain p' s2 where upd: "update_project now ast org pid u None (opened s) = (Inr p', s2)"
    "r = project_response_of p'" "committed s1 = committed s2"
    by (auto simp: update_project_handler_def bindE_ok returnE_def cache_delete_eq Let_def)
  obtain p where p: "visible_project org pid (committed s) = Some p" "p' = updated_project now u p"
    "tbl_projects (committed s2) = replace_project p' (tbl_projects (committed s))"
    using update_project_ok [OF _ upd(1)] assms(1) by auto
  have "visible_project org pid (committed s2) = Some p'"
    using visible_project_replace [OF assms(1) _ _ _ p(3), of p org pid] visible_project_Some [OF p(1)] p(2)
    by (simp add: updated_project_def)
  with p upd h(2) show ?thesis by (auto simp: req rollback_def)
qed

text \<open>An entry filled at \<open>t\<close> is what every read answers until 300 seconds later.\<close>

lemma filled_entry_served:
  assumes "cache_laws C" and "schema_laws M cacheable" and "datetime_range (p_created_at p)" and "\<not> redis_down s"
    and "ctx_organization_id ctx' = ctx_organization_id ctx"
    and "db_wf (committed s)" and "clock s 2 < clock s 0 + 300 * usec_per_sec"
  shows "fst (get_project_handler C M pid ctx' (opened (snd (get_project_answer C M pid ctx (Inr p) s)))) =
    Inr (project_response_of p)"
proof -
  have "cacheable (project_response_of p)" using assms(3) by (simp add: cacheable_def project_response_of_def)
  from cached_after_set [OF assms(1,2) this] show ?thesis
    using assms(4-7)
    by (simp add: get_project_handler_eq get_project_answer_eq opened_def Let_def numeral_2_eq_2)
qed

section \<open>A schema that satisfies the laws\<close>

text \<open>An object as a JSON object of its fields, with the time in microseconds.\<close>

definition json_opt_uuid :: "uuid option \<Rightarrow> json" where
  "json_opt_uuid u = (case u of None \<Rightarrow> JNull | Some i \<Rightarrow> JStr (uuid_str i))"

definition plain_project_json :: "project_response \<Rightarrow> json" where
  "plain_project_json r = JArr
     [JStr (uuid_str (pr_id r)), JStr (uuid_str (pr_organization_id r)), json_opt_uuid (pr_team_id r), JStr (pr_name r),
      JStr (pr_key r), json_opt_str (pr_description r), JBool (pr_is_archived r), JInt (pr_version_id r), JInt (pr_created_at r)]"

definition opt_of_json :: "json \<Rightarrow> pystr option" where
  "opt_of_json j = (case j of JStr s \<Rightarrow> Some s | _ \<Rightarrow> None)"

definition plain_project_schema :: "project_response schema" where
  "plain_project_schema =
     \<lparr>model_dump_json = \<lambda>r. json_dumps (plain_project_json r),
      model_validate = \<lambda>j. case j of
        JArr [JStr i, JStr org, team, JStr n, JStr k, d, JBool a, JInt v, JInt t] \<Rightarrow>
          Option.bind (uuid_of_str i) (\<lambda>i. Option.bind (uuid_of_str org) (\<lambda>org.
          Some \<lparr>pr_id = i, pr_organization_id = org, pr_team_id = Option.bind (opt_of_json team) uuid_of_str,
                pr_name = n, pr_key = k, pr_description = opt_of_json d, pr_is_archived = a, pr_version_id = v,
                pr_created_at = t\<rparr>))
      | _ \<Rightarrow> None\<rparr>"

lemma plain_project_schema_laws: "schema_laws plain_project_schema covered"
proof -
  have "no_floats (plain_project_json r)" for r
    by (cases "pr_team_id r"; cases "pr_description r") (simp_all add: plain_project_json_def json_opt_uuid_def)
  then have "json_loads (json_dumps (plain_project_json r)) = Some (plain_project_json r)" for r
    by (rule json_roundtrip)
  moreover have "model_validate plain_project_schema (plain_project_json r) = Some r" for r
    by (cases "pr_team_id r"; cases "pr_description r")
      (simp_all add: plain_project_schema_def plain_project_json_def json_opt_uuid_def opt_of_json_def uuid_text_roundtrip)
  moreover have "json_dumps (plain_project_json r) \<noteq> []" for r
    by (simp add: plain_project_json_def)
  ultimately show ?thesis
    by (simp add: schema_laws_def) (simp add: plain_project_schema_def)
qed

end
