(* ===== verification/Base64.thy ===== *)
theory Base64
  imports PyText
begin

text \<open>
  \<open>base64.urlsafe_b64encode\<close> and \<open>urlsafe_b64decode\<close> on bytes as characters. Decoding is the
  loop of \<open>binascii.a2b_base64\<close> in its lenient mode: a character outside the alphabet is
  skipped, the standard and the URL-safe characters for 62 and 63 both count, a completed pad
  ends the input, and an incomplete group is an error.
\<close>

definition b64_char :: "nat \<Rightarrow> char" where
  "b64_char v =
     (if v < 26 then char_of (65 + v) else if v < 52 then char_of (71 + v)
      else if v < 62 then char_of (v - 4) else if v = 62 then CHR ''-'' else CHR ''_'')"

definition b64_val :: "char \<Rightarrow> nat option" where
  "b64_val c =
     (let n = (of_char c :: nat) in
      if 65 \<le> n \<and> n \<le> 90 then Some (n - 65)
      else if 97 \<le> n \<and> n \<le> 122 then Some (n - 71)
      else if 48 \<le> n \<and> n \<le> 57 then Some (n + 4)
      else if c = CHR ''-'' \<or> c = CHR ''+'' then Some 62
      else if c = CHR ''_'' \<or> c = CHR ''/'' then Some 63
      else None)"

fun b64encode :: "nat list \<Rightarrow> pystr" where
  "b64encode [] = []"
| "b64encode [a] = [b64_char (a div 4), b64_char (a mod 4 * 16), CHR ''='', CHR ''='']"
| "b64encode [a, b] = [b64_char (a div 4), b64_char (a mod 4 * 16 + b div 16), b64_char (b mod 16 * 4), CHR ''='']"
| "b64encode (a # b # c # bs) =
     [b64_char (a div 4), b64_char (a mod 4 * 16 + b div 16), b64_char (b mod 16 * 4 + c div 64), b64_char (c mod 64)]
     @ b64encode bs"

text \<open>The position in the group of four, the bits left over, the pads seen in a row.\<close>

fun a2b :: "nat \<Rightarrow> nat \<Rightarrow> nat \<Rightarrow> pystr \<Rightarrow> nat list option" where
  "a2b quad left pads [] = (if quad = 0 then Some [] else None)"
| "a2b quad left pads (c # cs) =
     (if c = CHR ''='' then
        (if 2 \<le> quad \<and> 4 \<le> quad + (pads + 1) then Some []
         else a2b quad left (if 2 \<le> quad then pads + 1 else pads) cs)
      else (case b64_val c of
          None \<Rightarrow> a2b quad left pads cs
        | Some v \<Rightarrow>
            if quad = 0 then a2b 1 v 0 cs
            else if quad = 1 then map_option (Cons (left * 4 + v div 16)) (a2b 2 (v mod 16) 0 cs)
            else if quad = 2 then map_option (Cons (left * 16 + v div 4)) (a2b 3 (v mod 4) 0 cs)
            else map_option (Cons (left * 64 + v)) (a2b 0 0 0 cs)))"

definition urlsafe_b64encode :: "pystr \<Rightarrow> pystr" where
  "urlsafe_b64encode s = b64encode (map of_char s)"

definition urlsafe_b64decode :: "pystr \<Rightarrow> pystr option" where
  "urlsafe_b64decode s = map_option (map char_of) (a2b 0 0 0 s)"

lemma b64_val_char [simp]: "v < 64 \<Longrightarrow> b64_val (b64_char v) = Some v" "v < 64 \<Longrightarrow> b64_char v \<noteq> CHR ''=''"
  by (auto simp: b64_val_def b64_char_def Let_def char_of_eq_iff take_bit_eq_mod)

text \<open>The six-bit groups of three bytes.\<close>

lemma b64_groups:
  "(a::nat) < 256 \<Longrightarrow> a div 4 < 64" "(b::nat) < 256 \<Longrightarrow> a mod 4 * 16 + b div 16 < 64"
  "(c::nat) < 256 \<Longrightarrow> b mod 16 * 4 + c div 64 < 64" "a mod 4 * 16 < (64::nat)" "b mod 16 * 4 < (64::nat)" "c mod 64 < (64::nat)"
  by auto

lemma b64_bytes:
  "(b::nat) < 256 \<Longrightarrow> a div 4 * 4 + (a mod 4 * 16 + b div 16) div 16 = a"
  "(b::nat) < 256 \<Longrightarrow> (a mod 4 * 16 + b div 16) mod 16 = b div 16"
  "(c::nat) < 256 \<Longrightarrow> b div 16 * 16 + (b mod 16 * 4 + c div 64) div 4 = b"
  "(c::nat) < 256 \<Longrightarrow> (b mod 16 * 4 + c div 64) mod 4 = c div 64"
  by (auto simp: div_add1_eq)

lemma a2b_b64encode: "\<forall>b \<in> set bs. b < 256 \<Longrightarrow> a2b 0 left pads (b64encode bs) = Some bs"
proof (induction bs arbitrary: left pads rule: b64encode.induct)
  case (2 a)
  then show ?case by (simp add: b64_groups)
next
  case (3 a b)
  then show ?case using b64_bytes(1,2) [of b a] by (simp add: b64_groups)
next
  case (4 a b c bs)
  then show ?case using b64_bytes [of b a] b64_bytes [of c b] by (simp add: b64_groups)
qed simp

lemma urlsafe_b64_roundtrip: "urlsafe_b64decode (urlsafe_b64encode s) = Some s"
proof -
  have "\<forall>b \<in> set (map of_char s :: nat list). b < 256" by auto
  then show ?thesis
    by (simp add: urlsafe_b64decode_def urlsafe_b64encode_def a2b_b64encode comp_def)
qed

end
