(* ===== verification/Cursor.thy ===== *)
theory Cursor
  imports Calendar Base64 JsonText Keyset
begin

text \<open>
  The opaque cursors of the feeds (\<open>app/core/pagination.py\<close>): the time and the id of a row as
  JSON in URL-safe base64. A cursor that does not decode is \<open>None\<close>, as the \<open>except Exception\<close>
  of the source makes it. The interpretation says that the pair of functions is a codec.
\<close>

text \<open>\<open>bytes.decode("utf-8")\<close>; what lies beyond the text of the model or is malformed is refused.\<close>

fun utf8_decode :: "pystr \<Rightarrow> pystr option" where
  "utf8_decode [] = Some []"
| "utf8_decode (c # cs) =
     (let n = (of_char c :: nat) in
      if n < 128 then map_option (Cons c) (utf8_decode cs)
      else (case cs of
              [] \<Rightarrow> None
            | d # cs \<Rightarrow>
                (let m = (of_char d :: nat) in
                 if (n = 194 \<or> n = 195) \<and> 128 \<le> m \<and> m < 192
                 then map_option (Cons (char_of ((n - 192) * 64 + (m - 128)))) (utf8_decode cs) else None)))"

definition cursor_payload :: "instant \<Rightarrow> uuid \<Rightarrow> json" where
  "cursor_payload created_at entity_id =
     JObj [(''ts'', JStr (isoformat_utc created_at)), (''id'', JStr (uuid_str entity_id))]"

definition encode_cursor :: "instant \<times> uuid \<Rightarrow> pystr" where
  "encode_cursor = (\<lambda>(created_at, entity_id). urlsafe_b64encode (json_dumps (cursor_payload created_at entity_id)))"

text \<open>\<open>payload["ts"]\<close> and \<open>payload["id"]\<close> fail on what is not an object, lacks the key, or is not text.\<close>

definition payload_text :: "json \<Rightarrow> pystr \<Rightarrow> pystr option" where
  "payload_text payload k =
     (case payload of
        JObj kvs \<Rightarrow> (case dict_get kvs k of Some (JStr t) \<Rightarrow> Some t | _ \<Rightarrow> None)
      | _ \<Rightarrow> None)"

definition decode_cursor :: "(pystr \<Rightarrow> instant option) \<Rightarrow> pystr \<Rightarrow> (instant \<times> uuid) option" where
  "decode_cursor other cursor_str =
     Option.bind (urlsafe_b64decode cursor_str) (\<lambda>raw_bytes.
     Option.bind (utf8_decode raw_bytes) (\<lambda>txt.
     Option.bind (json_loads txt) (\<lambda>payload.
     Option.bind (payload_text payload ''ts'') (\<lambda>ts_text.
     Option.bind (fromisoformat other ts_text) (\<lambda>ts.
     Option.bind (payload_text payload ''id'') (\<lambda>id_text.
     Option.bind (uuid_of_str id_text) (\<lambda>entity_id. Some (ts, entity_id))))))))"

section \<open>The codec\<close>

lemma utf8_decode_ascii: "\<forall>c \<in> set s. (of_char c :: nat) < 128 \<Longrightarrow> utf8_decode s = Some s"
  by (induction s) simp_all

lemma ascii_hex: "d < 16 \<Longrightarrow> (of_char (hex_char d) :: nat) < 128"
  using hex_char_table [of d] by (auto simp: hex_char_def)

lemma ascii_json_char: "c' \<in> set (json_char c) \<Longrightarrow> (of_char c' :: nat) < 128"
  by (auto simp: json_char_def split: if_splits dest!: set_hex_digits intro: ascii_hex)

lemma ascii_json_string: "c \<in> set (json_string s) \<Longrightarrow> (of_char c :: nat) < 128"
  by (auto simp: json_string_def dest: ascii_json_char)

lemma ascii_payload: "c \<in> set (json_dumps (cursor_payload t i)) \<Longrightarrow> (of_char c :: nat) < 128"
  by (auto simp: cursor_payload_def dest: ascii_json_string)

lemma decode_encode_cursor: "datetime_range t \<Longrightarrow> decode_cursor other (encode_cursor (t, i)) = Some (t, i)"
proof -
  assume "datetime_range t"
  then have ts: "fromisoformat other (isoformat_utc t) = Some t"
    by (simp add: fromisoformat_def isoformat_roundtrip)
  have "utf8_decode (json_dumps (cursor_payload t i)) = Some (json_dumps (cursor_payload t i))"
    by (rule utf8_decode_ascii) (use ascii_payload in blast)
  moreover have "json_loads (json_dumps (cursor_payload t i)) = Some (cursor_payload t i)"
    by (rule json_roundtrip) (simp add: cursor_payload_def)
  moreover have "payload_text (cursor_payload t i) ''ts'' = Some (isoformat_utc t)"
    "payload_text (cursor_payload t i) ''id'' = Some (uuid_str i)"
    by (simp_all add: payload_text_def cursor_payload_def dict_get_def)
  ultimately show ?thesis
    using ts by (simp add: decode_cursor_def encode_cursor_def urlsafe_b64_roundtrip uuid_text_roundtrip)
qed

lemma encode_cursor_not_empty: "encode_cursor k \<noteq> []"
proof -
  have "b64encode (a # bs) \<noteq> []" for a bs by (cases "a # bs" rule: b64encode.cases) simp_all
  then show ?thesis by (cases k) (simp add: encode_cursor_def urlsafe_b64encode_def cursor_payload_def)
qed

interpretation cursor: cursor_codec encode_cursor "decode_cursor other" "\<lambda>k. datetime_range (fst k)" for other
  by unfold_locales (auto simp: decode_encode_cursor encode_cursor_not_empty)

end
