(* ===== verification/FeedApi.thy ===== *)
theory FeedApi
  imports TaskApi Cursor
begin

text \<open>
  The cursor feed of tasks (\<open>list_tasks_feed\<close>, \<open>app/api/v1/endpoints/tasks.py\<close>): a page of the
  keyset listing and the opaque cursor of its last row. The task feed with the cursor codec is
  an instance of \<open>cursor_feed\<close>, so a client that hands the cursors back sees every task once.
\<close>

record 'a cursor_page =
  cp_items :: "'a list"
  cp_next_cursor :: "pystr option"
  cp_has_more :: bool

definition feed_filters :: "uuid option \<Rightarrow> task_status option \<Rightarrow> task_filter_params" where
  "feed_filters project_id status =
     \<lparr>tf_project_id = project_id, tf_status = status, tf_priority = None, tf_assignee_id = None,
      tf_reporter_id = None, tf_search = None, tf_sort_by = ''created_at:desc''\<rparr>"

definition list_tasks_feed_handler ::
  "(pystr \<Rightarrow> instant option) \<Rightarrow> (task list \<Rightarrow> task list) \<Rightarrow> uuid option \<Rightarrow> task_status option \<Rightarrow>
     pystr option \<Rightarrow> nat \<Rightarrow> tenant_context \<Rightarrow> ('z, task_response cursor_page) tx" where
  "list_tasks_feed_handler other scan project_id status cursor limit ctx =
     (let cursor_data = cursor_key (decode_cursor other) cursor in
      bindE (list_tasks_cursor scan (ctx_organization_id ctx) (feed_filters project_id status) cursor_data limit)
        (\<lambda>(items, has_more).
      returnE \<lparr>cp_items = map task_response items,
               cp_next_cursor = next_cursor encode_cursor task_key items has_more,
               cp_has_more = has_more\<rparr>))"

definition list_tasks_feed ::
  "jwt_api \<Rightarrow> (pystr \<Rightarrow> instant option) \<Rightarrow> (task list \<Rightarrow> task list) \<Rightarrow> pystr \<Rightarrow> uuid \<Rightarrow> uuid option \<Rightarrow>
     task_status option \<Rightarrow> pystr option \<Rightarrow> nat \<Rightarrow> ('r, 'z, task_response cursor_page) app" where
  "list_tasks_feed J other scan token org project_id status cursor limit =
     request J VIEWER token org (list_tasks_feed_handler other scan project_id status cursor limit)"

section \<open>The feed as an instance of the cursor interface\<close>

interpretation task_tokens: cursor_feed task_key "\<lambda>i j. j < i" "task_feed org filters"
    "tasks_cursor_page (\<lambda>rs. rs) org filters" encode_cursor "decode_cursor other" "\<lambda>k. datetime_range (fst k)"
  for org filters other ..

lemma token_walk_map:
  "token_walk (\<lambda>c. (map f (fst (page c)), snd (page c))) fuel c = map f (token_walk page fuel c)"
  by (induction fuel arbitrary: c) (simp_all split: prod.splits)

lemma list_tasks_feed_eq:
  assumes "db_wf (committed s)" and "row_order scan"
    and "fst (authorize J VIEWER token org (s\<lparr>work := committed s\<rparr>)) = Inr ctx"
  shows "fst (list_tasks_feed J other scan token org pid st cursor limit s) =
    (case tasks_cursor_page (\<lambda>rs. rs) org (feed_filters pid st) (tbl_tasks (committed s)) limit
            (cursor_key (decode_cursor other) cursor) of
       (items, has_more) \<Rightarrow>
         Inr \<lparr>cp_items = map task_response items,
              cp_next_cursor = next_cursor encode_cursor task_key items has_more, cp_has_more = has_more\<rparr>)"
proof -
  have "ctx_organization_id ctx = org"
    using authorize_ok [of "s\<lparr>work := committed s\<rparr>" J VIEWER token org ctx] assms(1,3) by simp
  then show ?thesis
    using assms
    by (auto simp: list_tasks_feed_def request_cases list_tasks_feed_handler_def list_tasks_cursor_def exec_simps
        tasks_cursor_page_scan [OF assms(2) wf_task_keys [OF assms(1)]] Let_def split: prod.splits)
qed

lemma preserves_feed_handler [preserve_intros]:
  "preserves I (list_tasks_feed_handler other scan pid st cursor limit ctx)"
  unfolding list_tasks_feed_handler_def list_tasks_cursor_def Let_def by (auto intro!: preserve_intros)

end
