(* ===== verification/Comments.thy ===== *)
theory Comments
  imports FeedApi
begin

text \<open>
  Comments (\<open>app/services/comment.py\<close>, \<open>app/repositories/comment.py\<close>,
  \<open>app/api/v1/endpoints/comments.py\<close>): adding and editing a comment, each in a transaction,
  with the event to the room of the task's project, and the chronological cursor listing.
\<close>

section \<open>Payloads and answers\<close>

record comment_payload =
  cc_content :: pystr

definition valid_comment :: "comment_payload \<Rightarrow> bool" where
  "valid_comment p \<longleftrightarrow> 1 \<le> length (cc_content p) \<and> length (cc_content p) \<le> 10000"

record comment_response =
  cr_id :: uuid
  cr_organization_id :: uuid
  cr_task_id :: uuid
  cr_author_id :: uuid
  cr_author_name :: pystr
  cr_author_avatar_url :: "pystr option"
  cr_content :: pystr
  cr_is_edited :: bool
  cr_created_at :: instant

section \<open>The repository\<close>

abbreviation comment_key :: "comment \<Rightarrow> instant \<times> uuid" where
  "comment_key c \<equiv> (c_created_at c, c_id c)"

definition comment_cursor_filter :: "(instant \<times> uuid) option \<Rightarrow> comment \<Rightarrow> bool" where
  "comment_cursor_filter cursor_data c \<longleftrightarrow>
     (case cursor_data of
        None \<Rightarrow> True
      | Some (cursor_ts, cursor_id) \<Rightarrow>
          cursor_ts < c_created_at c \<or> (c_created_at c = cursor_ts \<and> cursor_id < c_id c))"

definition comments_page ::
  "(comment list \<Rightarrow> comment list) \<Rightarrow> uuid \<Rightarrow> uuid \<Rightarrow> comment list \<Rightarrow> nat \<Rightarrow> (instant \<times> uuid) option \<Rightarrow>
     comment list \<times> bool" where
  "comments_page scan org task_id rows limit cursor_data =
     keyset_page (sort_key comment_key
       (filter (\<lambda>c. c_organization_id c = org \<and> c_task_id c = task_id \<and> comment_cursor_filter cursor_data c)
         (scan rows))) limit"

definition list_comments_cursor ::
  "(comment list \<Rightarrow> comment list) \<Rightarrow> uuid \<Rightarrow> uuid \<Rightarrow> (instant \<times> uuid) option \<Rightarrow> nat \<Rightarrow> ('z, comment list \<times> bool) tx" where
  "list_comments_cursor scan org task_id cursor_data limit =
     getsE (\<lambda>s. comments_page scan org task_id (tbl_comments (work s)) limit cursor_data)"

section \<open>The service\<close>

definition add_comment ::
  "row_stamp \<Rightarrow> uuid \<Rightarrow> uuid \<Rightarrow> uuid \<Rightarrow> comment_payload \<Rightarrow> ('z, comment) tx" where
  "add_comment st organization_id task_id author_id payload =
     transaction
       (bindE (tenant_get_by_id Task organization_id task_id False) (\<lambda>found.
        bindE (some_or_raise found (task_not_found task_id)) (\<lambda>_.
        tenant_create Comment organization_id
          \<lparr>c_id = st_id st, c_organization_id = organization_id, c_task_id = task_id, c_author_id = author_id,
           c_content = py_strip (cc_content payload), c_is_edited = False, c_created_at = st_created_at st,
           c_updated_at = st_updated_at st\<rparr>)))"

text \<open>\<open>joinedload(Comment.author)\<close> and the answer of a listed comment.\<close>

definition listed_comment :: "database \<Rightarrow> comment \<Rightarrow> comment_response" where
  "listed_comment d c =
     (let author = find (\<lambda>u. u_id u = c_author_id c) (tbl_users d) in
      \<lparr>cr_id = c_id c, cr_organization_id = c_organization_id c, cr_task_id = c_task_id c,
       cr_author_id = c_author_id c,
       cr_author_name = (case author of Some u \<Rightarrow> u_full_name u | None \<Rightarrow> ''Unknown''),
       cr_author_avatar_url = (case author of Some u \<Rightarrow> u_avatar_url u | None \<Rightarrow> None),
       cr_content = c_content c, cr_is_edited = c_is_edited c, cr_created_at = c_created_at c\<rparr>)"

definition list_comments ::
  "(pystr \<Rightarrow> instant option) \<Rightarrow> (comment list \<Rightarrow> comment list) \<Rightarrow> uuid \<Rightarrow> uuid \<Rightarrow> pystr option \<Rightarrow> nat \<Rightarrow>
     ('z, comment_response cursor_page) tx" where
  "list_comments other scan organization_id task_id cursor limit =
     (let cursor_data = cursor_key (decode_cursor other) cursor in
      bindE (list_comments_cursor scan organization_id task_id cursor_data limit) (\<lambda>(items, has_more).
      bindE (getsE (\<lambda>s. map (listed_comment (work s)) items)) (\<lambda>response_items.
      returnE \<lparr>cp_items = response_items, cp_next_cursor = next_cursor encode_cursor comment_key items has_more,
               cp_has_more = has_more\<rparr>)))"

definition comment_not_found :: "uuid \<Rightarrow> exn" where
  "comment_not_found comment_id = EntityNotFoundException ''Comment'' (uuid_str comment_id)"

definition edit_forbidden :: exn where
  "edit_forbidden = ForbiddenOperationException ''You are not allowed to edit this comment.''"

definition update_comment ::
  "instant \<Rightarrow> uuid \<Rightarrow> uuid \<Rightarrow> uuid \<Rightarrow> org_role \<Rightarrow> comment_payload \<Rightarrow> ('z, comment) tx" where
  "update_comment now organization_id comment_id user_id user_role payload =
     transaction
       (bindE (tenant_get_by_id Comment organization_id comment_id False) (\<lambda>found.
        bindE (some_or_raise found (comment_not_found comment_id)) (\<lambda>comment.
        bindE (raise_if (c_author_id comment \<noteq> user_id \<and> user_role \<notin> {ADMIN, OWNER}) edit_forbidden) (\<lambda>_.
        flush_dirty Comment now (comment\<lparr>c_content := py_strip (cc_content payload), c_is_edited := True\<rparr>)))))"

section \<open>The endpoints\<close>

text \<open>The answer names the caller as the author, and the task of the path.\<close>

definition comment_answer :: "uuid \<Rightarrow> tenant_context \<Rightarrow> comment \<Rightarrow> comment_response" where
  "comment_answer task_id ctx comment =
     \<lparr>cr_id = c_id comment, cr_organization_id = c_organization_id comment, cr_task_id = task_id,
      cr_author_id = u_id (ctx_user ctx), cr_author_name = u_full_name (ctx_user ctx),
      cr_author_avatar_url = u_avatar_url (ctx_user ctx), cr_content = c_content comment,
      cr_is_edited = c_is_edited comment, cr_created_at = c_created_at comment\<rparr>"

definition broadcast_to_task_room :: "uuid \<Rightarrow> uuid \<Rightarrow> pystr \<Rightarrow> json \<Rightarrow> ('r, 'z, unit) app" where
  "broadcast_to_task_room org task_id event_type data =
     bindE (tenant_get_by_id Task org task_id False) (\<lambda>found.
       (case found of Some task \<Rightarrow> broadcast_to_room (t_project_id task) event_type data | None \<Rightarrow> returnE ()))"

definition create_comment_handler ::
  "row_stamp \<Rightarrow> uuid \<Rightarrow> comment_payload \<Rightarrow> tenant_context \<Rightarrow> ('r, 'z, comment_response) app" where
  "create_comment_handler st task_id payload ctx =
     bindE (add_comment st (ctx_organization_id ctx) task_id (u_id (ctx_user ctx)) payload) (\<lambda>comment.
     bindE (broadcast_to_task_room (ctx_organization_id ctx) task_id ''COMMENT_ADDED''
              (JObj [(''task_id'', JStr (uuid_str task_id)), (''comment_id'', JStr (uuid_str (c_id comment))),
                     (''author'', JStr (u_full_name (ctx_user ctx))), (''content'', JStr (c_content comment))])) (\<lambda>_.
     returnE (comment_answer (c_task_id comment) ctx comment)))"

definition list_comments_handler ::
  "(pystr \<Rightarrow> instant option) \<Rightarrow> (comment list \<Rightarrow> comment list) \<Rightarrow> uuid \<Rightarrow> pystr option \<Rightarrow> nat \<Rightarrow> tenant_context \<Rightarrow>
     ('z, comment_response cursor_page) tx" where
  "list_comments_handler other scan task_id cursor limit ctx =
     list_comments other scan (ctx_organization_id ctx) task_id cursor limit"

definition update_comment_handler ::
  "instant \<Rightarrow> uuid \<Rightarrow> uuid \<Rightarrow> comment_payload \<Rightarrow> tenant_context \<Rightarrow> ('r, 'z, comment_response) app" where
  "update_comment_handler now task_id comment_id payload ctx =
     bindE (update_comment now (ctx_organization_id ctx) comment_id (u_id (ctx_user ctx)) (ctx_role ctx) payload) (\<lambda>comment.
     bindE (broadcast_to_task_room (ctx_organization_id ctx) task_id ''COMMENT_UPDATED''
              (JObj [(''task_id'', JStr (uuid_str task_id)), (''comment_id'', JStr (uuid_str (c_id comment))),
                     (''content'', JStr (c_content comment))])) (\<lambda>_.
     returnE (comment_answer task_id ctx comment)))"

definition post_comment ::
  "jwt_api \<Rightarrow> row_stamp \<Rightarrow> pystr \<Rightarrow> uuid \<Rightarrow> uuid \<Rightarrow> comment_payload \<Rightarrow> ('r, 'z, comment_response) app" where
  "post_comment J st token org task_id payload = request J MEMBER token org (create_comment_handler st task_id payload)"

definition get_comments ::
  "jwt_api \<Rightarrow> (pystr \<Rightarrow> instant option) \<Rightarrow> (comment list \<Rightarrow> comment list) \<Rightarrow> pystr \<Rightarrow> uuid \<Rightarrow> uuid \<Rightarrow> pystr option \<Rightarrow>
     nat \<Rightarrow> ('r, 'z, comment_response cursor_page) app" where
  "get_comments J other scan token org task_id cursor limit =
     request J VIEWER token org (list_comments_handler other scan task_id cursor limit)"

definition patch_comment ::
  "jwt_api \<Rightarrow> instant \<Rightarrow> pystr \<Rightarrow> uuid \<Rightarrow> uuid \<Rightarrow> uuid \<Rightarrow> comment_payload \<Rightarrow> ('r, 'z, comment_response) app" where
  "patch_comment J now token org task_id comment_id payload =
     request J MEMBER token org (update_comment_handler now task_id comment_id payload)"

section \<open>Invariants\<close>

lemma preserves_broadcast_task [preserve_intros]:
  "session_frame I \<Longrightarrow> preserves I (broadcast_to_task_room org tid e dta)"
  unfolding broadcast_to_task_room_def by (intro preserve_intros)

lemma comment_service_wf [preserve_intros]:
  "preserves session_wf (add_comment st org tid a p)"
  "preserves session_wf (update_comment now org cid u r p)"
  unfolding add_comment_def update_comment_def
  by (intro preserve_intros comments_tbl.tenant_create_wf comments_tbl.flush_dirty_wf)+

lemma comment_handlers_wf [preserve_intros]:
  "preserves session_wf (create_comment_handler st tid p ctx)"
  "preserves session_wf (update_comment_handler now tid cid p ctx)"
  unfolding create_comment_handler_def update_comment_handler_def
  by (intro preserve_intros session_frame_wf)+

lemma add_comment_keeps_tenant [preserve_intros]:
  "b \<noteq> org \<Longrightarrow> preserves (keeps_tenant b d0) (add_comment st org tid a p)"
  unfolding add_comment_def by (intro preserve_intros comments_tbl.tenant_create_keeps_tenant)

lemma update_comment_keeps_tenant:
  assumes "b \<noteq> org" and "db_wf (work s)" and "keeps_tenant b d0 s"
  shows "keeps_tenant b d0 (snd (update_comment now org cid u r p s))"
  using comments_tbl.guarded_flush_keeps_tenant [OF assms, where k = "\<lambda>_ r. returnE r"]
  unfolding update_comment_def
  by (intro transaction_keeps_tenant_at) (simp add: bindE_return_right preserves_returnE)

lemma comment_handlers_keep_tenant:
  assumes "b \<noteq> ctx_organization_id ctx" and "db_wf (work s)" and "keeps_tenant b d0 s"
  shows "keeps_tenant b d0 (snd (create_comment_handler st tid p ctx s)) \<and>
    keeps_tenant b d0 (snd (update_comment_handler now tid cid p ctx s))"
proof
  have "preserves (keeps_tenant b d0) (create_comment_handler st tid p ctx)"
    unfolding create_comment_handler_def using assms(1) by (intro preserve_intros session_frame_keeps)
  then show "keeps_tenant b d0 (snd (create_comment_handler st tid p ctx s))"
    using assms(3) by (rule preservesD)
  have rest: "preserves (keeps_tenant b d0) (bindE (broadcast_to_task_room org tid e dta) (\<lambda>_. returnE x))"
    for org e dta and x :: comment_response
    by (intro preserve_intros session_frame_keeps)
  show "keeps_tenant b d0 (snd (update_comment_handler now tid cid p ctx s))"
    unfolding update_comment_handler_def
    by (rule bindE_keeps, rule update_comment_keeps_tenant [OF assms], erule preservesD [OF rest])
qed

section \<open>The listing as an instance of the cursor interface\<close>

definition comment_feed :: "uuid \<Rightarrow> uuid \<Rightarrow> comment list \<Rightarrow> comment list" where
  "comment_feed org tid rows = sort_key comment_key (filter (\<lambda>c. c_organization_id c = org \<and> c_task_id c = tid) rows)"

lemma comment_cursor_filter_less: "comment_cursor_filter (Some k) c \<longleftrightarrow> k < comment_key c"
  by (auto simp: comment_cursor_filter_def less_prod_def' split: prod.splits)

interpretation comment_tokens: cursor_feed comment_key "(<)" "comment_feed org tid" "comments_page (\<lambda>rs. rs) org tid"
    encode_cursor "decode_cursor other" "\<lambda>k. datetime_range (fst k)" for org tid other
proof
  fix rows :: "comment list" and n :: nat and k
  assume "distinct (map comment_key rows)"
  then have "distinct (map comment_key (filter (\<lambda>c. c_organization_id c = org \<and> c_task_id c = tid) rows))"
    by (rule distinct_map_filter)
  then have "sorted_wrt (<) (map comment_key (comment_feed org tid rows))"
    by (simp only: comment_feed_def strict_sorted_iff) (simp add: distinct_map)
  then show "sorted_wrt (\<lambda>x y. comment_key x < comment_key y) (comment_feed org tid rows)"
    by (simp add: sorted_wrt_map)
  show "comments_page (\<lambda>rs. rs) org tid rows n (Some k) =
      keyset_page (filter (\<lambda>c. k < comment_key c) (comment_feed org tid rows)) n"
    by (simp add: comments_page_def comment_feed_def comment_cursor_filter_less filter_sort conj_ac)
next
  fix rows :: "comment list" and n :: nat
  show "comments_page (\<lambda>rs. rs) org tid rows n None = keyset_page (comment_feed org tid rows) n"
    by (simp add: comments_page_def comment_feed_def comment_cursor_filter_def)
qed auto

lemma wf_comment_keys: "db_wf d \<Longrightarrow> distinct (map comment_key (tbl_comments d))"
  using comments_tbl.pk_distinct [of d] by (auto simp: distinct_map inj_on_def)

lemma comments_page_scan:
  "row_order scan \<Longrightarrow> distinct (map comment_key rows) \<Longrightarrow>
     comments_page scan org tid rows n c = comments_page (\<lambda>rs. rs) org tid rows n c"
  by (simp add: comments_page_def sort_key_scan)

text \<open>The listing endpoint on an admitted request.\<close>

lemma get_comments_eq:
  assumes "db_wf (committed s)" and "row_order scan"
    and "fst (authorize J VIEWER token org (s\<lparr>work := committed s\<rparr>)) = Inr ctx"
  shows "fst (get_comments J other scan token org tid cursor limit s) =
    (case comments_page (\<lambda>rs. rs) org tid (tbl_comments (committed s)) limit (cursor_key (decode_cursor other) cursor) of
       (items, has_more) \<Rightarrow>
         Inr \<lparr>cp_items = map (listed_comment (committed s)) items,
              cp_next_cursor = next_cursor encode_cursor comment_key items has_more, cp_has_more = has_more\<rparr>)"
proof -
  have "ctx_organization_id ctx = org"
    using authorize_ok [of "s\<lparr>work := committed s\<rparr>" J VIEWER token org ctx] assms(1,3) by simp
  then show ?thesis
    using assms
    by (auto simp: get_comments_def request_cases list_comments_handler_def list_comments_def list_comments_cursor_def
        exec_simps comments_page_scan [OF assms(2) wf_comment_keys [OF assms(1)]] Let_def split: prod.splits)
qed

section \<open>Adding and editing on every branch\<close>

definition visible_comment :: "uuid \<Rightarrow> uuid \<Rightarrow> database \<Rightarrow> comment option" where
  "visible_comment org cid d = find (\<lambda>c. c_id c = cid \<and> c_organization_id c = org) (tbl_comments d)"

lemma tenant_get_comment:
  "db_wf (work s) \<Longrightarrow> tenant_get_by_id Comment org cid False s = (Inr (visible_comment org cid (work s)), s)"
  by (simp add: comments_tbl.tenant_get_by_id_eq visible_comment_def not_deleted_def)

lemma visible_comment_Some:
  "visible_comment org cid d = Some c \<Longrightarrow> c \<in> set (tbl_comments d) \<and> c_id c = cid \<and> c_organization_id c = org"
  by (auto simp: visible_comment_def find_Some_iff)

definition new_comment :: "row_stamp \<Rightarrow> uuid \<Rightarrow> uuid \<Rightarrow> uuid \<Rightarrow> pystr \<Rightarrow> comment" where
  "new_comment st org tid author txt =
     \<lparr>c_id = st_id st, c_organization_id = org, c_task_id = tid, c_author_id = author, c_content = txt,
      c_is_edited = False, c_created_at = st_created_at st, c_updated_at = st_updated_at st\<rparr>"

definition replace_comment :: "comment \<Rightarrow> comment list \<Rightarrow> comment list" where
  "replace_comment c' cs = map (\<lambda>c. if c_id c = c_id c' then c' else c) cs"

lemma add_comment_eq:
  assumes wf: "db_wf (work s)" and ok: "commit_fault s = None" and author: "a \<in> user_ids (work s)"
    and fresh: "st_id st \<notin> c_id ` set (tbl_comments (work s))"
  shows "add_comment st org tid a p s =
    (case visible_task org tid (work s) of
       None \<Rightarrow> (Inl (task_not_found tid), rollback s)
     | Some t \<Rightarrow>
         let c = new_comment st org tid a (py_strip (cc_content p));
             d = (work s)\<lparr>tbl_comments := tbl_comments (work s) @ [c]\<rparr>
         in (Inr c, s\<lparr>work := d, committed := d\<rparr>))"
proof (cases "visible_task org tid (work s)")
  case None
  then show ?thesis by (simp add: add_comment_def transaction_cases exec_simps tenant_get_task [OF wf])
next
  case (Some t)
  note t = visible_task_Some [OF Some]
  have "violation Task (work s) t = None"
    using tasks_tbl.wf_table [OF wf] t by (simp add: table_ok_def)
  then have "org \<in> organization_ids (work s)"
    using t by (auto simp: violation_def Task_def split: if_splits)
  moreover have "tid \<in> task_ids (work s)" using t by (auto simp: task_ids_def)
  ultimately show ?thesis
    using Some ok author fresh
    by (auto simp: add_comment_def transaction_cases exec_simps tenant_get_task [OF wf] tenant_create_def base_create_def
        insert_row_def violation_def Comment_def new_comment_def key_set_defs Let_def)
qed

lemma comment_edit_no_violation:
  assumes wf: "db_wf d" and c: "c \<in> set (tbl_comments d)"
    and "c_organization_id c' = c_organization_id c" "c_task_id c' = c_task_id c" "c_author_id c' = c_author_id c"
  shows "violation Comment (d\<lparr>tbl_comments := cs\<rparr>) c' = None"
proof -
  have "violation Comment d c = None"
    using comments_tbl.wf_table [OF wf] c by (simp add: table_ok_def)
  then show ?thesis using assms(3-5) by (auto simp: violation_def Comment_def key_set_defs split: if_splits)
qed

text \<open>The row after an edit; an edit that changes nothing writes nothing.\<close>

definition edited_comment :: "instant \<Rightarrow> pystr \<Rightarrow> comment \<Rightarrow> comment" where
  "edited_comment now txt c =
     (if c_content c = txt \<and> c_is_edited c then c
      else c\<lparr>c_content := txt, c_is_edited := True, c_updated_at := now\<rparr>)"

lemma update_comment_eq:
  assumes wf: "db_wf (work s)" and ok: "commit_fault s = None"
  shows "update_comment now org cid u r p s =
    (case visible_comment org cid (work s) of
       None \<Rightarrow> (Inl (comment_not_found cid), rollback s)
     | Some c \<Rightarrow>
         if c_author_id c \<noteq> u \<and> r \<notin> {ADMIN, OWNER} then (Inl edit_forbidden, rollback s)
         else let c' = edited_comment now (py_strip (cc_content p)) c;
                  d = (work s)\<lparr>tbl_comments := replace_comment c' (tbl_comments (work s))\<rparr>
              in (Inr c', s\<lparr>work := d, committed := d\<rparr>))"
proof (cases "visible_comment org cid (work s)")
  case None
  then show ?thesis by (simp add: update_comment_def transaction_cases exec_simps tenant_get_comment [OF wf])
next
  case (Some c)
  note c = visible_comment_Some [OF Some]
  let ?txt = "py_strip (cc_content p)" and ?e = "c\<lparr>c_content := py_strip (cc_content p), c_is_edited := True\<rparr>"
  have found: "find (\<lambda>q. c_id q = c_id c) (tbl_comments (work s)) = Some c"
    using find_Some_distinct [OF comments_tbl.pk_distinct [OF wf], of c] c by simp
  have same: "replace_comment c (tbl_comments (work s)) = tbl_comments (work s)"
    unfolding replace_comment_def
    by (rule map_idI) (use distinct_key_unique [OF comments_tbl.pk_distinct [OF wf]] c in force)
  have "flush_dirty Comment now ?e s =
      (let c' = edited_comment now ?txt c; d = (work s)\<lparr>tbl_comments := replace_comment c' (tbl_comments (work s))\<rparr>
       in (Inr c', s\<lparr>work := d\<rparr>))"
  proof (cases "c_content c = ?txt \<and> c_is_edited c")
    case True
    then have "?e = c" by simp
    then show ?thesis using True found same by (simp add: flush_dirty_def edited_comment_def)
  next
    case False
    then have neq: "c \<noteq> ?e" by (metis comment.select_convs(5,6) comment.update_convs(5,6) comment.surjective)
    have "violation Comment ((work s)\<lparr>tbl_comments := cs\<rparr>) (?e\<lparr>c_updated_at := now\<rparr>) = None" for cs
      by (rule comment_edit_no_violation [OF wf, of c]) (use c in simp_all)
    then show ?thesis
      using False c comments_tbl.flush_dirty_eq [OF wf, of c ?e] neq
      by (auto simp: edited_comment_def replace_comment_def Let_def cong: if_cong)
  qed
  then show ?thesis
    using Some ok
    by (simp add: update_comment_def transaction_cases exec_simps tenant_get_comment [OF wf] Let_def)
qed

end
