(* ===== verification/Teams.thy ===== *)
theory Teams
  imports TaskApi
begin

text \<open>
  Teams (\<open>app/services/team.py\<close>, \<open>app/repositories/team.py\<close>, \<open>app/api/v1/endpoints/teams.py\<close>):
  creating a team, adding a user to it, and the details with the members. The relationship of a
  team to its members has no order: \<open>scan\<close> is the one the database returns.
\<close>

record team_create_payload =
  tmc_name :: pystr
  tmc_slug :: pystr
  tmc_description :: "pystr option"

definition valid_team_create :: "team_create_payload \<Rightarrow> bool" where
  "valid_team_create p \<longleftrightarrow> 2 \<le> length (tmc_name p) \<and> length (tmc_name p) \<le> 100 \<and>
     2 \<le> length (tmc_slug p) \<and> length (tmc_slug p) \<le> 100"

record team_member_response =
  tmr_id :: uuid
  tmr_user_id :: uuid
  tmr_email :: pystr
  tmr_full_name :: pystr
  tmr_joined_at :: instant

record team_response =
  ter_id :: uuid
  ter_organization_id :: uuid
  ter_name :: pystr
  ter_slug :: pystr
  ter_description :: "pystr option"
  ter_created_at :: instant
  ter_members :: "team_member_response list"

section \<open>The repository\<close>

text \<open>Each member with its user; a member without one has no \<open>m.user.email\<close>.\<close>

fun team_members_out :: "database \<Rightarrow> team_member list \<Rightarrow> exn + team_member_response list" where
  "team_members_out d [] = Inr []"
| "team_members_out d (m # ms) =
     (case find (\<lambda>u. u_id u = tmm_user_id m) (tbl_users d) of
        None \<Rightarrow> Inl PyAttributeError
      | Some u \<Rightarrow>
          (case team_members_out d ms of
             Inl e \<Rightarrow> Inl e
           | Inr rs \<Rightarrow>
               Inr (\<lparr>tmr_id = tmm_id m, tmr_user_id = tmm_user_id m, tmr_email = u_email u, tmr_full_name = u_full_name u,
                     tmr_joined_at = tmm_created_at m\<rparr> # rs)))"

definition get_team_with_members ::
  "(team_member list \<Rightarrow> team_member list) \<Rightarrow> uuid \<Rightarrow> uuid \<Rightarrow> ('z, (team \<times> team_member list) option) tx" where
  "get_team_with_members scan organization_id team_id =
     bindE (select_where Team (\<lambda>t. tm_id t = team_id \<and> tm_organization_id t = organization_id)) (\<lambda>rs.
     bindE (liftE (scalar_one_or_none rs)) (\<lambda>found.
     case found of
       None \<Rightarrow> returnE None
     | Some team \<Rightarrow>
         getsE (\<lambda>s. Some (team, filter (\<lambda>m. tmm_team_id m = tm_id team) (scan (tbl_team_members (work s)))))))"

text \<open>
  \<open>list_teams_with_members\<close>: the tenant's teams by name, each with its members; \<open>collate\<close> is the order of the
  database's texts.
\<close>

definition list_teams_with_members ::
  "(pystr \<Rightarrow> 'k::linorder) \<Rightarrow> (team list \<Rightarrow> team list) \<Rightarrow> (team_member list \<Rightarrow> team_member list) \<Rightarrow> uuid \<Rightarrow>
     ('z, (team \<times> team_member list) list) tx" where
  "list_teams_with_members collate scan_teams scan organization_id =
     getsE (\<lambda>s. map (\<lambda>t. (t, filter (\<lambda>m. tmm_team_id m = tm_id t) (scan (tbl_team_members (work s)))))
       (sort_key (\<lambda>t. collate (tm_name t)) (filter (\<lambda>t. tm_organization_id t = organization_id) (scan_teams (tbl_teams (work s))))))"

section \<open>The service\<close>

definition team_not_found :: "uuid \<Rightarrow> exn" where
  "team_not_found team_id = EntityNotFoundException ''Team'' (uuid_str team_id)"

definition create_team :: "row_stamp \<Rightarrow> uuid \<Rightarrow> team_create_payload \<Rightarrow> ('z, team) tx" where
  "create_team st organization_id payload =
     transaction
       (tenant_create Team organization_id
         \<lparr>tm_id = st_id st, tm_organization_id = organization_id, tm_name = py_strip (tmc_name payload),
          tm_slug = py_strip (py_lower (tmc_slug payload)), tm_description = tmc_description payload,
          tm_created_at = st_created_at st, tm_updated_at = st_updated_at st\<rparr>)"

definition add_member :: "row_stamp \<Rightarrow> uuid \<Rightarrow> uuid \<Rightarrow> uuid \<Rightarrow> ('z, unit) tx" where
  "add_member st organization_id team_id user_id =
     transaction
       (bindE (tenant_get_by_id Team organization_id team_id False) (\<lambda>found_team.
        bindE (some_or_raise found_team (team_not_found team_id)) (\<lambda>_.
        bindE (base_get_by_id User user_id) (\<lambda>found_user.
        bindE (some_or_raise found_user (EntityNotFoundException ''User'' (uuid_str user_id))) (\<lambda>_.
        bindE (insert_row TeamMember
                 \<lparr>tmm_id = st_id st, tmm_organization_id = organization_id, tmm_team_id = team_id, tmm_user_id = user_id,
                  tmm_created_at = st_created_at st, tmm_updated_at = st_updated_at st\<rparr>) (\<lambda>_.
        returnE ()))))))"

definition get_team_detail ::
  "(team_member list \<Rightarrow> team_member list) \<Rightarrow> uuid \<Rightarrow> uuid \<Rightarrow> ('z, team_response) tx" where
  "get_team_detail scan organization_id team_id =
     bindE (get_team_with_members scan organization_id team_id) (\<lambda>found.
     bindE (some_or_raise found (team_not_found team_id)) (\<lambda>(team, members).
     bindE (getsE (\<lambda>s. team_members_out (work s) members)) (\<lambda>r.
     bindE (liftE r) (\<lambda>members_out.
     returnE \<lparr>ter_id = tm_id team, ter_organization_id = tm_organization_id team, ter_name = tm_name team,
              ter_slug = tm_slug team, ter_description = tm_description team, ter_created_at = tm_created_at team,
              ter_members = members_out\<rparr>))))"

section \<open>The endpoints\<close>

definition create_team_handler ::
  "(team_member list \<Rightarrow> team_member list) \<Rightarrow> row_stamp \<Rightarrow> team_create_payload \<Rightarrow> tenant_context \<Rightarrow> ('z, team_response) tx" where
  "create_team_handler scan st payload ctx =
     bindE (create_team st (ctx_organization_id ctx) payload) (\<lambda>team.
     get_team_detail scan (ctx_organization_id ctx) (tm_id team))"

fun team_details ::
  "(team_member list \<Rightarrow> team_member list) \<Rightarrow> uuid \<Rightarrow> team list \<Rightarrow> ('z, team_response list) tx" where
  "team_details scan org [] = returnE []"
| "team_details scan org (t # ts) =
     bindE (get_team_detail scan org (tm_id t)) (\<lambda>r. bindE (team_details scan org ts) (\<lambda>rs. returnE (r # rs)))"

definition list_teams_handler ::
  "(team list \<Rightarrow> team list) \<Rightarrow> (team_member list \<Rightarrow> team_member list) \<Rightarrow> tenant_context \<Rightarrow> ('z, team_response list) tx" where
  "list_teams_handler scan_teams scan ctx =
     bindE (list_paginated Team scan_teams (ctx_organization_id ctx) 0 100 False) (\<lambda>teams.
     team_details scan (ctx_organization_id ctx) teams)"

definition get_team_handler ::
  "(team_member list \<Rightarrow> team_member list) \<Rightarrow> uuid \<Rightarrow> tenant_context \<Rightarrow> ('z, team_response) tx" where
  "get_team_handler scan team_id ctx = get_team_detail scan (ctx_organization_id ctx) team_id"

definition add_team_member_handler :: "row_stamp \<Rightarrow> uuid \<Rightarrow> uuid \<Rightarrow> tenant_context \<Rightarrow> ('z, unit) tx" where
  "add_team_member_handler st team_id user_id ctx = add_member st (ctx_organization_id ctx) team_id user_id"

definition post_team ::
  "jwt_api \<Rightarrow> (team_member list \<Rightarrow> team_member list) \<Rightarrow> row_stamp \<Rightarrow> pystr \<Rightarrow> uuid \<Rightarrow> team_create_payload \<Rightarrow>
     ('r, 'z, team_response) app" where
  "post_team J scan st token org payload = request J MANAGER token org (create_team_handler scan st payload)"

definition get_teams ::
  "jwt_api \<Rightarrow> (team list \<Rightarrow> team list) \<Rightarrow> (team_member list \<Rightarrow> team_member list) \<Rightarrow> pystr \<Rightarrow> uuid \<Rightarrow>
     ('r, 'z, team_response list) app" where
  "get_teams J scan_teams scan token org = request J VIEWER token org (list_teams_handler scan_teams scan)"

definition get_team ::
  "jwt_api \<Rightarrow> (team_member list \<Rightarrow> team_member list) \<Rightarrow> pystr \<Rightarrow> uuid \<Rightarrow> uuid \<Rightarrow> ('r, 'z, team_response) app" where
  "get_team J scan token org team_id = request J VIEWER token org (get_team_handler scan team_id)"

definition post_team_member ::
  "jwt_api \<Rightarrow> row_stamp \<Rightarrow> pystr \<Rightarrow> uuid \<Rightarrow> uuid \<Rightarrow> uuid \<Rightarrow> ('r, 'z, unit) app" where
  "post_team_member J st token org team_id user_id = request J MANAGER token org (add_team_member_handler st team_id user_id)"

section \<open>Teams by name\<close>

text \<open>Every team of the tenant once, in the order of the names, and with exactly its members.\<close>

lemma list_teams_with_members_spec:
  assumes "row_order scan_teams" and "row_order scan"
  shows "\<exists>out. list_teams_with_members collate scan_teams scan org s = (Inr out, s) \<and>
    mset (map fst out) = filter_mset (\<lambda>t. tm_organization_id t = org) (mset (tbl_teams (work s))) \<and>
    sorted (map (\<lambda>(t, ms). collate (tm_name t)) out) \<and>
    (\<forall>(t, ms) \<in> set out. mset ms = filter_mset (\<lambda>m. tmm_team_id m = tm_id t) (mset (tbl_team_members (work s))))"
proof -
  have "mset (scan_teams ts) = mset ts" "mset (scan ms) = mset ms" for ts ms
    using assms by (simp_all add: row_order_def)
  then show ?thesis
    by (auto simp: list_teams_with_members_def getsE_def multiset.map_comp comp_def)
qed

section \<open>Invariants\<close>

lemma preserves_get_team_detail [preserve_intros]: "preserves I (get_team_detail scan org tid)"
  unfolding get_team_detail_def get_team_with_members_def
  by (intro preserve_intros) (auto intro!: preserve_intros split: prod.splits)

lemma team_service_wf [preserve_intros]:
  "preserves session_wf (create_team st org p)" "preserves session_wf (add_member st org tid u)"
  unfolding create_team_def add_member_def
  by (intro preserve_intros teams_tbl.tenant_create_wf team_members_tbl.insert_row_wf)+

lemma team_handlers_wf [preserve_intros]:
  "preserves session_wf (create_team_handler scan st p ctx)"
  "preserves session_wf (add_team_member_handler st tid u ctx)"
  unfolding create_team_handler_def add_team_member_handler_def by (intro preserve_intros)+

lemma team_insert_keeps_tenant:
  "b \<noteq> org \<Longrightarrow> tmm_organization_id m = org \<Longrightarrow> preserves (keeps_tenant b d0) (insert_row TeamMember m)"
proof -
  assume b: "b \<noteq> org" and "tmm_organization_id m = org"
  then have "m\<lparr>tmm_organization_id := org\<rparr> = m" by (cases m) simp
  then show ?thesis
    using team_members_tbl.tenant_create_keeps_tenant [OF b, of d0 m] by (simp add: tenant_create_def base_create_def)
qed

lemma team_service_keeps_tenant [preserve_intros]:
  "b \<noteq> org \<Longrightarrow> preserves (keeps_tenant b d0) (create_team st org p)"
  "b \<noteq> org \<Longrightarrow> preserves (keeps_tenant b d0) (add_member st org tid u)"
  unfolding create_team_def add_member_def
  by (intro preserve_intros teams_tbl.tenant_create_keeps_tenant, simp)
    (intro preserve_intros team_insert_keeps_tenant, simp_all)

lemma team_handlers_keep_tenant [preserve_intros]:
  "b \<noteq> ctx_organization_id ctx \<Longrightarrow> preserves (keeps_tenant b d0) (create_team_handler scan st p ctx)"
  "b \<noteq> ctx_organization_id ctx \<Longrightarrow> preserves (keeps_tenant b d0) (add_team_member_handler st tid u ctx)"
  unfolding create_team_handler_def add_team_member_handler_def by (intro preserve_intros, assumption)+

section \<open>Adding a member on every branch\<close>

definition visible_team :: "uuid \<Rightarrow> uuid \<Rightarrow> database \<Rightarrow> team option" where
  "visible_team org tid d = find (\<lambda>t. tm_id t = tid \<and> tm_organization_id t = org) (tbl_teams d)"

lemma tenant_get_team:
  "db_wf (work s) \<Longrightarrow> tenant_get_by_id Team org tid False s = (Inr (visible_team org tid (work s)), s)"
  by (simp add: teams_tbl.tenant_get_by_id_eq visible_team_def not_deleted_def)

lemma visible_team_Some:
  "visible_team org tid d = Some t \<Longrightarrow> t \<in> set (tbl_teams d) \<and> tm_id t = tid \<and> tm_organization_id t = org"
  by (auto simp: visible_team_def find_Some_iff)

definition new_team_member :: "row_stamp \<Rightarrow> uuid \<Rightarrow> uuid \<Rightarrow> uuid \<Rightarrow> team_member" where
  "new_team_member st org tid u =
     \<lparr>tmm_id = st_id st, tmm_organization_id = org, tmm_team_id = tid, tmm_user_id = u,
      tmm_created_at = st_created_at st, tmm_updated_at = st_updated_at st\<rparr>"

lemma add_member_eq:
  assumes wf: "db_wf (work s)" and ok: "commit_fault s = None"
    and fresh: "st_id st \<notin> tmm_id ` set (tbl_team_members (work s))"
  shows "add_member st org tid u s =
    (if visible_team org tid (work s) = None then (Inl (team_not_found tid), rollback s)
     else if u \<notin> user_ids (work s) then (Inl (EntityNotFoundException ''User'' (uuid_str u)), rollback s)
     else if \<exists>m \<in> set (tbl_team_members (work s)). tmm_team_id m = tid \<and> tmm_user_id m = u
          then (Inl IntegrityError, rollback s)
     else let d = (work s)\<lparr>tbl_team_members := tbl_team_members (work s) @ [new_team_member st org tid u]\<rparr>
          in (Inr (), s\<lparr>work := d, committed := d\<rparr>))"
proof (cases "visible_team org tid (work s)")
  case None
  then show ?thesis by (simp add: add_member_def transaction_cases exec_simps tenant_get_team [OF wf])
next
  case (Some t)
  note t = visible_team_Some [OF Some]
  have "violation Team (work s) t = None"
    using teams_tbl.wf_table [OF wf] t by (simp add: table_ok_def)
  then have refs: "org \<in> organization_ids (work s)" "tid \<in> team_ids (work s)"
    using t by (auto simp: violation_def Team_def team_ids_def split: if_splits)
  show ?thesis
  proof (cases "find (\<lambda>r. u_id r = u) (tbl_users (work s))")
    case None
    then have "u \<notin> user_ids (work s)" by (auto simp: find_None_iff user_ids_def)
    with None Some show ?thesis
      by (simp add: add_member_def transaction_cases exec_simps tenant_get_team [OF wf] base_get_by_id_def getsE_def User_def)
  next
    case (Some r)
    then have u: "u \<in> user_ids (work s)" by (auto simp: find_Some_iff user_ids_def)
    have other: "st_id st \<noteq> tmm_id m" if "m \<in> set (tbl_team_members (work s))" for m
      using fresh that by auto
    show ?thesis
      using Some u refs ok fresh other \<open>visible_team org tid (work s) = Some t\<close>
      by (auto simp: add_member_def transaction_cases exec_simps tenant_get_team [OF wf] base_get_by_id_def getsE_def User_def
          insert_row_def violation_def TeamMember_def new_team_member_def key_set_defs Let_def) (metis other)+
  qed
qed

end
