(* ===== verification/Organizations.thy ===== *)
theory Organizations
  imports TaskApi
begin

text \<open>
  The organization endpoints (\<open>app/api/v1/endpoints/organizations.py\<close>) and the job queue they
  use (\<open>app/services/queue.py\<close>). They work on the session directly, without
  \<open>UnitOfWork\<close>: what fails after \<open>session.commit()\<close> is not undone.
\<close>

record organization_update =
  ou_name :: "pystr option"
  ou_logo_url :: "pystr option"

record organization_response =
  or_id :: uuid
  or_name :: pystr
  or_slug :: pystr
  or_logo_url :: "pystr option"
  or_is_active :: bool
  or_created_at :: instant

definition organization_response_of :: "organization \<Rightarrow> organization_response" where
  "organization_response_of g =
     \<lparr>or_id = o_id g, or_name = o_name g, or_slug = o_slug g, or_logo_url = o_logo_url g, or_is_active = o_is_active g,
      or_created_at = o_created_at g\<rparr>"

record member_invite =
  mi_email :: pystr
  mi_role :: org_role

record member_response =
  mr_id :: uuid
  mr_user_id :: uuid
  mr_email :: pystr
  mr_full_name :: pystr
  mr_avatar_url :: "pystr option"
  mr_role :: org_role
  mr_joined_at :: instant

definition member_response_of :: "organization_member \<Rightarrow> user \<Rightarrow> member_response" where
  "member_response_of m u =
     \<lparr>mr_id = m_id m, mr_user_id = u_id u, mr_email = u_email u, mr_full_name = u_full_name u,
      mr_avatar_url = u_avatar_url u, mr_role = m_role m, mr_joined_at = m_created_at m\<rparr>"

section \<open>The job queue\<close>

text \<open>
  \<open>JobQueueService.enqueue\<close>: a job with its arguments goes to the queue in Redis; a failure is
  logged and answered with \<open>None\<close>, which no caller looks at.
\<close>

record 'r job_state = "'r app_state" +
  job_queue :: "(pystr \<times> pystr list) list"

definition enqueue :: "pystr \<Rightarrow> pystr list \<Rightarrow> ('r, 'z job_state_ext, unit) app" where
  "enqueue function_name args s =
     (Inr (), if redis_down s then s else s\<lparr>job_queue := job_queue s @ [(function_name, args)]\<rparr>)"

section \<open>The handlers\<close>

definition organization_not_found :: "uuid \<Rightarrow> exn" where
  "organization_not_found org = EntityNotFoundException ''Organization'' (uuid_str org)"

definition get_current_organization_handler :: "tenant_context \<Rightarrow> ('z, organization_response) tx" where
  "get_current_organization_handler ctx =
     bindE (base_get_by_id Organization (ctx_organization_id ctx)) (\<lambda>found.
     bindE (some_or_raise found (organization_not_found (ctx_organization_id ctx))) (\<lambda>g.
     returnE (organization_response_of g)))"

definition apply_organization_update :: "organization_update \<Rightarrow> organization \<Rightarrow> organization" where
  "apply_organization_update payload g =
     (let g = (case ou_name payload of Some n \<Rightarrow> g\<lparr>o_name := py_strip n\<rparr> | None \<Rightarrow> g)
      in case ou_logo_url payload of Some u \<Rightarrow> g\<lparr>o_logo_url := Some u\<rparr> | None \<Rightarrow> g)"

text \<open>\<open>session.commit()\<close> flushes the changed object first; \<open>session.refresh\<close> reads the row again.\<close>

definition update_current_organization_handler ::
  "instant \<Rightarrow> organization_update \<Rightarrow> tenant_context \<Rightarrow> ('z, organization_response) tx" where
  "update_current_organization_handler now payload ctx =
     bindE (base_get_by_id Organization (ctx_organization_id ctx)) (\<lambda>found.
     bindE (some_or_raise found (organization_not_found (ctx_organization_id ctx))) (\<lambda>g.
     bindE (flush_dirty Organization now (apply_organization_update payload g)) (\<lambda>g.
     bindE commit (\<lambda>_.
     bindE (base_get_by_id Organization (o_id g)) (\<lambda>refreshed.
     bindE (some_or_raise refreshed StaleDataError) (\<lambda>g.
     returnE (organization_response_of g)))))))"

text \<open>Each membership with its user; a membership without one has no \<open>m.user.email\<close>.\<close>

fun member_responses :: "database \<Rightarrow> organization_member list \<Rightarrow> exn + member_response list" where
  "member_responses d [] = Inr []"
| "member_responses d (m # ms) =
     (case find (\<lambda>u. u_id u = m_user_id m) (tbl_users d) of
        None \<Rightarrow> Inl PyAttributeError
      | Some u \<Rightarrow> (case member_responses d ms of Inl e \<Rightarrow> Inl e | Inr rs \<Rightarrow> Inr (member_response_of m u # rs)))"

definition list_organization_members_handler ::
  "(organization_member list \<Rightarrow> organization_member list) \<Rightarrow> tenant_context \<Rightarrow> ('z, member_response list) tx" where
  "list_organization_members_handler scan ctx =
     bindE (getsE (\<lambda>s. member_responses (work s) (sort_key m_created_at
              (filter (\<lambda>m. m_organization_id m = ctx_organization_id ctx) (scan (tbl_organization_members (work s))))))) (\<lambda>r.
     liftE r)"

definition already_member :: exn where
  "already_member = EntityConflictException ''User is already a member of this organization.''"

definition invite_member_handler ::
  "row_stamp \<Rightarrow> member_invite \<Rightarrow> tenant_context \<Rightarrow> ('r, 'z job_state_ext, member_response) app" where
  "invite_member_handler st payload ctx =
     bindE (get_by_email (mi_email payload)) (\<lambda>found.
     bindE (some_or_raise found (EntityNotFoundException ''User'' (mi_email payload))) (\<lambda>user.
     bindE (get_membership (ctx_organization_id ctx) (u_id user)) (\<lambda>existing.
     bindE (raise_if (existing \<noteq> None) already_member) (\<lambda>_.
     bindE (base_create OrganizationMember
              \<lparr>m_id = st_id st, m_organization_id = ctx_organization_id ctx, m_user_id = u_id user,
               m_role = mi_role payload, m_created_at = st_created_at st, m_updated_at = st_updated_at st\<rparr>) (\<lambda>new_member.
     bindE commit (\<lambda>_.
     bindE (base_get_by_id Organization (ctx_organization_id ctx)) (\<lambda>org.
     bindE (enqueue ''send_invitation_email''
              [u_email user, (case org of Some g \<Rightarrow> o_name g | None \<Rightarrow> ''Workspace''), u_full_name (ctx_user ctx)]) (\<lambda>_.
     returnE (member_response_of new_member user)))))))))"

section \<open>The endpoints\<close>

definition get_current_organization :: "jwt_api \<Rightarrow> pystr \<Rightarrow> uuid \<Rightarrow> ('r, 'z, organization_response) app" where
  "get_current_organization J token org = request J VIEWER token org get_current_organization_handler"

definition patch_current_organization ::
  "jwt_api \<Rightarrow> instant \<Rightarrow> pystr \<Rightarrow> uuid \<Rightarrow> organization_update \<Rightarrow> ('r, 'z, organization_response) app" where
  "patch_current_organization J now token org payload =
     request J ADMIN token org (update_current_organization_handler now payload)"

definition get_organization_members ::
  "jwt_api \<Rightarrow> (organization_member list \<Rightarrow> organization_member list) \<Rightarrow> pystr \<Rightarrow> uuid \<Rightarrow> ('r, 'z, member_response list) app" where
  "get_organization_members J scan token org = request J VIEWER token org (list_organization_members_handler scan)"

definition post_member_invite ::
  "jwt_api \<Rightarrow> row_stamp \<Rightarrow> pystr \<Rightarrow> uuid \<Rightarrow> member_invite \<Rightarrow> ('r, 'z job_state_ext, member_response) app" where
  "post_member_invite J st token org payload = request J ADMIN token org (invite_member_handler st payload)"

section \<open>Invariants\<close>

lemma preserves_enqueue [preserve_intros]: "session_frame I \<Longrightarrow> preserves I (enqueue f xs)"
  by (erule preserves_session_frame) (simp add: enqueue_def)

lemma organization_handlers_wf [preserve_intros]:
  "preserves session_wf (update_current_organization_handler now payload ctx)"
  "preserves session_wf (invite_member_handler st iv ctx)"
  unfolding update_current_organization_handler_def invite_member_handler_def base_create_def
  by (intro preserve_intros session_frame_wf organizations_tbl.flush_dirty_wf organization_members_tbl.insert_row_wf)+

lemma member_insert_keeps_tenant [preserve_intros]:
  "m_organization_id m \<noteq> b \<Longrightarrow> preserves (keeps_tenant b d0) (insert_row OrganizationMember m)"
  by (auto simp: preserves_def insert_row_def keeps_tenant_def Let_def OrganizationMember_def tenant_view_def org_rows_def
      table_defs split: option.splits)

lemma organization_flush_keeps_tenant:
  assumes "o_id r \<noteq> b"
  shows "preserves (keeps_tenant b d0) (flush_dirty Organization now r)"
proof (rule flush_dirty_preserves, rule preservesI)
  fix s :: "'z session_scheme"
  assume keep: "keeps_tenant b d0 s"
  let ?f = "\<lambda>q. if o_id q = o_id r then if o_id q = o_id r then touch Organization now r else q else q"
  have same: "filter (\<lambda>q. o_id q = b) (map ?f gs) = filter (\<lambda>q. o_id q = b) gs" for gs
    using assms organizations_tbl.pk_touch [of now r] by (induction gs) auto
  have "tenant_view b (d\<lparr>tbl_organizations := map ?f (tbl_organizations d)\<rparr>) = tenant_view b d" for d
    using same [of "tbl_organizations d"] by (simp add: tenant_view_def org_rows_def)
  with keep show "keeps_tenant b d0 (snd (update_where Organization (\<lambda>q. pk_of Organization q = pk_of Organization r)
      (\<lambda>q. if pk_of Organization q = pk_of Organization r then touch Organization now r else q) s))"
    by (simp add: update_where_def keeps_tenant_def Let_def split: list.splits)
qed

lemma bindE_getsE: "bindE (getsE f) k s = k (f s) s"
  by (simp add: bindE_def getsE_def)

lemma bindE_some_or_raise:
  "bindE (some_or_raise found e) k = (case found of None \<Rightarrow> raiseE e | Some g \<Rightarrow> k g)"
  by (auto simp: fun_eq_iff bindE_def some_or_raise_def returnE_def raiseE_def split: option.splits)

lemma apply_organization_update_id [simp]: "o_id (apply_organization_update u g) = o_id g"
  by (simp add: apply_organization_update_def Let_def split: option.splits)

lemma organization_handlers_keep_tenant:
  assumes "b \<noteq> ctx_organization_id ctx" and "keeps_tenant b d0 s"
  shows "keeps_tenant b d0 (snd (update_current_organization_handler now payload ctx s))" (is ?upd)
    and "keeps_tenant b d0 (snd (invite_member_handler st iv ctx s))" (is ?invite)
proof -
  let ?K = "\<lambda>found. bindE (some_or_raise found (organization_not_found (ctx_organization_id ctx))) (\<lambda>g.
     bindE (flush_dirty Organization now (apply_organization_update payload g)) (\<lambda>g.
     bindE commit (\<lambda>_.
     bindE (base_get_by_id Organization (o_id g)) (\<lambda>refreshed.
     bindE (some_or_raise refreshed StaleDataError) (\<lambda>g.
     returnE (organization_response_of g))))))"
  let ?found = "find (\<lambda>r. o_id r = ctx_organization_id ctx) (tbl_organizations (work s))"
  have "o_id g \<noteq> b" if "?found = Some g" for g
    using that assms(1) by (auto simp: find_Some_iff)
  then have K: "preserves (keeps_tenant b d0) (?K ?found)"
    unfolding bindE_some_or_raise [of ?found]
    by (cases ?found) (auto intro!: preserve_intros organization_flush_keeps_tenant)
  moreover have "update_current_organization_handler now payload ctx s = ?K ?found s"
    unfolding update_current_organization_handler_def base_get_by_id_def [of Organization "ctx_organization_id ctx"] bindE_getsE
    by simp
  ultimately show ?upd using preservesD [OF K assms(2)] by simp
  have "preserves (keeps_tenant b d0) (invite_member_handler st iv ctx)"
    unfolding invite_member_handler_def base_create_def
    using assms(1) by (intro preserve_intros session_frame_keeps) simp
  then show ?invite using assms(2) by (rule preservesD)
qed

section \<open>Inviting on every branch\<close>

definition new_member :: "row_stamp \<Rightarrow> uuid \<Rightarrow> uuid \<Rightarrow> org_role \<Rightarrow> organization_member" where
  "new_member st org u r =
     \<lparr>m_id = st_id st, m_organization_id = org, m_user_id = u, m_role = r, m_created_at = st_created_at st,
      m_updated_at = st_updated_at st\<rparr>"

lemma invite_member_handler_eq:
  assumes wf: "db_wf (work s)" and ok: "commit_fault s = None" and up: "\<not> redis_down s"
    and org: "find (\<lambda>g. o_id g = ctx_organization_id ctx) (tbl_organizations (work s)) = Some g"
    and fresh: "st_id st \<notin> m_id ` set (tbl_organization_members (work s))"
  shows "invite_member_handler st iv ctx s =
    (case user_with_email (normal_email (mi_email iv)) (work s) of
       None \<Rightarrow> (Inl (EntityNotFoundException ''User'' (mi_email iv)), s)
     | Some u \<Rightarrow>
         if membership (ctx_organization_id ctx) (u_id u) (work s) \<noteq> None then (Inl already_member, s)
         else let m = new_member st (ctx_organization_id ctx) (u_id u) (mi_role iv);
                  d = (work s)\<lparr>tbl_organization_members := tbl_organization_members (work s) @ [m]\<rparr>
              in (Inr (member_response_of m u),
                  s\<lparr>work := d, committed := d, job_queue := job_queue s @
                    [(''send_invitation_email'', [u_email u, o_name g, u_full_name (ctx_user ctx)])]\<rparr>))"
proof (cases "user_with_email (normal_email (mi_email iv)) (work s)")
  case None
  then show ?thesis by (simp add: invite_member_handler_def bindE_def get_by_email_eq [OF wf] exec_simps)
next
  case (Some u)
  let ?org = "ctx_organization_id ctx"
  have u: "u_id u \<in> user_ids (work s)"
    using Some by (auto simp: user_with_email_def find_Some_iff user_ids_def)
  have g: "?org \<in> organization_ids (work s)"
  proof -
    have "g \<in> set (tbl_organizations (work s))" "o_id g = ctx_organization_id ctx"
      using org by (auto simp: find_Some_iff)
    then show ?thesis unfolding organization_ids_def by (metis imageI)
  qed
  show ?thesis
  proof (cases "membership ?org (u_id u) (work s)")
    case (Some m)
    then show ?thesis
      using \<open>user_with_email _ _ = Some u\<close>
      by (simp add: invite_member_handler_def bindE_def get_by_email_eq [OF wf] get_membership_eq [OF wf] exec_simps)
  next
    case None
    let ?m = "new_member st ?org (u_id u) (mi_role iv)"
    let ?d = "(work s)\<lparr>tbl_organization_members := tbl_organization_members (work s) @ [?m]\<rparr>"
    have "violation OrganizationMember ?d ?m = None"
      using None u g
      by (auto simp: violation_def OrganizationMember_def new_member_def membership_def find_None_iff key_set_defs)
    then have "base_create OrganizationMember ?m s = (Inr ?m, s\<lparr>work := ?d\<rparr>)"
      using fresh by (simp add: base_create_def insert_row_def new_member_def Let_def)
    then show ?thesis
      using None \<open>user_with_email _ _ = Some u\<close> ok up org
      by (simp add: invite_member_handler_def bindE_def get_by_email_eq [OF wf] get_membership_eq [OF wf] exec_simps
          commit_def base_get_by_id_def getsE_def enqueue_def Let_def new_member_def)
  qed
qed

end
