(* ===== verification/Attachments.thy ===== *)
theory Attachments
  imports TaskApi
begin

text \<open>
  Attachments (\<open>app/api/v1/endpoints/attachments.py\<close>, \<open>app/repositories/attachment.py\<close>) and the
  object storage (\<open>app/services/storage.py\<close>): the service signs URLs and stores metadata, the
  client moves the bytes. Signing is done by the AWS library, a parameter that may raise.
\<close>

text \<open>\<open>generate_presigned_url\<close> for \<open>put_object\<close> and for \<open>get_object\<close>: bucket, key, (type,) seconds.\<close>

record s3_api =
  presign_put :: "pystr \<Rightarrow> pystr \<Rightarrow> pystr \<Rightarrow> int \<Rightarrow> exn + pystr"
  presign_get :: "pystr \<Rightarrow> pystr \<Rightarrow> int \<Rightarrow> exn + pystr"

section \<open>Payloads and answers\<close>

record upload_request =
  up_file_name :: pystr
  up_file_size :: int
  up_content_type :: pystr

definition valid_upload :: "upload_request \<Rightarrow> bool" where
  "valid_upload p \<longleftrightarrow> 1 \<le> length (up_file_name p) \<and> length (up_file_name p) \<le> 255 \<and>
     0 < up_file_size p \<and> up_file_size p \<le> 52428800 \<and>
     3 \<le> length (up_content_type p) \<and> length (up_content_type p) \<le> 100"

record upload_response =
  upr_upload_url :: pystr
  upr_file_key :: pystr
  upr_expires_in :: int

text \<open>The confirmation carries no constraints.\<close>

record attachment_confirm =
  ac_file_name :: pystr
  ac_file_size :: int
  ac_content_type :: pystr
  ac_s3_key :: pystr

record attachment_response =
  ar_id :: uuid
  ar_organization_id :: uuid
  ar_task_id :: uuid
  ar_uploader_id :: uuid
  ar_file_name :: pystr
  ar_file_size :: int
  ar_content_type :: pystr
  ar_download_url :: "pystr option"
  ar_created_at :: instant

definition attachment_response_of :: "attachment \<Rightarrow> pystr \<Rightarrow> attachment_response" where
  "attachment_response_of a url =
     \<lparr>ar_id = a_id a, ar_organization_id = a_organization_id a, ar_task_id = a_task_id a, ar_uploader_id = a_uploader_id a,
      ar_file_name = a_file_name a, ar_file_size = a_file_size a, ar_content_type = a_content_type a,
      ar_download_url = Some url, ar_created_at = a_created_at a\<rparr>"

section \<open>Storage\<close>

definition file_key :: "uuid \<Rightarrow> uuid \<Rightarrow> uuid \<Rightarrow> pystr \<Rightarrow> pystr" where
  "file_key organization_id task_id u file_name =
     (let clean_name = map (\<lambda>c. if c = CHR '' '' then CHR ''_'' else c) file_name in
      uuid_str organization_id @ ''/tasks/'' @ uuid_str task_id @ ''/'' @ take 8 (uuid_hex u) @ ''_'' @ clean_name)"

definition generate_file_key :: "uuid \<Rightarrow> uuid \<Rightarrow> pystr \<Rightarrow> ('r, 'z, pystr) app" where
  "generate_file_key organization_id task_id file_name =
     bindE uuid4 (\<lambda>u. returnE (file_key organization_id task_id u file_name))"

definition generate_presigned_upload_url :: "s3_api \<Rightarrow> pystr \<Rightarrow> pystr \<Rightarrow> pystr \<Rightarrow> int \<Rightarrow> ('z, pystr) tx" where
  "generate_presigned_upload_url S bucket key content_type expires_in_seconds =
     liftE (presign_put S bucket key content_type expires_in_seconds)"

definition generate_presigned_download_url :: "s3_api \<Rightarrow> pystr \<Rightarrow> pystr \<Rightarrow> int \<Rightarrow> ('z, pystr) tx" where
  "generate_presigned_download_url S bucket key expires_in_seconds = liftE (presign_get S bucket key expires_in_seconds)"

section \<open>The handlers\<close>

definition generate_upload_url_handler ::
  "s3_api \<Rightarrow> pystr \<Rightarrow> uuid \<Rightarrow> upload_request \<Rightarrow> tenant_context \<Rightarrow> ('r, 'z, upload_response) app" where
  "generate_upload_url_handler S bucket task_id payload ctx =
     bindE (tenant_get_by_id Task (ctx_organization_id ctx) task_id False) (\<lambda>found.
     bindE (some_or_raise found (task_not_found task_id)) (\<lambda>_.
     bindE (generate_file_key (ctx_organization_id ctx) task_id (up_file_name payload)) (\<lambda>key.
     bindE (generate_presigned_upload_url S bucket key (up_content_type payload) 300) (\<lambda>url.
     returnE \<lparr>upr_upload_url = url, upr_file_key = key, upr_expires_in = 300\<rparr>))))"

definition confirm_attachment_handler ::
  "s3_api \<Rightarrow> pystr \<Rightarrow> row_stamp \<Rightarrow> uuid \<Rightarrow> attachment_confirm \<Rightarrow> tenant_context \<Rightarrow> ('z, attachment_response) tx" where
  "confirm_attachment_handler S bucket st task_id payload ctx =
     bindE (tenant_get_by_id Task (ctx_organization_id ctx) task_id False) (\<lambda>found.
     bindE (some_or_raise found (task_not_found task_id)) (\<lambda>_.
     bindE (tenant_create Attachment (ctx_organization_id ctx)
              \<lparr>a_id = st_id st, a_organization_id = ctx_organization_id ctx, a_task_id = task_id,
               a_uploader_id = u_id (ctx_user ctx), a_file_name = ac_file_name payload, a_file_size = ac_file_size payload,
               a_content_type = ac_content_type payload, a_s3_key = ac_s3_key payload, a_created_at = st_created_at st,
               a_updated_at = st_updated_at st\<rparr>) (\<lambda>attachment.
     bindE commit (\<lambda>_.
     bindE (generate_presigned_download_url S bucket (a_s3_key attachment) 3600) (\<lambda>url.
     returnE (attachment_response_of attachment url))))))"

text \<open>\<open>list_by_task\<close> orders by time only: rows of the same time come in the order of the database.\<close>

definition list_by_task :: "(attachment list \<Rightarrow> attachment list) \<Rightarrow> uuid \<Rightarrow> uuid \<Rightarrow> ('z, attachment list) tx" where
  "list_by_task scan organization_id task_id =
     getsE (\<lambda>s. sort_key (\<lambda>a. - a_created_at a)
       (filter (\<lambda>a. a_organization_id a = organization_id \<and> a_task_id a = task_id) (scan (tbl_attachments (work s)))))"

fun attachment_responses :: "s3_api \<Rightarrow> pystr \<Rightarrow> attachment list \<Rightarrow> ('z, attachment_response list) tx" where
  "attachment_responses S bucket [] = returnE []"
| "attachment_responses S bucket (att # atts) =
     bindE (generate_presigned_download_url S bucket (a_s3_key att) 3600) (\<lambda>url.
     bindE (attachment_responses S bucket atts) (\<lambda>results. returnE (attachment_response_of att url # results)))"

definition list_attachments_handler ::
  "s3_api \<Rightarrow> pystr \<Rightarrow> (attachment list \<Rightarrow> attachment list) \<Rightarrow> uuid \<Rightarrow> tenant_context \<Rightarrow> ('z, attachment_response list) tx" where
  "list_attachments_handler S bucket scan task_id ctx =
     bindE (list_by_task scan (ctx_organization_id ctx) task_id) (attachment_responses S bucket)"

section \<open>The endpoints\<close>

definition post_upload_url ::
  "jwt_api \<Rightarrow> s3_api \<Rightarrow> pystr \<Rightarrow> pystr \<Rightarrow> uuid \<Rightarrow> uuid \<Rightarrow> upload_request \<Rightarrow> ('r, 'z, upload_response) app" where
  "post_upload_url J S bucket token org task_id payload =
     request J MEMBER token org (generate_upload_url_handler S bucket task_id payload)"

definition post_attachment ::
  "jwt_api \<Rightarrow> s3_api \<Rightarrow> pystr \<Rightarrow> row_stamp \<Rightarrow> pystr \<Rightarrow> uuid \<Rightarrow> uuid \<Rightarrow> attachment_confirm \<Rightarrow>
     ('r, 'z, attachment_response) app" where
  "post_attachment J S bucket st token org task_id payload =
     request J MEMBER token org (confirm_attachment_handler S bucket st task_id payload)"

definition get_attachments ::
  "jwt_api \<Rightarrow> s3_api \<Rightarrow> pystr \<Rightarrow> (attachment list \<Rightarrow> attachment list) \<Rightarrow> pystr \<Rightarrow> uuid \<Rightarrow> uuid \<Rightarrow>
     ('r, 'z, attachment_response list) app" where
  "get_attachments J S bucket scan token org task_id =
     request J VIEWER token org (list_attachments_handler S bucket scan task_id)"

section \<open>Invariants\<close>

lemma attachment_handlers_wf [preserve_intros]:
  "preserves session_wf (generate_upload_url_handler S bucket tid up ctx)"
  "preserves session_wf (confirm_attachment_handler S bucket st tid p ctx)"
  unfolding generate_upload_url_handler_def confirm_attachment_handler_def generate_file_key_def
    generate_presigned_upload_url_def generate_presigned_download_url_def
  by (intro preserve_intros session_frame_wf attachments_tbl.tenant_create_wf)+

lemma attachment_handlers_keep_tenant [preserve_intros]:
  "b \<noteq> ctx_organization_id ctx \<Longrightarrow> preserves (keeps_tenant b d0) (confirm_attachment_handler S bucket st tid p ctx)"
  unfolding confirm_attachment_handler_def generate_presigned_download_url_def
  by (intro preserve_intros attachments_tbl.tenant_create_keeps_tenant)

section \<open>Confirming on every branch\<close>

definition new_attachment :: "row_stamp \<Rightarrow> uuid \<Rightarrow> tenant_context \<Rightarrow> attachment_confirm \<Rightarrow> attachment" where
  "new_attachment st tid ctx p =
     \<lparr>a_id = st_id st, a_organization_id = ctx_organization_id ctx, a_task_id = tid, a_uploader_id = u_id (ctx_user ctx),
      a_file_name = ac_file_name p, a_file_size = ac_file_size p, a_content_type = ac_content_type p, a_s3_key = ac_s3_key p,
      a_created_at = st_created_at st, a_updated_at = st_updated_at st\<rparr>"

definition confirm_fits :: "attachment_confirm \<Rightarrow> bool" where
  "confirm_fits p \<longleftrightarrow> fits 255 (ac_file_name p) \<and> fits_int8 (ac_file_size p) \<and> fits 100 (ac_content_type p) \<and> fits 1024 (ac_s3_key p)"

lemma confirm_attachment_handler_eq:
  assumes wf: "db_wf (work s)" and ok: "commit_fault s = None"
    and user: "u_id (ctx_user ctx) \<in> user_ids (work s)" and fresh: "st_id st \<notin> a_id ` set (tbl_attachments (work s))"
  shows "confirm_attachment_handler S bucket st tid p ctx s =
    (case visible_task (ctx_organization_id ctx) tid (work s) of
       None \<Rightarrow> (Inl (task_not_found tid), s)
     | Some t \<Rightarrow>
         if \<not> confirm_fits p then (Inl DataError, s)
         else let a = new_attachment st tid ctx p;
                  d = (work s)\<lparr>tbl_attachments := tbl_attachments (work s) @ [a]\<rparr>
              in (map_sum (\<lambda>e. e) (attachment_response_of a) (presign_get S bucket (ac_s3_key p) 3600),
                  s\<lparr>work := d, committed := d\<rparr>))"
proof (cases "visible_task (ctx_organization_id ctx) tid (work s)")
  case None
  then show ?thesis by (simp add: confirm_attachment_handler_def bindE_def tenant_get_task [OF wf] exec_simps)
next
  case (Some t)
  note t = visible_task_Some [OF Some]
  have "violation Task (work s) t = None"
    using tasks_tbl.wf_table [OF wf] t by (simp add: table_ok_def)
  then have "ctx_organization_id ctx \<in> organization_ids (work s)" "tid \<in> task_ids (work s)"
    using t by (auto simp: violation_def Task_def task_ids_def split: if_splits)
  then show ?thesis
    using Some ok user fresh
    by (auto simp: confirm_attachment_handler_def bindE_def tenant_get_task [OF wf] exec_simps tenant_create_def base_create_def
        insert_row_def violation_def Attachment_def new_attachment_def confirm_fits_def key_set_defs commit_def
        generate_presigned_download_url_def Let_def split: sum.splits)
qed

end
