(* ===== verification/Workers.thy ===== *)
theory Workers
  imports AppState
begin

text \<open>
  The background jobs (\<open>app/workers/tasks.py\<close>). The two notification jobs only log; the sweeper
  deletes the rows of soft-deleted tasks, and the foreign keys (\<open>ON DELETE CASCADE\<close> of
  \<open>tasks.parent_id\<close>, \<open>comments.task_id\<close> and \<open>attachments.task_id\<close>) delete what hangs on them.
\<close>

definition expired :: "instant \<Rightarrow> task \<Rightarrow> bool" where
  "expired cutoff_time t \<longleftrightarrow>
     t_is_deleted t \<and> (case t_deleted_at t of None \<Rightarrow> False | Some d \<Rightarrow> d \<le> cutoff_time)"

text \<open>
  The cascade: a task goes with its parent. The chain of parents is followed for as many steps
  as there are rows, after which it has ended or repeats itself.
\<close>

definition parent_of :: "task list \<Rightarrow> task \<Rightarrow> task option" where
  "parent_of ts t = (case t_parent_id t of None \<Rightarrow> None | Some p \<Rightarrow> find (\<lambda>q. t_id q = p) ts)"

fun cascades :: "nat \<Rightarrow> instant \<Rightarrow> task list \<Rightarrow> task \<Rightarrow> bool" where
  "cascades 0 cutoff_time ts t = expired cutoff_time t"
| "cascades (Suc n) cutoff_time ts t =
     (expired cutoff_time t \<or> (case parent_of ts t of None \<Rightarrow> False | Some q \<Rightarrow> cascades n cutoff_time ts q))"

definition purge :: "instant \<Rightarrow> database \<Rightarrow> database" where
  "purge cutoff_time d =
     (let ts = tbl_tasks d;
          kept = filter (\<lambda>t. \<not> cascades (length ts) cutoff_time ts t) ts
      in d\<lparr>tbl_tasks := kept,
           tbl_comments := filter (\<lambda>c. c_task_id c \<in> t_id ` set kept) (tbl_comments d),
           tbl_attachments := filter (\<lambda>a. a_task_id a \<in> t_id ` set kept) (tbl_attachments d)\<rparr>)"

text \<open>\<open>DELETE ... RETURNING\<close> answers the rows the WHERE matched, not those the cascade took.\<close>

definition cleanup_soft_deleted_tasks_job :: "int \<Rightarrow> ('r, 'z, nat) app" where
  "cleanup_soft_deleted_tasks_job days_threshold =
     bindE datetime_now (\<lambda>now.
     let cutoff_time = now - days_threshold * 86400 * usec_per_sec in
     with_db_session
       (bindE (getsE (\<lambda>s. map t_id (filter (expired cutoff_time) (tbl_tasks (work s))))) (\<lambda>deleted_ids.
        bindE (\<lambda>s. (Inr (), s\<lparr>work := purge cutoff_time (work s)\<rparr>)) (\<lambda>_.
        bindE commit (\<lambda>_.
        returnE (length deleted_ids))))))"

definition send_invitation_email :: "pystr \<Rightarrow> pystr \<Rightarrow> pystr \<Rightarrow> ('z, bool) tx" where
  "send_invitation_email recipient_email org_name inviter_name = returnE True"

definition send_task_notification :: "pystr \<Rightarrow> pystr \<Rightarrow> pystr \<Rightarrow> ('z, bool) tx" where
  "send_task_notification user_id task_title event_type = returnE True"

section \<open>The fuel of the cascade\<close>

text \<open>A row goes exactly when it or one of its ancestors has expired.\<close>

definition ancestor :: "task list \<Rightarrow> task \<Rightarrow> task \<Rightarrow> bool" where
  "ancestor ts t q \<longleftrightarrow> (\<lambda>t q. parent_of ts t = Some q)\<^sup>*\<^sup>* t q"

lemma cascades_ancestor: "cascades n cutoff ts t \<Longrightarrow> \<exists>q. ancestor ts t q \<and> expired cutoff q"
proof (induction n arbitrary: t)
  case (Suc n)
  then show ?case
    by (auto simp: ancestor_def split: option.splits intro: converse_rtranclp_into_rtranclp)
qed (auto simp: ancestor_def)

fun climb :: "task list \<Rightarrow> nat \<Rightarrow> task \<Rightarrow> task option" where
  "climb ts 0 t = Some t"
| "climb ts (Suc n) t = Option.bind (climb ts n t) (parent_of ts)"

lemma climb_Suc: "climb ts (Suc n) t = Option.bind (parent_of ts t) (climb ts n)"
proof (induction n arbitrary: t)
  case 0
  show ?case by (cases "parent_of ts t") simp_all
next
  case (Suc n)
  have "climb ts (Suc (Suc n)) t = Option.bind (Option.bind (parent_of ts t) (climb ts n)) (parent_of ts)"
    using Suc.IH [of t] by simp
  then show ?case by (cases "parent_of ts t") simp_all
qed

lemma ancestor_climb: "ancestor ts t q \<longleftrightarrow> (\<exists>n. climb ts n t = Some q)"
proof
  show "ancestor ts t q \<Longrightarrow> \<exists>n. climb ts n t = Some q"
    unfolding ancestor_def
  proof (induction rule: rtranclp_induct)
    case base
    then show ?case by (intro exI [of _ 0]) simp
  next
    case (step q r)
    then obtain n where "climb ts n t = Some q" by blast
    with step(2) show ?case by (intro exI [of _ "Suc n"]) simp
  qed
  have "climb ts n t = Some q \<Longrightarrow> ancestor ts t q" for n
    unfolding ancestor_def
  proof (induction n arbitrary: q)
    case (Suc n)
    then obtain r where "climb ts n t = Some r" "parent_of ts r = Some q" by (auto simp: bind_eq_Some_conv)
    with Suc.IH [of r] show ?case by (auto intro: rtranclp.rtrancl_into_rtrancl)
  qed simp
  then show "\<exists>n. climb ts n t = Some q \<Longrightarrow> ancestor ts t q" by blast
qed

lemma climb_cascades: "climb ts k t = Some q \<Longrightarrow> expired cutoff q \<Longrightarrow> k \<le> n \<Longrightarrow> cascades n cutoff ts t"
proof (induction n arbitrary: k t)
  case (Suc n)
  show ?case
  proof (cases k)
    case (Suc k')
    then obtain r where "parent_of ts t = Some r" "climb ts k' r = Some q"
      using Suc.prems(1) climb_Suc [of ts k' t] by (auto simp: bind_eq_Some_conv simp del: climb.simps)
    with Suc.IH [of k' r] Suc.prems Suc show ?thesis by simp
  qed (use Suc.prems in simp)
qed simp

lemma climb_split: "climb ts (m + n) t = Option.bind (climb ts m t) (climb ts n)"
proof (induction n)
  case (Suc n)
  then show ?case by (cases "climb ts m t") simp_all
qed (cases "climb ts m t"; simp)

lemma climb_in: "climb ts n t = Some q \<Longrightarrow> t \<in> set ts \<Longrightarrow> q \<in> set ts"
  by (cases n) (auto simp: bind_eq_Some_conv parent_of_def find_Some_iff split: option.splits)

text \<open>A shortest climb visits no row twice, so it is no longer than the table.\<close>

lemma short_climb:
  assumes "climb ts k t = Some q" and "t \<in> set ts"
  shows "\<exists>k \<le> length ts. climb ts k t = Some q"
proof -
  define k where "k = (LEAST k. climb ts k t = Some q)"
  have k: "climb ts k t = Some q" "\<And>j. climb ts j t = Some q \<Longrightarrow> k \<le> j"
    unfolding k_def using assms(1) by (auto intro: LeastI Least_le)
  have some: "climb ts i t \<noteq> None" if "i \<le> k" for i
    using k(1) climb_split [of ts i "k - i" t] that by (cases "climb ts i t") simp_all
  have "inj_on (\<lambda>i. climb ts i t) {..k}"
  proof (rule inj_onI, rule ccontr)
    fix i j
    assume ij: "i \<in> {..k}" "j \<in> {..k}" "climb ts i t = climb ts j t" "i \<noteq> j"
    have less: False if "i < j" "j \<le> k" "climb ts i t = climb ts j t" for i j
    proof -
      have "climb ts (i + (k - j)) t = climb ts (j + (k - j)) t"
        unfolding climb_split that(3) ..
      then have "climb ts (i + (k - j)) t = Some q" using k(1) that(2) by simp
      then have "k \<le> i + (k - j)" by (rule k(2))
      with that show False by simp
    qed
    show False using ij less [of i j] less [of j i] by (cases "i < j") auto
  qed
  moreover have "(\<lambda>i. climb ts i t) ` {..k} \<subseteq> Some ` set ts"
    using some climb_in [OF _ assms(2)] by fastforce
  ultimately have "card {..k} \<le> card (Some ` set ts)"
    by (intro card_inj_on_le) simp_all
  then have "Suc k \<le> length ts" using card_length [of ts] by (simp add: card_image)
  with k(1) show ?thesis by (intro exI [of _ k]) simp
qed

lemma cascades_iff:
  assumes "t \<in> set ts"
  shows "cascades (length ts) cutoff ts t \<longleftrightarrow> (\<exists>q. ancestor ts t q \<and> expired cutoff q)"
proof
  assume "\<exists>q. ancestor ts t q \<and> expired cutoff q"
  then obtain q k where "climb ts k t = Some q" "expired cutoff q" unfolding ancestor_climb by blast
  with short_climb [OF _ assms] climb_cascades show "cascades (length ts) cutoff ts t" by blast
qed (rule cascades_ancestor)

section \<open>What the sweep keeps\<close>

definition swept :: "instant \<Rightarrow> task list \<Rightarrow> task \<Rightarrow> bool" where
  "swept cutoff_time ts t \<longleftrightarrow> (\<exists>q. ancestor ts t q \<and> expired cutoff_time q)"

lemma purge_tasks: "tbl_tasks (purge cutoff d) = filter (\<lambda>t. \<not> swept cutoff (tbl_tasks d) t) (tbl_tasks d)"
  by (simp add: purge_def Let_def cascades_iff swept_def cong: filter_cong)

lemma swept_parent: "parent_of ts t = Some q \<Longrightarrow> swept cutoff ts q \<Longrightarrow> swept cutoff ts t"
  unfolding swept_def ancestor_def by (meson converse_rtranclp_into_rtranclp)

lemma kept_parent:
  assumes "table_ok Task d" and "t \<in> set (tbl_tasks d)" and "\<not> swept cutoff (tbl_tasks d) t"
    and "t_parent_id t = Some i"
  shows "\<exists>q \<in> set (tbl_tasks d). t_id q = i \<and> \<not> swept cutoff (tbl_tasks d) q"
proof -
  have "i \<in> task_ids d"
    using assms by (auto simp: table_ok_def violation_def table_defs opt_ref_def split: if_splits)
  then obtain q where "parent_of (tbl_tasks d) t = Some q"
    using assms(4) by (cases "parent_of (tbl_tasks d) t")
      (auto simp: parent_of_def find_None_iff task_ids_def)
  moreover from this have "q \<in> set (tbl_tasks d)" "t_id q = i"
    using assms(4) by (auto simp: parent_of_def find_Some_iff)
  ultimately show ?thesis using swept_parent assms(3) by blast
qed

text \<open>The sweep leaves a well-formed database: what the foreign keys of a kept row name is kept.\<close>

lemma purge_other_tables [simp]:
  "tbl_users (purge cutoff d) = tbl_users d"
  "tbl_organizations (purge cutoff d) = tbl_organizations d"
  "tbl_organization_members (purge cutoff d) = tbl_organization_members d"
  "tbl_teams (purge cutoff d) = tbl_teams d"
  "tbl_team_members (purge cutoff d) = tbl_team_members d"
  "tbl_projects (purge cutoff d) = tbl_projects d"
  "tbl_audit_logs (purge cutoff d) = tbl_audit_logs d"
  "tbl_notifications (purge cutoff d) = tbl_notifications d"
  by (simp_all add: purge_def Let_def)

lemma purge_comments: "tbl_comments (purge cutoff d) = filter (\<lambda>c. c_task_id c \<in> task_ids (purge cutoff d)) (tbl_comments d)"
  by (simp add: purge_def Let_def task_ids_def)

lemma purge_attachments:
  "tbl_attachments (purge cutoff d) = filter (\<lambda>a. a_task_id a \<in> task_ids (purge cutoff d)) (tbl_attachments d)"
  by (simp add: purge_def Let_def task_ids_def)

lemma purge_key_sets [simp]:
  "user_ids (purge cutoff d) = user_ids d"
  "organization_ids (purge cutoff d) = organization_ids d"
  "team_ids (purge cutoff d) = team_ids d"
  "project_ids (purge cutoff d) = project_ids d"
  by (simp_all add: user_ids_def organization_ids_def team_ids_def project_ids_def)

lemma opt_ref_Some: "opt_ref (Some i) ids \<longleftrightarrow> i \<in> ids" and opt_ref_None: "opt_ref None ids"
  by (simp_all add: opt_ref_def)

lemma table_ok_same:
  assumes "rows_of M d' = rows_of M d" and "\<And>r. refs_row M d' r = refs_row M d r"
  shows "table_ok M d' = table_ok M d"
proof -
  have "violation M d' = violation M d" using assms by (simp add: violation_def fun_eq_iff)
  with assms show ?thesis by (simp add: table_ok_def)
qed

lemma table_ok_purge:
  "table_ok User (purge cutoff d) = table_ok User d"
  "table_ok Organization (purge cutoff d) = table_ok Organization d"
  "table_ok OrganizationMember (purge cutoff d) = table_ok OrganizationMember d"
  "table_ok Team (purge cutoff d) = table_ok Team d"
  "table_ok TeamMember (purge cutoff d) = table_ok TeamMember d"
  "table_ok Project (purge cutoff d) = table_ok Project d"
  "table_ok AuditLog (purge cutoff d) = table_ok AuditLog d"
  "table_ok Notification (purge cutoff d) = table_ok Notification d"
  by (rule table_ok_same; simp add: table_defs)+

lemma purge_wf:
  assumes "db_wf d"
  shows "db_wf (purge cutoff d)"
proof -
  have ok: "table_ok Task d" "table_ok Comment d" "table_ok Attachment d" using assms by (simp_all add: db_wf_def)
  have refs: "refs_row Task (purge cutoff d) t" if "t \<in> set (tbl_tasks (purge cutoff d))" for t
  proof (cases "t_parent_id t")
    case (Some i)
    from that have t: "t \<in> set (tbl_tasks d)" "\<not> swept cutoff (tbl_tasks d) t" by (simp_all add: purge_tasks)
    from kept_parent [OF ok(1) t Some] have "i \<in> task_ids (purge cutoff d)"
      by (auto simp: task_ids_def purge_tasks)
    with ok(1) t(1) Some show ?thesis
      by (simp add: table_ok_def violation_def table_defs opt_ref_Some split: if_splits)
  qed (use ok(1) that in \<open>simp add: table_ok_def violation_def table_defs purge_tasks opt_ref_None split: if_splits\<close>)
  have no_keys: "\<not> same_key Task t t'" "\<not> same_key Comment c c'" "\<not> same_key Attachment a a'" for t t' c c' a a'
    by (simp_all add: table_defs)
  have fits: "fits_row Task t" if "t \<in> set (tbl_tasks (purge cutoff d))" for t
    using ok(1) that by (auto simp: table_ok_def violation_def purge_tasks split: if_splits)
  have "table_ok Task (purge cutoff d)"
    using ok(1) refs fits no_keys(1) by (auto simp: table_ok_def violation_def purge_tasks distinct_map_filter)
  moreover have "table_ok Comment (purge cutoff d)"
    using ok(2) by (auto simp: table_ok_def violation_def table_defs purge_comments distinct_map_filter split: if_splits)
  moreover have "table_ok Attachment (purge cutoff d)"
    using ok(3) by (auto simp: table_ok_def violation_def table_defs purge_attachments distinct_map_filter split: if_splits)
  ultimately show ?thesis
    using assms unfolding db_wf_def by (simp add: table_ok_purge)
qed

lemma cleanup_eq:
  "cleanup_soft_deleted_tasks_job days s =
    (let cutoff_time = clock s 0 - days * 86400 * usec_per_sec;
         s1 = s\<lparr>clock := \<lambda>n. clock s (Suc n)\<rparr> in
     case commit_fault s of
       Some e \<Rightarrow> (Inl e, s1\<lparr>work := committed s\<rparr>)
     | None \<Rightarrow> (Inr (length (filter (expired cutoff_time) (tbl_tasks (committed s)))),
                s1\<lparr>committed := purge cutoff_time (committed s), work := purge cutoff_time (committed s)\<rparr>))"
  by (simp add: cleanup_soft_deleted_tasks_job_def exec_simps app_defs session_defs Let_def split: option.splits)

lemma cleanup_wf: "preserves session_wf (cleanup_soft_deleted_tasks_job days)"
  by (rule preservesI) (auto simp: cleanup_eq Let_def session_wf_def purge_wf split: option.splits)

end
