(* ===== verification/History.thy ===== *)
theory History
  imports AuthApi TaskApi ProjectApi Comments Teams Organizations Attachments Workers "HOL-Library.Sublist"
begin

text \<open>
  What no operation of the program takes back. Accounts, memberships with their roles, teams, team members
  and the audit trail are only ever appended to; organizations, projects and tasks are changed but stay.
  The rules for the statements are proved once for any table and applied to every service and handler.
\<close>

definition appended :: "database \<Rightarrow> database \<Rightarrow> bool" where
  "appended d d' \<longleftrightarrow>
     prefix (tbl_users d) (tbl_users d') \<and>
     prefix (tbl_organization_members d) (tbl_organization_members d') \<and>
     prefix (tbl_teams d) (tbl_teams d') \<and>
     prefix (tbl_team_members d) (tbl_team_members d') \<and>
     prefix (tbl_audit_logs d) (tbl_audit_logs d')"

definition extends :: "database \<Rightarrow> database \<Rightarrow> bool" where
  "extends d d' \<longleftrightarrow> grows d d' \<and> appended d d'"

definition keeps_history :: "database \<Rightarrow> 'z session_scheme \<Rightarrow> bool" where
  "keeps_history d0 s \<longleftrightarrow> extends d0 (committed s) \<and> extends d0 (work s)"

lemma extends_refl [simp]: "extends d d"
  by (simp add: extends_def appended_def)

lemma extends_trans: "extends a b \<Longrightarrow> extends b c \<Longrightarrow> extends a c"
  unfolding extends_def appended_def by (blast intro: grows_trans prefix_order.trans)

lemma session_frame_history [simp]: "session_frame (keeps_history d0)"
  by (auto simp: session_frame_def keeps_history_def)

section \<open>Statements\<close>

text \<open>An INSERT appends, to whatever table; an UPDATE is for the tables that are changed.\<close>

definition appends :: "('r, 'x) model_scheme \<Rightarrow> bool" where
  "appends M \<longleftrightarrow> (\<forall>r d. appended d (with_rows M (rows_of M d @ [r]) d))"

definition mutable :: "('r, 'x) model_scheme \<Rightarrow> bool" where
  "mutable M \<longleftrightarrow> (\<forall>xs d. appended d (with_rows M xs d))"

lemma appends_tables [simp]:
  "appends User" "appends Organization" "appends OrganizationMember" "appends Team" "appends TeamMember"
  "appends Project" "appends Task" "appends Comment" "appends Attachment" "appends AuditLog"
  by (simp_all add: appends_def appended_def)

lemma mutable_tables [simp]: "mutable Organization" "mutable Project" "mutable Task" "mutable Comment"
  by (simp_all add: mutable_def appended_def)

named_theorems history_intros \<open>preservation rules of the history\<close>

lemma transaction_history [history_intros]:
  "preserves (keeps_history d0) body \<Longrightarrow> preserves (keeps_history d0) (transaction body)"
  by (erule transaction_preserves) (simp_all add: keeps_history_def)

lemma with_db_session_history [history_intros]:
  "preserves (keeps_history d0) handler \<Longrightarrow> preserves (keeps_history d0) (with_db_session handler)"
  by (erule with_db_session_preserves) (simp add: keeps_history_def)

lemma commit_history [history_intros]: "preserves (keeps_history d0) commit"
  by (rule commit_preserves) (simp add: keeps_history_def)

context table_model
begin

lemma insert_row_history:
  assumes "appends M"
  shows "preserves (keeps_history d0) (insert_row M r)"
proof (rule preservesI)
  fix s :: "'z session_scheme"
  have "grows (work s) (with_rows M (rows_of M (work s) @ [r]) (work s))"
    by (rule grows_with) auto
  with assms have "extends (work s) (with_rows M (rows_of M (work s) @ [r]) (work s))"
    by (simp add: extends_def appends_def)
  then show "keeps_history d0 s \<Longrightarrow> keeps_history d0 (snd (insert_row M r s))"
    by (auto simp: insert_row_def keeps_history_def Let_def intro: extends_trans split: option.splits)
qed

lemma update_where_history:
  assumes "mutable M" and pk: "\<And>r. pk_of M (f r) = pk_of M r"
  shows "preserves (keeps_history d0) (update_where M P f)"
proof (rule preservesI)
  fix s :: "'z session_scheme"
  have "grows (work s) (with_rows M (map (\<lambda>r. if P r then f r else r) (rows_of M (work s))) (work s))"
    by (rule grows_with) (auto simp: pk image_iff)
  with assms(1) have "extends (work s) (with_rows M (map (\<lambda>r. if P r then f r else r) (rows_of M (work s))) (work s))"
    by (simp add: extends_def mutable_def)
  then show "keeps_history d0 s \<Longrightarrow> keeps_history d0 (snd (update_where M P f s))"
    by (auto simp: update_where_def keeps_history_def Let_def intro: extends_trans split: list.splits)
qed

lemma flush_dirty_history: "mutable M \<Longrightarrow> preserves (keeps_history d0) (flush_dirty M now r)"
  by (intro flush_dirty_preserves update_where_history) simp_all

lemma base_create_history: "appends M \<Longrightarrow> preserves (keeps_history d0) (base_create M r)"
  unfolding base_create_def by (rule insert_row_history)

end

context tenant_table
begin

lemma tenant_create_history: "appends M \<Longrightarrow> preserves (keeps_history d0) (tenant_create M org r)"
  unfolding tenant_create_def by (rule base_create_history)

lemma soft_delete_history: "mutable M \<Longrightarrow> preserves (keeps_history d0) (soft_delete M org db_now now i)"
  unfolding soft_delete_def by (intro preserve_intros update_where_history) simp_all

end

lemma add_audit_history [history_intros]: "preserves (keeps_history d0) (add_audit a)"
  unfolding add_audit_def by (intro preserve_intros audit_logs_tbl.insert_row_history) simp

lemmas table_history =
  users_tbl.base_create_history organizations_tbl.base_create_history organization_members_tbl.base_create_history
  organizations_tbl.flush_dirty_history team_members_tbl.insert_row_history teams_tbl.tenant_create_history
  projects_tbl.tenant_create_history projects_tbl.flush_dirty_history tasks_tbl.tenant_create_history
  tasks_tbl.update_where_history tasks_tbl.flush_dirty_history tasks_tbl.soft_delete_history
  comments_tbl.tenant_create_history comments_tbl.flush_dirty_history attachments_tbl.tenant_create_history

section \<open>Services and handlers\<close>

lemma service_history [history_intros]:
  "preserves (keeps_history d0) (create_task st ast org p r ttl desc prio a)"
  "preserves (keeps_history d0) (update_task_status_occ now ast org tid actor ns v)"
  "preserves (keeps_history d0) (create_project st ast org pc pa)"
  "preserves (keeps_history d0) (update_project now ast org pid pu pa)"
  "preserves (keeps_history d0) (add_comment st org tid me cp)"
  "preserves (keeps_history d0) (update_comment now org cid me role cp)"
  "preserves (keeps_history d0) (create_team st org tp)"
  "preserves (keeps_history d0) (add_member st org tmid u)"
  unfolding create_task_def update_task_status_occ_def create_project_def update_project_def add_comment_def
    update_comment_def create_team_def add_member_def Let_def
  by (intro history_intros preserve_intros table_history; simp add: occ_values_def)+

lemma register_history [history_intros]: "preserves (keeps_history d0) (register H J salt p)"
  unfolding register_def Let_def by (intro history_intros preserve_intros table_history) simp_all

lemma handler_history [history_intros]:
  "preserves (keeps_history d0) (create_task_handler st ast tc ctx)"
  "preserves (keeps_history d0) (update_task_handler now ast tid tu ctx)"
  "preserves (keeps_history d0) (delete_task_handler db_now now tid ctx)"
  "preserves (keeps_history d0) (create_project_handler st ast pc ctx)"
  "preserves (keeps_history d0) (update_project_handler C now ast pid pu ctx)"
  "preserves (keeps_history d0) (create_comment_handler st tid cp ctx)"
  "preserves (keeps_history d0) (update_comment_handler now tid cid cp ctx)"
  "preserves (keeps_history d0) (create_team_handler scan st tp ctx)"
  "preserves (keeps_history d0) (add_team_member_handler st tmid u ctx)"
  "preserves (keeps_history d0) (update_current_organization_handler now ou ctx)"
  "preserves (keeps_history d0) (invite_member_handler st iv ctx)"
  "preserves (keeps_history d0) (confirm_attachment_handler S bucket st tid ac ctx)"
  unfolding create_task_handler_def update_task_handler_def delete_task_handler_def create_project_handler_def
    update_project_handler_def create_comment_handler_def update_comment_handler_def create_team_handler_def
    add_team_member_handler_def update_current_organization_handler_def invite_member_handler_def
    confirm_attachment_handler_def generate_presigned_download_url_def
  by (intro history_intros preserve_intros table_history; simp)+

end
