(* ===== verification/AuditQuery.thy ===== *)
theory AuditQuery
  imports TaskApi
begin

text \<open>
  Queries of the audit trail (\<open>app/api/v1/endpoints/audit.py\<close>, \<open>app/repositories/audit.py\<close>):
  filters, offset pages ordered by time, and the actor of each entry where it still exists.
\<close>

record audit_filters =
  af_entity_type :: "pystr option"
  af_entity_id :: "uuid option"
  af_actor_id :: "uuid option"
  af_action :: "audit_action option"
  af_start_date :: "instant option"
  af_end_date :: "instant option"

record audit_response =
  aur_id :: uuid
  aur_organization_id :: uuid
  aur_actor_id :: "uuid option"
  aur_actor_name :: "pystr option"
  aur_actor_email :: "pystr option"
  aur_entity_type :: pystr
  aur_entity_id :: uuid
  aur_action :: audit_action
  aur_before_state :: "json option"
  aur_after_state :: "json option"
  aur_ip_address :: "pystr option"
  aur_user_agent :: "pystr option"
  aur_timestamp :: instant

text \<open>A filter that is absent, or an empty text, adds no criterion.\<close>

definition audit_criteria :: "uuid \<Rightarrow> audit_filters \<Rightarrow> audit_log \<Rightarrow> bool" where
  "audit_criteria organization_id filters l \<longleftrightarrow>
     al_organization_id l = organization_id \<and>
     (case af_entity_type filters of None \<Rightarrow> True | Some ty \<Rightarrow> ty = [] \<or> al_entity_type l = ty) \<and>
     (case af_entity_id filters of None \<Rightarrow> True | Some i \<Rightarrow> al_entity_id l = i) \<and>
     (case af_actor_id filters of None \<Rightarrow> True | Some i \<Rightarrow> al_actor_id l = Some i) \<and>
     (case af_action filters of None \<Rightarrow> True | Some a \<Rightarrow> al_action l = a) \<and>
     (case af_start_date filters of None \<Rightarrow> True | Some t \<Rightarrow> t \<le> al_timestamp l) \<and>
     (case af_end_date filters of None \<Rightarrow> True | Some t \<Rightarrow> al_timestamp l \<le> t)"

text \<open>Newest first; entries of the same time come in the order of the database.\<close>

definition audit_listing :: "(audit_log list \<Rightarrow> audit_log list) \<Rightarrow> uuid \<Rightarrow> audit_filters \<Rightarrow> audit_log list \<Rightarrow> audit_log list" where
  "audit_listing scan organization_id filters rows =
     sort_key (\<lambda>l. - al_timestamp l) (filter (audit_criteria organization_id filters) (scan rows))"

definition list_audit_logs ::
  "(audit_log list \<Rightarrow> audit_log list) \<Rightarrow> uuid \<Rightarrow> audit_filters \<Rightarrow> nat \<Rightarrow> nat \<Rightarrow> ('z, audit_log list \<times> nat) tx" where
  "list_audit_logs scan organization_id filters offset limit =
     bindE (getsE (\<lambda>s. length (filter (audit_criteria organization_id filters) (tbl_audit_logs (work s))))) (\<lambda>total.
     bindE (getsE (\<lambda>s. take limit (drop offset (audit_listing scan organization_id filters (tbl_audit_logs (work s)))))) (\<lambda>items.
     returnE (items, total)))"

definition audit_response_of :: "database \<Rightarrow> audit_log \<Rightarrow> audit_response" where
  "audit_response_of d l =
     (let actor = (case al_actor_id l of None \<Rightarrow> None | Some i \<Rightarrow> find (\<lambda>u. u_id u = i) (tbl_users d)) in
      \<lparr>aur_id = al_id l, aur_organization_id = al_organization_id l, aur_actor_id = al_actor_id l,
       aur_actor_name = map_option u_full_name actor, aur_actor_email = map_option u_email actor,
       aur_entity_type = al_entity_type l, aur_entity_id = al_entity_id l, aur_action = al_action l,
       aur_before_state = al_before_state l, aur_after_state = al_after_state l, aur_ip_address = al_ip_address l,
       aur_user_agent = al_user_agent l, aur_timestamp = al_timestamp l\<rparr>)"

definition query_audit_logs_handler ::
  "(audit_log list \<Rightarrow> audit_log list) \<Rightarrow> audit_filters \<Rightarrow> nat \<Rightarrow> nat \<Rightarrow> tenant_context \<Rightarrow> ('z, audit_response offset_page) tx" where
  "query_audit_logs_handler scan filters page page_size ctx =
     bindE (list_audit_logs scan (ctx_organization_id ctx) filters ((page - 1) * page_size) page_size) (\<lambda>(items, total).
     bindE (getsE (\<lambda>s. map (audit_response_of (work s)) items)) (\<lambda>response_items.
     returnE \<lparr>op_items = response_items, op_total = total, op_page = page, op_page_size = page_size,
              op_total_pages = total_pages total page_size\<rparr>))"

definition query_audit_logs ::
  "jwt_api \<Rightarrow> (audit_log list \<Rightarrow> audit_log list) \<Rightarrow> pystr \<Rightarrow> uuid \<Rightarrow> audit_filters \<Rightarrow> nat \<Rightarrow> nat \<Rightarrow>
     ('r, 'z, audit_response offset_page) app" where
  "query_audit_logs J scan token org filters page page_size =
     request J ADMIN token org (query_audit_logs_handler scan filters page page_size)"

section \<open>What a query answers\<close>

lemma query_audit_logs_handler_eq:
  "query_audit_logs_handler scan filters page n ctx s =
    (Inr (let org = ctx_organization_id ctx; rows = tbl_audit_logs (work s);
              total = length (filter (audit_criteria org filters) rows) in
      \<lparr>op_items = map (audit_response_of (work s)) (take n (drop ((page - 1) * n) (audit_listing scan org filters rows))),
       op_total = total, op_page = page, op_page_size = n, op_total_pages = total_pages total n\<rparr>), s)"
  by (simp add: query_audit_logs_handler_def list_audit_logs_def exec_simps Let_def)

lemma audit_listing_sorted: "sorted_wrt (\<lambda>x y. al_timestamp y \<le> al_timestamp x) (audit_listing scan org filters rows)"
proof -
  have "sorted (map (\<lambda>l. - al_timestamp l) (audit_listing scan org filters rows))"
    by (simp add: audit_listing_def)
  then show ?thesis by (simp add: sorted_map)
qed

lemma audit_listing_mset:
  "row_order scan \<Longrightarrow> mset (audit_listing scan org filters rows) = filter_mset (audit_criteria org filters) (mset rows)"
  by (simp add: audit_listing_def row_order_def)

lemma preserves_query_audit [preserve_intros]: "preserves I (query_audit_logs_handler scan filters page n ctx)"
  unfolding query_audit_logs_handler_def list_audit_logs_def
  by (intro preserve_intros) (auto intro!: preserve_intros split: prod.splits)

end
