(* ===== verification/Ops.thy ===== *)
theory Ops
  imports Faults
begin

text \<open>
  Operations: the request middleware with the exception handlers around it
  (\<open>app/core/middleware.py\<close>, \<open>app/main.py\<close>), the health probes
  (\<open>app/api/v1/endpoints/health.py\<close>, \<open>app/core/database.py\<close>, \<open>app/services/storage.py\<close>) and
  the parsing of the allowed origins (\<open>app/core/config.py\<close>).
\<close>

section \<open>The request middleware\<close>

record answer =
  an_status :: int
  an_headers :: "(pystr \<times> pystr) list"
  an_problem :: "problem_detail option"

definition problem_answer :: "json_response \<Rightarrow> answer" where
  "problem_answer r = \<lparr>an_status = resp_status r, an_headers = resp_headers r, an_problem = Some (resp_content r)\<rparr>"

text \<open>What the middleware reads of a request; \<open>ri_elapsed\<close> is the formatted duration.\<close>

record request_in =
  ri_path :: pystr
  ri_header_id :: "pystr option"
  ri_uuid :: uuid
  ri_elapsed :: pystr
  ri_now :: instant

definition context_request_id :: "request_in \<Rightarrow> pystr" where
  "context_request_id q = (case ri_header_id q of Some h \<Rightarrow> h | None \<Rightarrow> uuid_str (ri_uuid q))"

text \<open>What the exception handlers see: the identifier bound in the logging context.\<close>

definition handler_info :: "request_in \<Rightarrow> request_info" where
  "handler_info q = \<lparr>rq_path = ri_path q, rq_context_id = Some (context_request_id q), rq_fresh = ri_uuid q, rq_now = ri_now q\<rparr>"

text \<open>
  Inside the middleware the framework answers the exceptions that have a handler of their own;
  any other leaves the middleware and is answered by the catch-all outside of it.
\<close>

definition handled_inside :: "exn \<Rightarrow> bool" where
  "handled_inside e \<longleftrightarrow> (case e of AppException _ _ _ _ \<Rightarrow> True | HTTPException _ _ _ \<Rightarrow> True | _ \<Rightarrow> False)"

definition call_next :: "request_in \<Rightarrow> exn + answer \<Rightarrow> exn + answer" where
  "call_next q r = (case r of
     Inr a \<Rightarrow> Inr a
   | Inl e \<Rightarrow> if handled_inside e then Inr (problem_answer (exception_response (handler_info q) e)) else Inl e)"

definition dispatch :: "request_in \<Rightarrow> exn + answer \<Rightarrow> exn + answer" where
  "dispatch q r = (case call_next q r of
     Inr response \<Rightarrow>
       Inr (response\<lparr>an_headers := AList.update ''X-Response-Time-MS'' (ri_elapsed q)
              (AList.update ''X-Request-ID'' (context_request_id q) (an_headers response))\<rparr>)
   | Inl e \<Rightarrow> Inl e)"

definition serve_request :: "request_in \<Rightarrow> exn + answer \<Rightarrow> answer" where
  "serve_request q r = (case dispatch q r of
     Inr a \<Rightarrow> a
   | Inl e \<Rightarrow> problem_answer (global_unhandled_exception_handler (handler_info q)))"

lemma exception_response_outside:
  "\<not> handled_inside e \<Longrightarrow> exception_response rq e = global_unhandled_exception_handler rq"
  by (cases e) (simp_all add: handled_inside_def)

lemma request_id_handler_info [simp]: "request_id (handler_info q) = context_request_id q"
  by (simp add: request_id_def handler_info_def)

lemma problem_request_id: "pd_request_id (resp_content (exception_response rq e)) = request_id rq"
  by (cases e) (simp_all add: exception_handler_defs)

text \<open>Every answer, whatever the handler did, carries the identifier of its request.\<close>

lemma serve_request_traced:
  "map_of (an_headers (serve_request q r)) ''X-Request-ID'' = Some (context_request_id q)"
proof (cases "\<exists>e. r = Inl e \<and> \<not> handled_inside e")
  case True
  then show ?thesis
    by (auto simp: serve_request_def dispatch_def call_next_def problem_answer_def exception_handler_defs)
next
  case False
  then show ?thesis
    by (auto simp: serve_request_def dispatch_def call_next_def update_conv' split: sum.splits)
qed

lemma serve_request_failed:
  "an_status (serve_request q (Inl e)) = exn_status e \<and>
   an_problem (serve_request q (Inl e)) = Some (resp_content (exception_response (handler_info q) e))"
  using resp_status_exception_response [of "handler_info q" e]
  by (cases "handled_inside e")
    (simp_all add: serve_request_def dispatch_def call_next_def problem_answer_def exception_response_outside)

section \<open>Health probes\<close>

record health_response =
  hr_status :: pystr
  hr_environment :: pystr

definition liveness_check :: "pystr \<Rightarrow> health_response" where
  "liveness_check environment = \<lparr>hr_status = ''healthy'', hr_environment = environment\<rparr>"

text \<open>
  Each probe is a question to a service outside the repository, with its answer given: \<open>None\<close> when
  it raises. An S3 call may fail with a \<open>ClientError\<close> (the service refused it) or otherwise.
\<close>

datatype s3_answer = S3Ok | S3ClientError | S3Failure

datatype pong = PongBool bool | PongText pystr

definition health_check :: "int option \<Rightarrow> bool option" where
  "health_check select_1 = map_option (\<lambda>scalar_val. scalar_val = 1) select_1"

text \<open>\<open>ensure_bucket_exists\<close>: whether it returns, and what is left of the bucket.\<close>

definition ensure_bucket_exists :: "bool \<Rightarrow> s3_answer \<Rightarrow> s3_answer \<Rightarrow> bool \<Rightarrow> unit option \<times> bool" where
  "ensure_bucket_exists connects head create bucket =
     (if \<not> connects then (None, bucket)
      else case head of
             S3Ok \<Rightarrow> (Some (), bucket)
           | S3ClientError \<Rightarrow> (Some (), bucket \<or> create = S3Ok)
           | S3Failure \<Rightarrow> (None, bucket))"

record readiness_response =
  rr_status :: pystr
  rr_database :: bool
  rr_redis :: bool
  rr_storage :: bool

record probes =
  pr_select_1 :: "int option"
  pr_ping :: "pong option"
  pr_connects :: bool
  pr_head :: s3_answer
  pr_create :: s3_answer
  pr_bucket :: bool

definition readiness_check :: "probes \<Rightarrow> int \<times> readiness_response" where
  "readiness_check p =
     (let db_healthy = (case health_check (pr_select_1 p) of Some b \<Rightarrow> b | None \<Rightarrow> False);
          redis_healthy = (case pr_ping p of
              Some (PongBool b) \<Rightarrow> b | Some (PongText t) \<Rightarrow> t = ''PONG'' | None \<Rightarrow> False);
          storage_healthy = (fst (ensure_bucket_exists (pr_connects p) (pr_head p) (pr_create p) (pr_bucket p)) \<noteq> None);
          is_all_ready = (db_healthy \<and> redis_healthy \<and> storage_healthy)
      in (if is_all_ready then 200 else 503,
          \<lparr>rr_status = if is_all_ready then ''ready'' else ''unready'', rr_database = db_healthy,
           rr_redis = redis_healthy, rr_storage = storage_healthy\<rparr>))"

lemma readiness_ready:
  "fst (readiness_check p) = 200 \<longleftrightarrow>
     pr_select_1 p = Some 1 \<and> pr_ping p \<in> {Some (PongBool True), Some (PongText ''PONG'')} \<and>
     pr_connects p \<and> pr_head p \<noteq> S3Failure"
  by (auto simp: readiness_check_def health_check_def ensure_bucket_exists_def Let_def
      split: option.splits pong.splits s3_answer.splits)

section \<open>Allowed origins\<close>

datatype cors_setting = CorsText pystr | CorsList "pystr list" | CorsOther

fun py_split :: "char \<Rightarrow> pystr \<Rightarrow> pystr list" where
  "py_split d [] = [[]]"
| "py_split d (c # cs) =
     (if c = d then [] # py_split d cs
      else case py_split d cs of w # ws \<Rightarrow> (c # w) # ws | [] \<Rightarrow> [[c]])"

definition parse_cors :: "cors_setting \<Rightarrow> cors_setting option" where
  "parse_cors v = (case v of
     CorsText t \<Rightarrow>
       if take 1 t \<noteq> ''['' then Some (CorsList (map py_strip (py_split (CHR '','') t))) else Some (CorsText t)
   | CorsList l \<Rightarrow> Some (CorsList l)
   | CorsOther \<Rightarrow> None)"

lemma py_split_word: "d \<notin> set w \<Longrightarrow> py_split d w = [w]"
  by (induction w) auto

lemma py_split_append: "d \<notin> set w \<Longrightarrow> py_split d (w @ d # rest) = w # py_split d rest"
  by (induction w) auto

text \<open>Origins joined by commas are read back one by one, stripped.\<close>

lemma py_split_join:
  "ws \<noteq> [] \<Longrightarrow> \<forall>w \<in> set ws. d \<notin> set w \<Longrightarrow> py_split d (join_with [d] ws) = ws"
proof (induction "[d]" ws rule: join_with.induct)
  case (3 x y zs)
  then show ?case by (simp add: py_split_append)
qed (auto simp: py_split_word)

end
