(* ===== verification/Routing.thy ===== *)
theory Routing
  imports PyText
begin

text \<open>
  The routes of the HTTP API: the decorators of \<open>app/api/v1/endpoints\<close>, the order in which
  \<open>app/api/v1/api.py\<close> includes the routers, and the prefix \<open>app/main.py\<close> mounts them under. How a
  path matches a template is the framework's business: a parameter with its documented law.
\<close>

datatype http_method = GET | POST | PATCH | DELETE

datatype segment = Lit pystr | Param

datatype endpoint =
    LivenessCheck | ReadinessCheck
  | AuthRegister | AuthLogin | AuthRefresh | AuthLogout | AuthMe
  | OrganizationCurrent | OrganizationUpdate | OrganizationMembers | OrganizationInvite
  | TeamCreate | TeamList | TeamGet | TeamAddMember
  | ProjectCreate | ProjectList | ProjectGet | ProjectUpdate
  | TaskCreate | TaskList | TaskFeed | TaskGet | TaskUpdate | TaskDelete
  | CommentCreate | CommentList | CommentUpdate
  | AttachmentUploadUrl | AttachmentConfirm | AttachmentList
  | AuditList

text \<open>A route: its method, its path, the endpoint it runs and the status of a successful answer.\<close>

record route =
  rt_method :: http_method
  rt_path :: "segment list"
  rt_endpoint :: endpoint
  rt_status :: int

definition route :: "http_method \<Rightarrow> segment list \<Rightarrow> endpoint \<Rightarrow> int \<Rightarrow> route" where
  "route m p e st = \<lparr>rt_method = m, rt_path = p, rt_endpoint = e, rt_status = st\<rparr>"

text \<open>\<open>APIRouter(prefix=...)\<close> and \<open>include_router(..., prefix=...)\<close>.\<close>

definition prefixed :: "segment list \<Rightarrow> route list \<Rightarrow> route list" where
  "prefixed p rs = map (\<lambda>r. r\<lparr>rt_path := p @ rt_path r\<rparr>) rs"

definition health_routes :: "route list" where
  "health_routes = [route GET [Lit ''healthz''] LivenessCheck 200, route GET [Lit ''readyz''] ReadinessCheck 200]"

definition auth_routes :: "route list" where
  "auth_routes = prefixed [Lit ''auth'']
     [route POST [Lit ''register''] AuthRegister 201, route POST [Lit ''login''] AuthLogin 200,
      route POST [Lit ''refresh''] AuthRefresh 200, route POST [Lit ''logout''] AuthLogout 204,
      route GET [Lit ''me''] AuthMe 200]"

definition organizations_routes :: "route list" where
  "organizations_routes = prefixed [Lit ''organizations'']
     [route GET [Lit ''current''] OrganizationCurrent 200, route PATCH [Lit ''current''] OrganizationUpdate 200,
      route GET [Lit ''current'', Lit ''members''] OrganizationMembers 200,
      route POST [Lit ''current'', Lit ''members'', Lit ''invite''] OrganizationInvite 201]"

definition teams_routes :: "route list" where
  "teams_routes = prefixed [Lit ''teams'']
     [route POST [] TeamCreate 201, route GET [] TeamList 200, route GET [Param] TeamGet 200,
      route POST [Param, Lit ''members''] TeamAddMember 204]"

definition projects_routes :: "route list" where
  "projects_routes = prefixed [Lit ''projects'']
     [route POST [] ProjectCreate 201, route GET [] ProjectList 200, route GET [Param] ProjectGet 200,
      route PATCH [Param] ProjectUpdate 200]"

definition tasks_routes :: "route list" where
  "tasks_routes = prefixed [Lit ''tasks'']
     [route POST [] TaskCreate 201, route GET [] TaskList 200, route GET [Lit ''feed''] TaskFeed 200,
      route GET [Param] TaskGet 200, route PATCH [Param] TaskUpdate 200, route DELETE [Param] TaskDelete 204]"

definition comments_routes :: "route list" where
  "comments_routes = prefixed [Lit ''tasks'', Param, Lit ''comments'']
     [route POST [] CommentCreate 201, route GET [] CommentList 200, route PATCH [Param] CommentUpdate 200]"

definition attachments_routes :: "route list" where
  "attachments_routes = prefixed [Lit ''tasks'', Param, Lit ''attachments'']
     [route POST [Lit ''presigned-upload''] AttachmentUploadUrl 200, route POST [] AttachmentConfirm 201,
      route GET [] AttachmentList 200]"

definition audit_routes :: "route list" where
  "audit_routes = prefixed [Lit ''audit-logs''] [route GET [] AuditList 200]"

definition api_router :: "route list" where
  "api_router = health_routes @ auth_routes @ organizations_routes @ teams_routes @ projects_routes @ tasks_routes @
     comments_routes @ attachments_routes @ audit_routes"

definition application_routes :: "route list" where
  "application_routes = prefixed [Lit ''api'', Lit ''v1''] api_router"

lemmas routes_defs =
  application_routes_def api_router_def health_routes_def auth_routes_def organizations_routes_def teams_routes_def
  projects_routes_def tasks_routes_def comments_routes_def attachments_routes_def audit_routes_def prefixed_def route_def

section \<open>Resolution\<close>

text \<open>
  The framework tries the routes in the order of their registration and takes the first whose
  template matches. A literal matches itself, a parameter any segment that is not empty.
\<close>

fun segment_accepts :: "segment \<Rightarrow> pystr \<Rightarrow> bool" where
  "segment_accepts (Lit w) x = (x = w)"
| "segment_accepts Param x = (x \<noteq> [])"

definition path_laws :: "(segment list \<Rightarrow> pystr list \<Rightarrow> bool) \<Rightarrow> bool" where
  "path_laws matches \<longleftrightarrow> (\<forall>t p. matches t p \<longleftrightarrow> list_all2 segment_accepts t p)"

definition resolve :: "(segment list \<Rightarrow> pystr list \<Rightarrow> bool) \<Rightarrow> http_method \<Rightarrow> pystr list \<Rightarrow> route option" where
  "resolve matches m p = find (\<lambda>r. rt_method r = m \<and> matches (rt_path r) p) application_routes"

text \<open>The URL of a route for given identifiers, in the order of its parameters.\<close>

fun fill :: "uuid list \<Rightarrow> segment list \<Rightarrow> pystr list" where
  "fill ids [] = []"
| "fill ids (Lit w # t) = w # fill ids t"
| "fill ids (Param # t) = (case ids of i # is \<Rightarrow> uuid_str i # fill is t | [] \<Rightarrow> [] # fill [] t)"

definition parameters :: "segment list \<Rightarrow> nat" where
  "parameters t = length (filter (\<lambda>x. x = Param) t)"

lemma uuid_str_not_word: "uuid_str u \<noteq> ''feed''" "uuid_str u \<noteq> []"
proof -
  have "uuid_of_str ''feed'' = None" "uuid_of_str [] = None" by code_simp+
  then show "uuid_str u \<noteq> ''feed''" "uuid_str u \<noteq> []" using uuid_text_roundtrip [of u] by auto
qed

lemma matches_fill:
  "parameters t \<le> length ids \<Longrightarrow> list_all2 segment_accepts t (fill ids t)"
  by (induction ids t rule: fill.induct) (auto simp: parameters_def uuid_str_not_word split: list.splits)

text \<open>The feed comes before the task it could be mistaken for.\<close>

lemma feed_is_not_a_task:
  assumes "path_laws matches"
  shows "map_option rt_endpoint (resolve matches GET [''api'', ''v1'', ''tasks'', ''feed'']) = Some TaskFeed"
  using assms by (simp add: resolve_def path_laws_def routes_defs)

text \<open>No route hides another: the URL of every route, whatever its identifiers, leads back to it.\<close>

lemma fill_pair:
  "fill (i # j # ids) [] = []"
  "fill (i # j # ids) (Lit w # t) = w # fill (i # j # ids) t"
  "fill (i # j # ids) (Param # t) = uuid_str i # fill (j # ids) t"
  by simp_all

lemma fill_append: "parameters t \<le> length ids \<Longrightarrow> fill (ids @ js) t = fill ids t"
  by (induction ids t rule: fill.induct) (auto simp: parameters_def split: list.splits)

lemma resolve_pair:
  "\<forall>r \<in> set application_routes.
     resolve (list_all2 segment_accepts) (rt_method r) (fill (i # j # ids) (rt_path r)) = Some r"
  by (simp add: resolve_def routes_defs uuid_str_not_word)

lemma resolve_fill:
  assumes "path_laws matches" and "r \<in> set application_routes" and "parameters (rt_path r) \<le> length ids"
  shows "resolve matches (rt_method r) (fill ids (rt_path r)) = Some r"
proof -
  obtain i j rest where ids: "ids @ [0, 0] = i # j # rest"
    by (cases ids rule: list.exhaust; cases "tl ids") auto
  have "resolve (list_all2 segment_accepts) (rt_method r) (fill (ids @ [0, 0]) (rt_path r)) = Some r"
    unfolding ids using resolve_pair assms(2) by blast
  moreover have "matches = list_all2 segment_accepts" using assms(1) by (simp add: path_laws_def fun_eq_iff)
  ultimately show ?thesis using fill_append [OF assms(3)] by simp
qed

text \<open>Every endpoint has one route.\<close>

definition endpoint_route :: "endpoint \<Rightarrow> route" where
  "endpoint_route e = (case find (\<lambda>r. rt_endpoint r = e) application_routes of Some r \<Rightarrow> r | None \<Rightarrow> route GET [] e 500)"

lemma application_endpoints:
  "map rt_endpoint application_routes =
     [LivenessCheck, ReadinessCheck, AuthRegister, AuthLogin, AuthRefresh, AuthLogout, AuthMe,
      OrganizationCurrent, OrganizationUpdate, OrganizationMembers, OrganizationInvite,
      TeamCreate, TeamList, TeamGet, TeamAddMember, ProjectCreate, ProjectList, ProjectGet, ProjectUpdate,
      TaskCreate, TaskList, TaskFeed, TaskGet, TaskUpdate, TaskDelete,
      CommentCreate, CommentList, CommentUpdate, AttachmentUploadUrl, AttachmentConfirm, AttachmentList, AuditList]"
  by (simp add: routes_defs)

lemma endpoint_routed: "e \<in> rt_endpoint ` set application_routes"
  by (subst set_map [symmetric], subst application_endpoints) (cases e; simp)

lemma endpoint_route_registered: "endpoint_route e \<in> set application_routes \<and> rt_endpoint (endpoint_route e) = e"
proof -
  obtain r where "find (\<lambda>r. rt_endpoint r = e) application_routes = Some r"
    using endpoint_routed [of e] by (cases "find (\<lambda>r. rt_endpoint r = e) application_routes") (auto simp: find_None_iff)
  moreover from this have "endpoint_route e = r" by (simp add: endpoint_route_def)
  ultimately show ?thesis by (auto simp: find_Some_iff)
qed

end
