(* ===== verification/Platform.thy ===== *)
theory Platform
  imports History FeedApi AuditQuery Ops Routing
begin

text \<open>
  The service as a whole: every endpoint of the API, but for the two probes, which touch no state,
  behind one function, with the outside world they use (\<open>app/main.py\<close>, \<open>app/api/v1/api.py\<close>), its routes and its answers.
\<close>

section \<open>The outside world\<close>

text \<open>
  The libraries and services the endpoints use, as their theories describe them; \<open>pf_order_\<close> are the
  orders in which the database returns rows a SELECT does not order.
\<close>

record 'r platform =
  pf_jwt :: jwt_api
  pf_hasher :: hasher
  pf_redis :: "'r cache_api"
  pf_project_schema :: "project_response schema"
  pf_s3 :: s3_api
  pf_bucket :: pystr
  pf_decimal :: "int \<Rightarrow> pystr"
  pf_fromisoformat :: "pystr \<Rightarrow> instant option"
  pf_order_members :: "organization_member list \<Rightarrow> organization_member list"
  pf_order_teams :: "team list \<Rightarrow> team list"
  pf_order_team_members :: "team_member list \<Rightarrow> team_member list"
  pf_order_projects :: "project list \<Rightarrow> project list"
  pf_order_tasks :: "task list \<Rightarrow> task list"
  pf_order_comments :: "comment list \<Rightarrow> comment list"
  pf_order_attachments :: "attachment list \<Rightarrow> attachment list"
  pf_order_audit_logs :: "audit_log list \<Rightarrow> audit_log list"

section \<open>Calls\<close>

text \<open>
  A call carries what the request carries, already parsed, and the identifiers and times the server
  takes for it (\<open>row_stamp\<close>, \<open>audit_stamp\<close>, the database's clock).
\<close>

datatype tenant_call =
    GetOrganization
  | PatchOrganization instant organization_update
  | GetMembers
  | PostInvite row_stamp member_invite
  | PostTeam row_stamp team_create_payload
  | GetTeams
  | GetTeam uuid
  | PostTeamMember row_stamp uuid uuid
  | PostProject row_stamp audit_stamp project_create
  | GetProjects
  | GetProject uuid
  | PatchProject instant audit_stamp uuid project_update
  | PostTask row_stamp audit_stamp task_create_payload
  | GetTasks task_filter_params nat nat
  | GetTaskFeed "uuid option" "task_status option" "pystr option" nat
  | GetTask uuid
  | PatchTask instant audit_stamp uuid task_update_payload
  | DeleteTask instant instant uuid
  | PostComment row_stamp uuid comment_payload
  | GetComments uuid "pystr option" nat
  | PatchComment instant uuid uuid comment_payload
  | PostUploadUrl uuid upload_request
  | PostAttachment row_stamp uuid attachment_confirm
  | GetAttachments uuid
  | GetAuditLogs audit_filters nat nat

datatype api_call =
    PostRegister client_info "128 word" user_register_request
  | PostLogin client_info user_login_request
  | PostRefresh pystr
  | PostLogout pystr
  | GetMe pystr
  | Tenant (call_token: pystr) (call_organization: uuid) tenant_call

datatype body =
    NoBody
  | TokensBody token_response
  | UserBody user_response
  | OrganizationBody organization_response
  | MembersBody "member_response list"
  | MemberBody member_response
  | TeamBody team_response
  | TeamsBody "team_response list"
  | ProjectBody project_response
  | ProjectsBody "project_response list"
  | TaskBody task_response
  | TasksBody "task_response offset_page"
  | FeedBody "task_response cursor_page"
  | CommentBody comment_response
  | CommentsBody "comment_response cursor_page"
  | UploadBody upload_response
  | AttachmentBody attachment_response
  | AttachmentsBody "attachment_response list"
  | AuditBody "audit_response offset_page"

definition answered :: "('a \<Rightarrow> 'b) \<Rightarrow> ('z, 'a) tx \<Rightarrow> ('z, 'b) tx" where
  "answered f m = bindE m (\<lambda>x. returnE (f x))"

fun tenant_request :: "'r platform \<Rightarrow> pystr \<Rightarrow> uuid \<Rightarrow> tenant_call \<Rightarrow> ('r, 'z job_state_ext, body) app" where
  "tenant_request P token org GetOrganization =
     answered OrganizationBody (get_current_organization (pf_jwt P) token org)"
| "tenant_request P token org (PatchOrganization now payload) =
     answered OrganizationBody (patch_current_organization (pf_jwt P) now token org payload)"
| "tenant_request P token org GetMembers =
     answered MembersBody (get_organization_members (pf_jwt P) (pf_order_members P) token org)"
| "tenant_request P token org (PostInvite st payload) =
     answered MemberBody (post_member_invite (pf_jwt P) st token org payload)"
| "tenant_request P token org (PostTeam st payload) =
     answered TeamBody (post_team (pf_jwt P) (pf_order_team_members P) st token org payload)"
| "tenant_request P token org GetTeams =
     answered TeamsBody (get_teams (pf_jwt P) (pf_order_teams P) (pf_order_team_members P) token org)"
| "tenant_request P token org (GetTeam team_id) =
     answered TeamBody (get_team (pf_jwt P) (pf_order_team_members P) token org team_id)"
| "tenant_request P token org (PostTeamMember st team_id user_id) =
     answered (\<lambda>_. NoBody) (post_team_member (pf_jwt P) st token org team_id user_id)"
| "tenant_request P token org (PostProject st ast payload) =
     answered ProjectBody (post_project (pf_jwt P) st ast token org payload)"
| "tenant_request P token org GetProjects =
     answered ProjectsBody (list_projects (pf_jwt P) (pf_order_projects P) token org)"
| "tenant_request P token org (GetProject project_id) =
     answered ProjectBody (get_project (pf_jwt P) (pf_redis P) (pf_project_schema P) token org project_id)"
| "tenant_request P token org (PatchProject now ast project_id payload) =
     answered ProjectBody (patch_project (pf_jwt P) (pf_redis P) now ast token org project_id payload)"
| "tenant_request P token org (PostTask st ast payload) =
     answered TaskBody (post_task (pf_jwt P) st ast token org payload)"
| "tenant_request P token org (GetTasks filters page page_size) =
     answered TasksBody (list_tasks (pf_jwt P) (pf_order_tasks P) token org filters page page_size)"
| "tenant_request P token org (GetTaskFeed project_id status cursor limit) =
     answered FeedBody (list_tasks_feed (pf_jwt P) (pf_fromisoformat P) (pf_order_tasks P) token org project_id status cursor limit)"
| "tenant_request P token org (GetTask task_id) =
     answered TaskBody (get_task (pf_jwt P) token org task_id)"
| "tenant_request P token org (PatchTask now ast task_id payload) =
     answered TaskBody (patch_task (pf_jwt P) now ast token org task_id payload)"
| "tenant_request P token org (DeleteTask db_now now task_id) =
     answered (\<lambda>_. NoBody) (delete_task (pf_jwt P) db_now now token org task_id)"
| "tenant_request P token org (PostComment st task_id payload) =
     answered CommentBody (post_comment (pf_jwt P) st token org task_id payload)"
| "tenant_request P token org (GetComments task_id cursor limit) =
     answered CommentsBody (get_comments (pf_jwt P) (pf_fromisoformat P) (pf_order_comments P) token org task_id cursor limit)"
| "tenant_request P token org (PatchComment now task_id comment_id payload) =
     answered CommentBody (patch_comment (pf_jwt P) now token org task_id comment_id payload)"
| "tenant_request P token org (PostUploadUrl task_id payload) =
     answered UploadBody (post_upload_url (pf_jwt P) (pf_s3 P) (pf_bucket P) token org task_id payload)"
| "tenant_request P token org (PostAttachment st task_id payload) =
     answered AttachmentBody (post_attachment (pf_jwt P) (pf_s3 P) (pf_bucket P) st token org task_id payload)"
| "tenant_request P token org (GetAttachments task_id) =
     answered AttachmentsBody (get_attachments (pf_jwt P) (pf_s3 P) (pf_bucket P) (pf_order_attachments P) token org task_id)"
| "tenant_request P token org (GetAuditLogs filters page page_size) =
     answered AuditBody (query_audit_logs (pf_jwt P) (pf_order_audit_logs P) token org filters page page_size)"

text \<open>A call with the headers its endpoint adds to the answer.\<close>

fun perform :: "'r platform \<Rightarrow> api_call \<Rightarrow> ('r, 'z job_state_ext, (pystr \<times> pystr) list \<times> body) app" where
  "perform P (PostRegister c salt payload) =
     answered (map_prod id TokensBody)
       (post_register (redis_api.truncate (pf_redis P)) (pf_decimal P) (pf_hasher P) (pf_jwt P) c salt payload)"
| "perform P (PostLogin c payload) =
     answered (map_prod id TokensBody)
       (post_login (redis_api.truncate (pf_redis P)) (pf_decimal P) (pf_hasher P) (pf_jwt P) c payload)"
| "perform P (PostRefresh refresh_token) =
     answered (\<lambda>t. ([], TokensBody t)) (post_refresh (redis_api.truncate (pf_redis P)) (pf_jwt P) refresh_token)"
| "perform P (PostLogout refresh_token) =
     answered (\<lambda>_. ([], NoBody)) (post_logout (redis_api.truncate (pf_redis P)) (pf_jwt P) refresh_token)"
| "perform P (GetMe token) =
     answered (\<lambda>u. ([], UserBody u)) (get_me (pf_jwt P) (pf_order_members P) token)"
| "perform P (Tenant token org c) = answered (Pair []) (tenant_request P token org c)"

section \<open>The route of a call\<close>

fun tenant_endpoint :: "tenant_call \<Rightarrow> endpoint \<times> uuid list" where
  "tenant_endpoint GetOrganization = (OrganizationCurrent, [])"
| "tenant_endpoint (PatchOrganization now payload) = (OrganizationUpdate, [])"
| "tenant_endpoint GetMembers = (OrganizationMembers, [])"
| "tenant_endpoint (PostInvite st payload) = (OrganizationInvite, [])"
| "tenant_endpoint (PostTeam st payload) = (TeamCreate, [])"
| "tenant_endpoint GetTeams = (TeamList, [])"
| "tenant_endpoint (GetTeam team_id) = (TeamGet, [team_id])"
| "tenant_endpoint (PostTeamMember st team_id user_id) = (TeamAddMember, [team_id])"
| "tenant_endpoint (PostProject st ast payload) = (ProjectCreate, [])"
| "tenant_endpoint GetProjects = (ProjectList, [])"
| "tenant_endpoint (GetProject project_id) = (ProjectGet, [project_id])"
| "tenant_endpoint (PatchProject now ast project_id payload) = (ProjectUpdate, [project_id])"
| "tenant_endpoint (PostTask st ast payload) = (TaskCreate, [])"
| "tenant_endpoint (GetTasks filters page page_size) = (TaskList, [])"
| "tenant_endpoint (GetTaskFeed project_id status cursor limit) = (TaskFeed, [])"
| "tenant_endpoint (GetTask task_id) = (TaskGet, [task_id])"
| "tenant_endpoint (PatchTask now ast task_id payload) = (TaskUpdate, [task_id])"
| "tenant_endpoint (DeleteTask db_now now task_id) = (TaskDelete, [task_id])"
| "tenant_endpoint (PostComment st task_id payload) = (CommentCreate, [task_id])"
| "tenant_endpoint (GetComments task_id cursor limit) = (CommentList, [task_id])"
| "tenant_endpoint (PatchComment now task_id comment_id payload) = (CommentUpdate, [task_id, comment_id])"
| "tenant_endpoint (PostUploadUrl task_id payload) = (AttachmentUploadUrl, [task_id])"
| "tenant_endpoint (PostAttachment st task_id payload) = (AttachmentConfirm, [task_id])"
| "tenant_endpoint (GetAttachments task_id) = (AttachmentList, [task_id])"
| "tenant_endpoint (GetAuditLogs filters page page_size) = (AuditList, [])"

fun call_endpoint :: "api_call \<Rightarrow> endpoint \<times> uuid list" where
  "call_endpoint (PostRegister c salt payload) = (AuthRegister, [])"
| "call_endpoint (PostLogin c payload) = (AuthLogin, [])"
| "call_endpoint (PostRefresh refresh_token) = (AuthRefresh, [])"
| "call_endpoint (PostLogout refresh_token) = (AuthLogout, [])"
| "call_endpoint (GetMe token) = (AuthMe, [])"
| "call_endpoint (Tenant token org c) = tenant_endpoint c"

definition call_route :: "api_call \<Rightarrow> route" where
  "call_route c = endpoint_route (fst (call_endpoint c))"

definition call_url :: "api_call \<Rightarrow> pystr list" where
  "call_url c = fill (snd (call_endpoint c)) (rt_path (call_route c))"

text \<open>A call through the middleware: the status of its route when it succeeds, a problem when it fails.\<close>

definition serve_call ::
  "'r platform \<Rightarrow> request_in \<Rightarrow> api_call \<Rightarrow> ('r, 'z) job_state_scheme \<Rightarrow> answer \<times> ('r, 'z) job_state_scheme" where
  "serve_call P q c s =
     (case perform P c s of
        (r, s') \<Rightarrow> (serve_request q
          (map_sum id (\<lambda>(headers, _). \<lparr>an_status = rt_status (call_route c), an_headers = headers, an_problem = None\<rparr>) r), s'))"

section \<open>Every call has its route\<close>

lemma call_endpoint_parameters:
  "length (snd (call_endpoint c)) = parameters (rt_path (endpoint_route (fst (call_endpoint c))))"
proof (cases c)
  case (Tenant token org t)
  then show ?thesis by (cases t) (simp_all add: endpoint_route_def routes_defs parameters_def)
qed (simp_all add: endpoint_route_def routes_defs parameters_def)

lemma call_resolves:
  assumes "path_laws matches"
  shows "resolve matches (rt_method (call_route c)) (call_url c) = Some (call_route c) \<and>
    rt_endpoint (call_route c) = fst (call_endpoint c)"
  unfolding call_url_def call_route_def
  using resolve_fill [OF assms, of "endpoint_route (fst (call_endpoint c))" "snd (call_endpoint c)"]
    endpoint_route_registered [of "fst (call_endpoint c)"] call_endpoint_parameters [of c] by simp

end
