(* ===== verification/Answers.thy ===== *)
theory Answers
  imports Platform
begin

text \<open>
  What the answers of the endpoints are made of: a calculus for the results of executions, and with it
  that every row an answer shows belongs to the organization the call names.
\<close>

section \<open>Results of executions\<close>

definition yields :: "('a \<Rightarrow> bool) \<Rightarrow> ('e, 's, 'a) exec \<Rightarrow> bool" where
  "yields Q m \<longleftrightarrow> (\<forall>s x s'. m s = (Inr x, s') \<longrightarrow> Q x)"

lemma yieldsD: "yields Q m \<Longrightarrow> m s = (Inr x, s') \<Longrightarrow> Q x"
  by (auto simp: yields_def)

lemma yields_any: "yields (\<lambda>_. True) m"
  by (simp add: yields_def)

lemma yields_weaken: "yields R m \<Longrightarrow> (\<And>x. R x \<Longrightarrow> Q x) \<Longrightarrow> yields Q m"
  by (auto simp: yields_def)

lemma yields_returnE: "Q x \<Longrightarrow> yields Q (returnE x)"
  by (simp add: yields_def returnE_def)

lemma yields_getsE: "(\<And>s. Q (f s)) \<Longrightarrow> yields Q (getsE f)"
  by (auto simp: yields_def getsE_def)

lemma yields_liftE: "(\<And>x. r = Inr x \<Longrightarrow> Q x) \<Longrightarrow> yields Q (liftE r)"
  by (auto simp: yields_def liftE_def)

lemma yields_some_or_raise: "(\<And>x. v = Some x \<Longrightarrow> Q x) \<Longrightarrow> yields Q (some_or_raise v e)"
  by (auto simp: yields_def some_or_raise_def split: option.splits)

lemma yields_bindE: "yields R m \<Longrightarrow> (\<And>x. R x \<Longrightarrow> yields Q (k x)) \<Longrightarrow> yields Q (bindE m k)"
  unfolding yields_def bindE_def by (fastforce split: prod.splits sum.splits)

text \<open>A step whose result does not matter.\<close>

lemma yields_then: "(\<And>x. yields Q (k x)) \<Longrightarrow> yields Q (bindE m k)"
  by (rule yields_bindE [OF yields_any])

lemma yields_transaction: "yields Q body \<Longrightarrow> yields Q (transaction body)"
  by (auto simp: yields_def transaction_ok)

lemma yields_with_db_session: "yields Q handler \<Longrightarrow> yields Q (with_db_session handler)"
  unfolding yields_def with_db_session_def by (fastforce split: prod.splits sum.splits)

lemma yields_answered: "yields (\<lambda>x. Q (f x)) m \<Longrightarrow> yields Q (answered f m)"
  unfolding answered_def by (erule yields_bindE) (rule yields_returnE)

lemma yields_authorize: "yields (\<lambda>ctx. ctx_organization_id ctx = org) (authorize J r token org)"
  unfolding authorize_def require_role_def by (intro yields_then yields_returnE) simp

lemma yields_request:
  assumes "\<And>ctx. ctx_organization_id ctx = org \<Longrightarrow> yields Q (handler ctx)"
  shows "yields Q (request J r token org handler)"
  unfolding request_def by (intro yields_with_db_session yields_bindE [OF yields_authorize] assms)

section \<open>Rows of a tenant\<close>

lemma yields_tenant_get:
  "yields (\<lambda>found. \<forall>r. found = Some r \<longrightarrow> org_of M r = org) (tenant_get_by_id M org i incl)"
  unfolding tenant_get_by_id_def select_where_def
proof (rule yields_bindE [where R = "\<lambda>rs. \<forall>r \<in> set rs. org_of M r = org"])
  fix rs :: "'a list"
  assume "\<forall>r \<in> set rs. org_of M r = org"
  then show "yields (\<lambda>found. \<forall>r. found = Some r \<longrightarrow> org_of M r = org) (liftE (scalar_one_or_none rs))"
    by (intro yields_liftE) (auto simp: scalar_one_or_none_def split: list.splits)
qed (auto intro!: yields_getsE)

text \<open>The lookup of the services: the row of the tenant, or the exception.\<close>

lemma yields_tenant_row:
  assumes "\<And>r. org_of M r = org \<Longrightarrow> yields Q (k r)"
  shows "yields Q (bindE (tenant_get_by_id M org i incl) (\<lambda>found. bindE (some_or_raise found e) k))"
proof (rule yields_bindE [OF yields_tenant_get])
  fix found
  assume "\<forall>r. found = Some r \<longrightarrow> org_of M r = org"
  then have "yields (\<lambda>r. org_of M r = org) (some_or_raise found e)" by (intro yields_some_or_raise) simp
  then show "yields Q (bindE (some_or_raise found e) k)" by (rule yields_bindE) (rule assms)
qed

lemma in_page: "x \<in> set (take n (drop m (filter P xs))) \<Longrightarrow> P x"
  by (auto dest!: in_set_takeD in_set_dropD)

lemma yields_list_paginated:
  "yields (\<lambda>rs. \<forall>r \<in> set rs. org_of M r = org) (list_paginated M scan org off n incl)"
  unfolding list_paginated_def by (intro yields_getsE ballI) (drule in_page, simp)

lemma yields_insert_row: "Q r \<Longrightarrow> yields Q (insert_row M r)"
  by (auto simp: yields_def insert_row_def Let_def split: if_splits option.splits)

lemma yields_tenant_create: "Q (with_org M org r) \<Longrightarrow> yields Q (tenant_create M org r)"
  unfolding tenant_create_def base_create_def by (rule yields_insert_row)

lemma yields_flush_dirty: "Q r \<Longrightarrow> Q (touch M now r) \<Longrightarrow> yields Q (flush_dirty M now r)"
  unfolding yields_def flush_dirty_def bindE_def returnE_def
  by (auto split: option.splits if_splits prod.splits sum.splits)

lemma yields_update_where: "(\<And>r. P r \<Longrightarrow> Q (f r)) \<Longrightarrow> yields (\<lambda>rs. \<forall>r \<in> set rs. Q r) (update_where M P f)"
  by (auto simp: yields_def update_where_def Let_def split: list.splits)

section \<open>The services\<close>

lemma services_yield:
  "yields (\<lambda>t. t_organization_id t = org) (create_task st ast org p r ttl desc prio a)"
  "yields (\<lambda>t. t_organization_id t = org) (update_task_status_occ now ast org tid actor ns v)"
  "yields (\<lambda>p. p_organization_id p = org) (create_project st ast org pc pa)"
  "yields (\<lambda>p. p_organization_id p = org) (update_project now ast org pid pu pa)"
  "yields (\<lambda>c. c_organization_id c = org) (add_comment st org ctid me cp)"
  "yields (\<lambda>c. c_organization_id c = org) (update_comment now org cid me role cp)"
  "yields (\<lambda>t. tm_organization_id t = org) (create_team st org tp)"
proof -
  show "yields (\<lambda>t. t_organization_id t = org) (create_task st ast org p r ttl desc prio a)"
    unfolding create_task_def
    by (intro yields_transaction yields_bindE [OF yields_tenant_create] yields_then yields_returnE) (auto simp: table_defs)
  show "yields (\<lambda>t. t_organization_id t = org) (update_task_status_occ now ast org tid actor ns v)"
    unfolding update_task_status_occ_def Let_def
    by (rule yields_transaction, rule yields_then, rule yields_then,
        rule yields_bindE [OF yields_update_where [where Q = "\<lambda>t. t_organization_id t = org"]],
        simp add: occ_match_def occ_values_def,
        rule yields_bindE [OF yields_liftE [where Q = "\<lambda>u. \<forall>t. u = Some t \<longrightarrow> t_organization_id t = org"]],
        force simp: scalar_one_or_none_def split: list.splits,
        rule yields_bindE [OF yields_some_or_raise [where Q = "\<lambda>t. t_organization_id t = org"]], blast,
        intro yields_then yields_returnE)
  show "yields (\<lambda>p. p_organization_id p = org) (create_project st ast org pc pa)"
    unfolding create_project_def Let_def
    by (intro yields_transaction, rule yields_then, rule yields_then, rule yields_bindE [OF yields_tenant_create])
      (auto intro!: yields_then yields_returnE)
  show "yields (\<lambda>p. p_organization_id p = org) (update_project now ast org pid pu pa)"
    unfolding update_project_def Let_def
    by (intro yields_transaction yields_tenant_row, rule yields_then, rule yields_bindE [OF yields_flush_dirty])
      (auto simp: apply_project_update_def Let_def intro!: yields_then yields_returnE split: option.splits)
  show "yields (\<lambda>c. c_organization_id c = org) (add_comment st org ctid me cp)"
    unfolding add_comment_def by (intro yields_transaction yields_then yields_tenant_create) simp
  show "yields (\<lambda>c. c_organization_id c = org) (update_comment now org cid me role cp)"
    unfolding update_comment_def by (intro yields_transaction yields_tenant_row yields_then yields_flush_dirty) simp_all
  show "yields (\<lambda>t. tm_organization_id t = org) (create_team st org tp)"
    unfolding create_team_def by (intro yields_transaction yields_tenant_create) simp
qed

section \<open>The handlers\<close>

lemma yields_base_get: "yields (\<lambda>found. \<forall>r. found = Some r \<longrightarrow> pk_of M r = i) (base_get_by_id M i)"
  unfolding base_get_by_id_def by (intro yields_getsE) (auto simp: find_Some_iff)

lemma yields_base_row:
  assumes "\<And>r. pk_of M r = i \<Longrightarrow> yields Q (k r)"
  shows "yields Q (bindE (base_get_by_id M i) (\<lambda>found. bindE (some_or_raise found e) k))"
proof (rule yields_bindE [OF yields_base_get])
  fix found
  assume "\<forall>r. found = Some r \<longrightarrow> pk_of M r = i"
  then have "yields (\<lambda>r. pk_of M r = i) (some_or_raise found e)" by (intro yields_some_or_raise) simp
  then show "yields Q (bindE (some_or_raise found e) k)" by (rule yields_bindE) (rule assms)
qed

lemma organization_handlers_yield:
  "yields (\<lambda>r. or_id r = ctx_organization_id ctx) (get_current_organization_handler ctx)"
  "yields (\<lambda>r. or_id r = ctx_organization_id ctx) (update_current_organization_handler now ou ctx)"
proof -
  show "yields (\<lambda>r. or_id r = ctx_organization_id ctx) (get_current_organization_handler ctx)"
    unfolding get_current_organization_handler_def
    by (intro yields_base_row yields_returnE) (simp add: organization_response_of_def)
  have "o_id (apply_organization_update ou g) = o_id g" for g
    by (simp add: apply_organization_update_def split: option.splits)
  then show "yields (\<lambda>r. or_id r = ctx_organization_id ctx) (update_current_organization_handler now ou ctx)"
    unfolding update_current_organization_handler_def
    by (intro yields_base_row, intro yields_bindE [OF yields_flush_dirty [where Q = "\<lambda>g. o_id g = ctx_organization_id ctx"]])
      (auto simp: organization_response_of_def intro!: yields_then [where m = commit] yields_base_row yields_returnE)
qed

lemma team_handlers_yield:
  "yields (\<lambda>r. ter_organization_id r = org) (get_team_detail scan org tmid)"
  "yields (\<lambda>rs. \<forall>r \<in> set rs. ter_organization_id r = org) (team_details scan org teams)"
proof -
  show detail: "yields (\<lambda>r. ter_organization_id r = org) (get_team_detail scan org tmid)" for tmid
  proof -
    have "yields (\<lambda>found. \<forall>t ms. found = Some (t, ms) \<longrightarrow> tm_organization_id t = org) (get_team_with_members scan org tmid)"
      unfolding get_team_with_members_def select_where_def
      by (rule yields_bindE [OF yields_getsE [where Q = "\<lambda>rs. \<forall>t \<in> set rs. tm_organization_id t = org"]], simp,
          rule yields_bindE [OF yields_liftE [where Q = "\<lambda>u. \<forall>t. u = Some t \<longrightarrow> tm_organization_id t = org"]],
          force simp: scalar_one_or_none_def split: list.splits)
        (auto intro!: yields_returnE yields_getsE split: option.splits)
    then show ?thesis
      unfolding get_team_detail_def
    proof (rule yields_bindE)
      fix found :: "(team \<times> team_member list) option"
      assume "\<forall>t ms. found = Some (t, ms) \<longrightarrow> tm_organization_id t = org"
      then have "yields (\<lambda>(t, ms). tm_organization_id t = org) (some_or_raise found (team_not_found tmid))"
        by (intro yields_some_or_raise) auto
      then show "yields (\<lambda>r. ter_organization_id r = org)
        (bindE (some_or_raise found (team_not_found tmid)) (\<lambda>(team, members).
         bindE (getsE (\<lambda>s. team_members_out (work s) members)) (\<lambda>r.
         bindE (liftE r) (\<lambda>members_out.
         returnE \<lparr>ter_id = tm_id team, ter_organization_id = tm_organization_id team, ter_name = tm_name team,
                  ter_slug = tm_slug team, ter_description = tm_description team, ter_created_at = tm_created_at team,
                  ter_members = members_out\<rparr>))))"
        by (rule yields_bindE) (auto intro!: yields_then yields_returnE)
    qed
  qed
  show "yields (\<lambda>rs. \<forall>r \<in> set rs. ter_organization_id r = org) (team_details scan org teams)"
    by (induction teams) (auto intro!: yields_returnE yields_bindE [OF detail] elim!: yields_bindE)
qed

lemma project_handlers_yield:
  "yields (\<lambda>r. pr_organization_id r = ctx_organization_id ctx) (create_project_handler st ast pc ctx)"
  "yields (\<lambda>r. pr_organization_id r = ctx_organization_id ctx) (update_project_handler C now ast pid pu ctx)"
  "yields (\<lambda>rs. \<forall>r \<in> set rs. pr_organization_id r = ctx_organization_id ctx) (list_projects_handler scan ctx)"
  unfolding create_project_handler_def update_project_handler_def list_projects_handler_def
  by (rule yields_bindE [OF services_yield(3)] yields_bindE [OF services_yield(4)] yields_bindE [OF yields_list_paginated],
      (auto simp: project_response_of_def intro!: yields_then yields_returnE)[1])+

lemma task_handlers_yield:
  "yields (\<lambda>r. tr_organization_id r = ctx_organization_id ctx) (create_task_handler st ast tc ctx)"
  "yields (\<lambda>r. tr_organization_id r = ctx_organization_id ctx) (get_task_handler tid ctx)"
  "yields (\<lambda>r. tr_organization_id r = ctx_organization_id ctx) (update_task_handler now ast tid tu ctx)"
  "yields (\<lambda>r. \<forall>t \<in> set (op_items r). tr_organization_id t = ctx_organization_id ctx) (list_tasks_offset_handler scan filters page n ctx)"
  "yields (\<lambda>r. \<forall>t \<in> set (cp_items r). tr_organization_id t = ctx_organization_id ctx) (list_tasks_feed_handler other scan pid status cursor n ctx)"
proof -
  show "yields (\<lambda>r. tr_organization_id r = ctx_organization_id ctx) (create_task_handler st ast tc ctx)"
    unfolding create_task_handler_def
    by (rule yields_bindE [OF services_yield(1)]) (auto simp: task_response_def intro!: yields_then yields_returnE)
  show "yields (\<lambda>r. tr_organization_id r = ctx_organization_id ctx) (get_task_handler tid ctx)"
    unfolding get_task_handler_def by (intro yields_tenant_row yields_returnE) (simp add: task_response_def)
  have same: "t_organization_id (apply_task_update tu t) = t_organization_id t" for t
    by (simp add: apply_task_update_def Let_def split: option.splits)
  have status: "yields (\<lambda>r. tr_organization_id r = ctx_organization_id ctx)
      (bindE (update_task_status_occ now ast (ctx_organization_id ctx) tid (u_id (ctx_user ctx)) ns v) (\<lambda>t.
       bindE (f t) (\<lambda>_. returnE (task_response t))))" for ns v f
    by (rule yields_bindE [OF services_yield(2)]) (auto simp: task_response_def intro!: yields_then yields_returnE)
  show "yields (\<lambda>r. tr_organization_id r = ctx_organization_id ctx) (update_task_handler now ast tid tu ctx)"
  proof (cases "tu_status tu")
    case None
    show ?thesis
      unfolding update_task_handler_def None option.case
      by (intro yields_tenant_row, rule yields_then,
          rule yields_bindE [OF yields_flush_dirty [where Q = "\<lambda>t. t_organization_id t = ctx_organization_id ctx"]])
        (auto simp: same task_response_def intro!: yields_then yields_returnE)
  qed (simp add: update_task_handler_def status)
  have offset: "yields (\<lambda>(items, total). \<forall>t \<in> set items. t_organization_id t = org) (list_tasks_offset scan org f off lim)" for org f off lim
    unfolding list_tasks_offset_def
    by (rule yields_then, rule yields_bindE [OF yields_getsE [where Q = "\<lambda>rows. \<forall>t \<in> set rows. t_organization_id t = org"]])
      (auto simp: build_filter_criteria_def order_tasks_asc_def order_tasks_desc_def Let_def intro!: yields_returnE
        dest!: in_set_takeD in_set_dropD split: if_splits)
  show "yields (\<lambda>r. \<forall>t \<in> set (op_items r). tr_organization_id t = ctx_organization_id ctx) (list_tasks_offset_handler scan filters page n ctx)"
    unfolding list_tasks_offset_handler_def
    by (rule yields_bindE [OF offset]) (auto simp: task_response_def intro!: yields_returnE)
  show "yields (\<lambda>r. \<forall>t \<in> set (cp_items r). tr_organization_id t = ctx_organization_id ctx) (list_tasks_feed_handler other scan pid status cursor n ctx)"
    unfolding list_tasks_feed_handler_def Let_def
    by (rule yields_bindE [where R = "\<lambda>(items, more). \<forall>t \<in> set items. t_organization_id t = ctx_organization_id ctx"])
      (auto simp: list_tasks_cursor_def tasks_cursor_page_def keyset_page_def order_tasks_desc_def build_filter_criteria_def
        task_response_def Let_def intro!: yields_getsE yields_returnE dest!: in_set_takeD)
qed

lemma comment_handlers_yield:
  "yields (\<lambda>r. cr_organization_id r = ctx_organization_id ctx) (create_comment_handler st tid cp ctx)"
  "yields (\<lambda>r. cr_organization_id r = ctx_organization_id ctx) (update_comment_handler now tid cid cp ctx)"
  "yields (\<lambda>r. \<forall>c \<in> set (cp_items r). cr_organization_id c = ctx_organization_id ctx) (list_comments_handler other scan tid cursor n ctx)"
proof -
  show "yields (\<lambda>r. cr_organization_id r = ctx_organization_id ctx) (create_comment_handler st tid cp ctx)"
    unfolding create_comment_handler_def
    by (rule yields_bindE [OF services_yield(5)]) (auto simp: comment_answer_def intro!: yields_then yields_returnE)
  show "yields (\<lambda>r. cr_organization_id r = ctx_organization_id ctx) (update_comment_handler now tid cid cp ctx)"
    unfolding update_comment_handler_def
    by (rule yields_bindE [OF services_yield(6)]) (auto simp: comment_answer_def intro!: yields_then yields_returnE)
  have "yields (\<lambda>(items, more). \<forall>c \<in> set items. c_organization_id c = org) (list_comments_cursor scan org tid k n)" for org k
    by (auto simp: list_comments_cursor_def comments_page_def keyset_page_def Let_def intro!: yields_getsE dest!: in_set_takeD)
  then show "yields (\<lambda>r. \<forall>c \<in> set (cp_items r). cr_organization_id c = ctx_organization_id ctx) (list_comments_handler other scan tid cursor n ctx)"
    unfolding list_comments_handler_def list_comments_def Let_def
  proof (rule yields_bindE)
    fix page :: "comment list \<times> bool"
    assume "case page of (items, has_more) \<Rightarrow> \<forall>c \<in> set items. c_organization_id c = ctx_organization_id ctx"
    then show "yields (\<lambda>r. \<forall>c \<in> set (cp_items r). cr_organization_id c = ctx_organization_id ctx)
      (case page of (items, has_more) \<Rightarrow>
        bindE (getsE (\<lambda>s. map (listed_comment (work s)) items)) (\<lambda>response_items.
        returnE \<lparr>cp_items = response_items, cp_next_cursor = next_cursor encode_cursor comment_key items has_more,
                 cp_has_more = has_more\<rparr>))"
      by (cases page) (auto simp: listed_comment_def Let_def intro!: yields_returnE
          yields_bindE [OF yields_getsE [where Q = "\<lambda>rs. \<forall>c \<in> set rs. cr_organization_id c = ctx_organization_id ctx"]])
  qed
qed

lemma attachment_handlers_yield:
  "yields (\<lambda>r. ar_organization_id r = ctx_organization_id ctx) (confirm_attachment_handler S bucket st tid ac ctx)"
  "yields (\<lambda>rs. \<forall>r \<in> set rs. ar_organization_id r = ctx_organization_id ctx)
     (list_attachments_handler S bucket scan tid ctx :: ('z, attachment_response list) tx)"
proof -
  show "yields (\<lambda>r. ar_organization_id r = ctx_organization_id ctx) (confirm_attachment_handler S bucket st tid ac ctx)"
    unfolding confirm_attachment_handler_def
    by (rule yields_then, rule yields_then,
        rule yields_bindE [OF yields_tenant_create [where Q = "\<lambda>a. a_organization_id a = ctx_organization_id ctx"]])
      (auto simp: attachment_response_of_def intro!: yields_then yields_returnE)
  have "\<forall>a \<in> set atts. a_organization_id a = org \<Longrightarrow>
      yields (\<lambda>rs. \<forall>r \<in> set rs. ar_organization_id r = org) (attachment_responses S bucket atts :: ('z, attachment_response list) tx)" for atts org
  proof (induction atts)
    case (Cons a atts)
    then have rest: "yields (\<lambda>rs. \<forall>r \<in> set rs. ar_organization_id r = org) (attachment_responses S bucket atts :: ('z, attachment_response list) tx)" by simp
    show ?case unfolding attachment_responses.simps
      by (rule yields_then, rule yields_bindE [OF rest], rule yields_returnE)
        (use Cons.prems in \<open>simp add: attachment_response_of_def\<close>)
  qed (simp add: yields_returnE)
  then show "yields (\<lambda>rs. \<forall>r \<in> set rs. ar_organization_id r = ctx_organization_id ctx) (list_attachments_handler S bucket scan tid ctx :: ('z, _) tx)"
    unfolding list_attachments_handler_def list_by_task_def
    by (intro yields_bindE [OF yields_getsE [where Q = "\<lambda>as. \<forall>a \<in> set as. a_organization_id a = ctx_organization_id ctx"]]) auto
qed

lemma audit_handler_yields:
  "yields (\<lambda>r. \<forall>a \<in> set (op_items r). aur_organization_id a = ctx_organization_id ctx) (query_audit_logs_handler scan filters page n ctx)"
proof -
  have "yields (\<lambda>(items, total). \<forall>l \<in> set items. al_organization_id l = org) (list_audit_logs scan org filters off n)" for org off
    unfolding list_audit_logs_def
    by (rule yields_then, rule yields_bindE [OF yields_getsE [where Q = "\<lambda>items. \<forall>l \<in> set items. al_organization_id l = org"]])
      (auto simp: audit_listing_def audit_criteria_def intro!: yields_returnE dest!: in_set_takeD in_set_dropD)
  then show ?thesis
    unfolding query_audit_logs_handler_def
  proof (rule yields_bindE)
    fix found :: "audit_log list \<times> nat"
    assume "case found of (items, k) \<Rightarrow> \<forall>l \<in> set items. al_organization_id l = ctx_organization_id ctx"
    then show "yields (\<lambda>r. \<forall>a \<in> set (op_items r). aur_organization_id a = ctx_organization_id ctx)
      (case found of (items, k) \<Rightarrow>
        bindE (getsE (\<lambda>s. map (audit_response_of (work s)) items)) (\<lambda>response_items.
        returnE \<lparr>op_items = response_items, op_total = k, op_page = page, op_page_size = n,
                 op_total_pages = total_pages k n\<rparr>))"
      by (cases found) (auto simp: audit_response_of_def Let_def intro!: yields_returnE
          yields_bindE [OF yields_getsE [where Q = "\<lambda>rs. \<forall>a \<in> set rs. aur_organization_id a = ctx_organization_id ctx"]])
  qed
qed

section \<open>The answers of the API\<close>

text \<open>The organizations whose rows an answer shows.\<close>

fun body_organizations :: "body \<Rightarrow> uuid set" where
  "body_organizations (OrganizationBody r) = {or_id r}"
| "body_organizations (TeamBody r) = {ter_organization_id r}"
| "body_organizations (TeamsBody rs) = ter_organization_id ` set rs"
| "body_organizations (ProjectBody r) = {pr_organization_id r}"
| "body_organizations (ProjectsBody rs) = pr_organization_id ` set rs"
| "body_organizations (TaskBody r) = {tr_organization_id r}"
| "body_organizations (TasksBody p) = tr_organization_id ` set (op_items p)"
| "body_organizations (FeedBody p) = tr_organization_id ` set (cp_items p)"
| "body_organizations (CommentBody r) = {cr_organization_id r}"
| "body_organizations (CommentsBody p) = cr_organization_id ` set (cp_items p)"
| "body_organizations (AttachmentBody r) = {ar_organization_id r}"
| "body_organizations (AttachmentsBody rs) = ar_organization_id ` set rs"
| "body_organizations (AuditBody p) = aur_organization_id ` set (op_items p)"
| "body_organizations _ = {}"

lemma team_endpoints_yield:
  "yields (\<lambda>r. ter_organization_id r = ctx_organization_id ctx) (create_team_handler scan st tp ctx)"
  "yields (\<lambda>rs. \<forall>r \<in> set rs. ter_organization_id r = ctx_organization_id ctx) (list_teams_handler scan_t scan ctx)"
  "yields (\<lambda>r. ter_organization_id r = ctx_organization_id ctx) (get_team_handler scan tmid ctx)"
  unfolding create_team_handler_def list_teams_handler_def get_team_handler_def
  by (intro yields_then team_handlers_yield)+

lemma yields_endpoint:
  assumes "\<And>ctx. yields (R ctx) (handler ctx)"
    and "\<And>ctx x. ctx_organization_id ctx = org \<Longrightarrow> R ctx x \<Longrightarrow> body_organizations (f x) \<subseteq> {org}"
  shows "yields (\<lambda>b. body_organizations b \<subseteq> {org}) (answered f (request J r token org handler))"
  by (intro yields_answered yields_request yields_weaken [OF assms(1)]) (rule assms(2))

lemma yields_no_rows:
  "(\<And>x. body_organizations (f x) = {}) \<Longrightarrow> yields (\<lambda>b. body_organizations b \<subseteq> {org}) (answered f m)"
  by (intro yields_answered yields_weaken [OF yields_any]) simp

lemmas handlers_yield = organization_handlers_yield team_endpoints_yield project_handlers_yield
  task_handlers_yield comment_handlers_yield attachment_handlers_yield audit_handler_yields

lemmas row_endpoints = get_current_organization_def patch_current_organization_def
  post_team_def get_teams_def get_team_def post_project_def list_projects_def patch_project_def
  post_task_def list_tasks_def list_tasks_feed_def get_task_def patch_task_def post_comment_def get_comments_def
  patch_comment_def post_attachment_def get_attachments_def query_audit_logs_def

text \<open>Every call but the cached read of a project, whose answer is the cache's.\<close>

lemma tenant_request_yields:
  assumes "\<And>pid. c \<noteq> GetProject pid"
  shows "yields (\<lambda>b. body_organizations b \<subseteq> {org}) (tenant_request P token org c)"
proof (cases c)
  case (GetProject pid)
  with assms show ?thesis by blast
qed (simp_all only: tenant_request.simps row_endpoints,
  ((rule yields_no_rows, (simp; fail)) | (rule yields_endpoint, rule handlers_yield, (auto; fail)))+)

end
