(* ===== verification/Runs.thy ===== *)
theory Runs
  imports Platform
begin

text \<open>
  The runs of the service: any sequence of calls, sweeps of the background worker and changes of the
  environment (the clock, fresh identifiers, failing commits, Redis and its outages), and what holds
  at every moment of every run.
\<close>

section \<open>Runs\<close>

datatype 'r platform_event =
    Call api_call
  | Sweep int
  | Environment "nat \<Rightarrow> instant" "nat \<Rightarrow> uuid" "exn option" 'r bool

fun react :: "'r platform \<Rightarrow> 'r platform_event \<Rightarrow> ('r, 'z) job_state_scheme \<Rightarrow> ('r, 'z) job_state_scheme" where
  "react P (Call c) s = snd (perform P c s)"
| "react P (Sweep days_threshold) s = snd (cleanup_soft_deleted_tasks_job days_threshold s)"
| "react P (Environment c u f r down) s =
     s\<lparr>clock := c, uuid_source := u, commit_fault := f, redis := r, redis_down := down\<rparr>"

definition run :: "'r platform \<Rightarrow> 'r platform_event list \<Rightarrow> ('r, 'z) job_state_scheme \<Rightarrow> ('r, 'z) job_state_scheme" where
  "run P es s = fold (react P) es s"

section \<open>What a request leaves as it is\<close>

lemma answered_preserves: "preserves I m \<Longrightarrow> preserves I (answered f m)"
  unfolding answered_def by (intro preserve_intros)

lemma snd_answered: "snd (answered f m s) = snd (m s)"
  by (simp add: answered_def bindE_def returnE_def split: prod.splits sum.splits)

lemma team_details_keep: "preserves I (team_details scan org teams)"
  by (induction teams) (auto intro!: preserve_intros)

lemma attachment_responses_keep: "preserves I (attachment_responses S bucket atts)"
  by (induction atts) (auto simp: generate_presigned_download_url_def intro!: preserve_intros)

lemma read_handlers_keep:
  "preserves I (get_current_organization_handler ctx)"
  "preserves I (list_organization_members_handler scan_m ctx)"
  "preserves I (list_teams_handler scan_t scan_tm ctx)"
  "preserves I (get_team_handler scan_tm tmid ctx)"
  "preserves I (list_tasks_offset_handler scan_k filters page n ctx)"
  "preserves I (get_task_handler tid ctx)"
  "preserves I (list_comments_handler other scan_c tid cursor n ctx)"
  "preserves I (list_attachments_handler S bucket scan_a tid ctx)"
  "preserves I (query_audit_logs_handler scan_l audits page n ctx)"
  "session_frame I' \<Longrightarrow> preserves I' (get_project_handler C M pid ctx)"
  "session_frame I' \<Longrightarrow> preserves I' (generate_upload_url_handler S bucket tid up ctx)"
  "preserves I (list_projects_handler scan_p ctx)"
  "preserves I (list_tasks_feed_handler other scan_k fpid status cursor n ctx)"
  unfolding get_current_organization_handler_def list_organization_members_handler_def list_teams_handler_def
    get_team_handler_def list_tasks_offset_handler_def list_tasks_offset_def get_task_handler_def
    list_comments_handler_def list_comments_def list_comments_cursor_def list_attachments_handler_def list_by_task_def
    get_project_handler_def get_project_lookup_def get_project_answer_def generate_upload_url_handler_def
    generate_file_key_def generate_presigned_upload_url_def Let_def
  by (auto intro!: preserve_intros team_details_keep attachment_responses_keep split: prod.splits sum.splits option.splits)


text \<open>
  A property of sessions that needs only the two databases and survives the end of a request. The
  endpoints that only read keep every such property.
\<close>

locale request_frame =
  fixes I :: "('r, 'z) job_state_scheme \<Rightarrow> bool"
  assumes frame: "session_frame I"
    and closed: "I s \<Longrightarrow> I (s\<lparr>work := committed s\<rparr>)"
begin

lemma session_keeps: "preserves I handler \<Longrightarrow> preserves I (with_db_session handler)"
  by (erule with_db_session_preserves) (rule closed)

lemma request_keeps: "(\<And>ctx. preserves I (handler ctx)) \<Longrightarrow> preserves I (request J r token org handler)"
  unfolding request_def by (intro session_keeps preserve_intros frame)

lemma reads_keep:
  "preserves I (get_current_organization J token org)"
  "preserves I (get_organization_members J scan_m token org)"
  "preserves I (get_teams J scan_t scan_tm token org)"
  "preserves I (get_team J scan_tm token org tmid)"
  "preserves I (list_projects J scan_p token org)"
  "preserves I (get_project J C M token org pid)"
  "preserves I (list_tasks J scan_k token org filters page n)"
  "preserves I (list_tasks_feed J other scan_k token org fpid status cursor n)"
  "preserves I (get_task J token org tid)"
  "preserves I (get_comments J other scan_c token org tid cursor n)"
  "preserves I (post_upload_url J S bucket token org tid up)"
  "preserves I (get_attachments J S bucket scan_a token org tid)"
  "preserves I (query_audit_logs J scan_l token org audits page n)"
  unfolding get_current_organization_def get_organization_members_def get_teams_def get_team_def list_projects_def
    get_project_def list_tasks_def list_tasks_feed_def get_task_def get_comments_def post_upload_url_def
    get_attachments_def query_audit_logs_def
  by (intro request_keeps read_handlers_keep frame)+

lemma auth_reads_keep:
  "preserves I (post_login R fmt H J c q)"
  "preserves I (post_refresh R J tok)"
  "preserves I (post_logout R J tok)"
  "preserves I (get_me J scan tok)"
  unfolding post_login_def post_refresh_def post_logout_def get_me_def login_handler_def
  by (auto intro!: preserve_intros session_keeps frame split: prod.splits)

end

text \<open>A property every service and handler that writes keeps is kept by every call.\<close>

locale request_invariant = request_frame +
  assumes registers: "preserves I (register H J salt rq)"
    and writes: "preserves I (create_task_handler st ast tc ctx)"
      "preserves I (update_task_handler now ast tid tu ctx)"
      "preserves I (delete_task_handler db_now now tid ctx)"
      "preserves I (create_project_handler st ast pc ctx)"
      "preserves I (update_project_handler C now ast pid pu ctx)"
      "preserves I (create_comment_handler st tid cp ctx)"
      "preserves I (update_comment_handler now tid cid cp ctx)"
      "preserves I (create_team_handler scan st tp ctx)"
      "preserves I (add_team_member_handler st tmid u ctx)"
      "preserves I (update_current_organization_handler now ou ctx)"
      "preserves I (invite_member_handler st iv ctx)"
      "preserves I (confirm_attachment_handler S bucket st tid ac ctx)"
begin

lemma writes_keep:
  "preserves I (post_task J st ast token org tc)"
  "preserves I (patch_task J now ast token org tid tu)"
  "preserves I (delete_task J db_now now token org tid)"
  "preserves I (post_project J st ast token org pc)"
  "preserves I (patch_project J C now ast token org pid pu)"
  "preserves I (post_comment J st token org tid cp)"
  "preserves I (patch_comment J now token org tid cid cp)"
  "preserves I (post_team J scan st token org tp)"
  "preserves I (post_team_member J st token org tmid u)"
  "preserves I (patch_current_organization J now token org ou)"
  "preserves I (post_member_invite J st token org iv)"
  "preserves I (post_attachment J S bucket st token org tid ac)"
  unfolding post_task_def patch_task_def delete_task_def post_project_def patch_project_def post_comment_def
    patch_comment_def post_team_def post_team_member_def patch_current_organization_def post_member_invite_def
    post_attachment_def
  by (intro request_keeps writes)+

lemma register_keeps: "preserves I (post_register R fmt H J c salt rq)"
  unfolding post_register_def register_handler_def
  by (auto intro!: preserve_intros session_keeps frame registers split: prod.splits)

lemma perform_keeps: "preserves I (perform P c)"
proof (cases c)
  case (Tenant token org t)
  then show ?thesis by (cases t) (simp_all add: answered_preserves reads_keep writes_keep)
qed (simp_all add: answered_preserves auth_reads_keep register_keeps)

end

text \<open>Both invariants of the database are kept by every handler, so by every call.\<close>

interpretation wf: request_invariant session_wf
  by unfold_locales (auto simp: session_wf_def intro!: register_wf task_handlers_wf project_handlers_wf
      comment_handlers_wf team_handlers_wf organization_handlers_wf attachment_handlers_wf)

interpretation history: request_invariant "keeps_history d0" for d0
  by unfold_locales (auto simp: keeps_history_def intro!: register_history handler_history)

section \<open>Runs keep the invariants\<close>

lemma react_wf: "session_wf s \<Longrightarrow> session_wf (react P e s)"
proof (cases e)
  case (Call c)
  then show "session_wf s \<Longrightarrow> ?thesis" by (simp add: preservesD [OF wf.perform_keeps])
next
  case (Sweep days)
  then show "session_wf s \<Longrightarrow> ?thesis" by (simp add: preservesD [OF cleanup_wf])
qed (simp add: session_wf_def)

lemma run_simps [simp]: "run P [] s = s" "run P (e # es) s = run P es (react P e s)"
  by (simp_all add: run_def)

lemma run_append: "run P (es @ es') s = run P es' (run P es s)"
  by (simp add: run_def)

lemma run_wf: "session_wf s \<Longrightarrow> session_wf (run P es s)"
  by (induction es arbitrary: s) (simp_all add: react_wf)

text \<open>
  The sweeper removes tasks, comments and attachments and nothing else: but for the task rows, a history
  survives it too.
\<close>

definition without_tasks :: "database \<Rightarrow> database" where
  "without_tasks d = d\<lparr>tbl_tasks := []\<rparr>"

lemma extends_without_tasks: "extends d d' \<Longrightarrow> extends (without_tasks d) d'"
  by (simp add: extends_def grows_def appended_def without_tasks_def key_set_defs)

lemma extends_purge: "extends (without_tasks d) d' \<Longrightarrow> extends (without_tasks d) (purge cutoff d')"
  by (simp add: extends_def grows_def appended_def without_tasks_def key_set_defs purge_def Let_def)

lemma react_history:
  assumes "keeps_history d0 s" and "e \<notin> range Sweep"
  shows "keeps_history d0 (react P e s)"
proof (cases e)
  case (Call c)
  with assms(1) show ?thesis by (simp add: preservesD [OF history.perform_keeps])
next
  case (Environment c u f r down)
  with assms(1) show ?thesis by (simp add: keeps_history_def)
qed (use assms(2) in auto)

lemma react_sweeps:
  assumes "keeps_history (without_tasks d) s"
  shows "keeps_history (without_tasks d) (react P e s)"
proof (cases e)
  case (Sweep days)
  with assms show ?thesis
    by (auto simp: cleanup_eq Let_def keeps_history_def extends_purge split: option.splits)
next
  case (Call c)
  show ?thesis by (rule react_history [OF assms]) (use Call in auto)
next
  case (Environment c u f r down)
  show ?thesis by (rule react_history [OF assms]) (use Environment in auto)
qed

lemma run_history:
  "keeps_history d0 s \<Longrightarrow> set es \<inter> range Sweep = {} \<Longrightarrow> keeps_history d0 (run P es s)"
  by (induction es arbitrary: s) (auto intro: react_history)

lemma run_sweeps: "keeps_history (without_tasks d) s \<Longrightarrow> keeps_history (without_tasks d) (run P es s)"
  by (induction es arbitrary: s) (simp_all add: react_sweeps)

section \<open>Tenants\<close>

text \<open>What a run of \<open>m\<close> leaves of a tenant: every row of every table of it as it was.\<close>

definition untouched :: "uuid \<Rightarrow> ('z, 'a) tx \<Rightarrow> 'z session_scheme \<Rightarrow> bool" where
  "untouched b m s \<longleftrightarrow> tenant_view b (committed (snd (m s))) = tenant_view b (committed s)"

lemma untouched_request:
  assumes "db_wf (committed s)"
    and "\<And>ctx s'. ctx_organization_id ctx = org \<Longrightarrow> db_wf (work s') \<Longrightarrow> keeps_tenant b (committed s) s' \<Longrightarrow>
      keeps_tenant b (committed s) (snd (handler ctx s'))"
  shows "untouched b (request J r token org handler) s"
  unfolding untouched_def by (rule request_keeps_tenant [OF assms]) simp_all

lemma untouched_preserving:
  assumes "db_wf (committed s)" and "\<And>ctx. ctx_organization_id ctx = org \<Longrightarrow> preserves (keeps_tenant b (committed s)) (handler ctx)"
  shows "untouched b (request J r token org handler) s"
  by (rule untouched_request [OF assms(1)], erule preservesD [OF assms(2)])

lemma writes_untouched:
  fixes s :: "('r, 'z) job_state_scheme"
  assumes "db_wf (committed s)" and "b \<noteq> org"
  shows "untouched b (post_task J st ast token org payload) s \<and>
    untouched b (patch_task J now ast token org tid upd) s \<and>
    untouched b (delete_task J db_now now token org tid) s \<and>
    untouched b (post_project J st ast token org pc) s \<and>
    untouched b (patch_project J C now ast token org pid pu) s \<and>
    untouched b (post_comment J st token org tid cp) s \<and>
    untouched b (patch_comment J now token org tid cid cp) s \<and>
    untouched b (post_team J scan st token org tp) s \<and>
    untouched b (post_team_member J st token org tmid u) s \<and>
    untouched b (patch_current_organization J now token org ou) s \<and>
    untouched b (post_member_invite J st token org iv) s \<and>
    untouched b (post_attachment J S bucket st token org tid ac) s"
  unfolding post_task_def patch_task_def delete_task_def post_project_def patch_project_def post_comment_def
    patch_comment_def post_team_def post_team_member_def patch_current_organization_def post_member_invite_def
    post_attachment_def
proof (intro conjI)
  note keep = untouched_request [OF assms(1)] and pres = untouched_preserving [OF assms(1)]
  have b: "b \<noteq> ctx_organization_id ctx" if "ctx_organization_id ctx = org" for ctx using assms(2) that by simp
  show "untouched b (request J MEMBER token org (create_task_handler st ast payload)) s"
    by (rule pres, rule create_task_handler_keeps_tenant, erule b)
  show "untouched b (request J MEMBER token org (update_task_handler now ast tid upd)) s"
    by (rule keep, rule update_task_handler_keeps_tenant) (use assms(2) in auto)
  show "untouched b (request J MEMBER token org (delete_task_handler db_now now tid)) s"
    by (rule pres, rule delete_task_handler_keeps_tenant, erule b)
  show "untouched b (request J MANAGER token org (create_project_handler st ast pc)) s"
    by (rule pres, rule project_handlers_keep_tenant(1), erule b)
  show "untouched b (request J MANAGER token org (update_project_handler C now ast pid pu)) s"
    by (rule keep, rule project_handlers_keep_tenant(2)) (use assms(2) in auto)
  show "untouched b (request J MEMBER token org (create_comment_handler st tid cp)) s"
    by (rule keep, rule comment_handlers_keep_tenant [THEN conjunct1]) (use assms(2) in auto)
  show "untouched b (request J MEMBER token org (update_comment_handler now tid cid cp)) s"
    by (rule keep, rule comment_handlers_keep_tenant [THEN conjunct2]) (use assms(2) in auto)
  show "untouched b (request J MANAGER token org (create_team_handler scan st tp)) s"
    by (rule pres, rule team_handlers_keep_tenant(1), erule b)
  show "untouched b (request J MANAGER token org (add_team_member_handler st tmid u)) s"
    by (rule pres, rule team_handlers_keep_tenant(2), erule b)
  show "untouched b (request J ADMIN token org (update_current_organization_handler now ou)) s"
    by (rule keep, rule organization_handlers_keep_tenant(1)) (use assms(2) in auto)
  show "untouched b (request J ADMIN token org (invite_member_handler st iv)) s"
    by (rule keep, rule organization_handlers_keep_tenant(2)) (use assms(2) in auto)
  show "untouched b (request J MEMBER token org (confirm_attachment_handler S bucket st tid ac)) s"
    by (rule pres, rule attachment_handlers_keep_tenant, erule b)
qed

text \<open>
  A registration creates an organization; it cannot be one that exists, as its key would be taken.
\<close>

definition resident :: "uuid \<Rightarrow> database \<Rightarrow> 'z session_scheme \<Rightarrow> bool" where
  "resident b d0 s \<longleftrightarrow> keeps_tenant b d0 s \<and> b \<in> organization_ids (committed s) \<and> b \<in> organization_ids (work s)"

lemma session_frame_resident [simp]: "session_frame (resident b d0)"
  by (auto simp: session_frame_def resident_def keeps_tenant_def)

lemma resident_inserts:
  "preserves (resident b d0) (base_create User u)"
  "m_organization_id m \<noteq> b \<Longrightarrow> preserves (resident b d0) (base_create OrganizationMember m)"
  "o_id g \<noteq> b \<Longrightarrow> preserves (resident b d0) (base_create Organization g)"
  by (auto simp: preserves_def base_create_def insert_row_def resident_def keeps_tenant_def Let_def tenant_view_def
      org_rows_def key_set_defs split: option.splits)

lemma resident_create_organization:
  fixes k :: "organization \<Rightarrow> ('z, 'a) tx"
  assumes "o_id g \<noteq> b \<Longrightarrow> preserves (resident b d0) (k g)"
  shows "preserves (resident b d0) (bindE (base_create Organization g) k)"
proof (rule preservesI)
  fix s :: "'z session_scheme"
  assume s: "resident b d0 s"
  show "resident b d0 (snd (bindE (base_create Organization g) k s))"
  proof (cases "o_id g = b")
    case True
    with s have "base_create Organization g s = (Inl IntegrityError, s)"
      by (auto simp: base_create_def insert_row_def resident_def organization_ids_def)
    with s show ?thesis by (simp add: bindE_def)
  next
    case False
    have "g' = g" if "base_create Organization g s = (Inr g', s')" for g' s'
      using that by (auto simp: base_create_def insert_row_def Let_def split: if_splits option.splits)
    then show ?thesis
      by (metis bindE_keeps preservesD [OF resident_inserts(3) [OF False] s] preservesD [OF assms [OF False]])
  qed
qed

lemma register_resident: "preserves (resident b d0) (register H J salt p)"
  unfolding register_def Let_def
  by (rule transaction_preserves, intro resident_create_organization preserve_intros resident_inserts)
    (simp_all add: resident_def keeps_tenant_def)

text \<open>What an endpoint that opens its session keeps of the committed database.\<close>

lemma session_untouched:
  assumes "preserves (resident b (committed s)) handler" and "b \<in> organization_ids (committed s)"
  shows "untouched b (with_db_session handler) s"
proof -
  have "resident b (committed s) (s\<lparr>work := committed s\<rparr>)"
    using assms(2) by (simp add: resident_def keeps_tenant_def)
  from preservesD [OF assms(1) this] have "tenant_view b (committed (snd (handler (s\<lparr>work := committed s\<rparr>)))) = tenant_view b (committed s)"
    by (simp add: resident_def keeps_tenant_def)
  then show ?thesis
    by (cases "handler (s\<lparr>work := committed s\<rparr>)"; cases "fst (handler (s\<lparr>work := committed s\<rparr>))")
      (simp_all add: untouched_def with_db_session_def rollback_def)
qed

lemma untouched_bind:
  assumes "\<And>r s'. m s = (r, s') \<Longrightarrow> committed s' = committed s"
    and "\<And>x s'. committed s' = committed s \<Longrightarrow> untouched b (k x) s'"
  shows "untouched b (bindE m k) s"
proof (cases "m s")
  case (Pair r s')
  then have c: "committed s' = committed s" by (rule assms(1))
  with Pair assms(2) [OF c] show ?thesis by (cases r) (simp_all add: untouched_def bindE_def)
qed

lemma untouched_answered: "untouched b (answered f m) s \<longleftrightarrow> untouched b m s"
  by (simp add: untouched_def snd_answered)

lemma rate_limit_committed: "rate_limit R fmt L g h p perf s = (r, s') \<Longrightarrow> committed s' = committed s"
  using preservesD [OF preserves_rate_limit [OF session_frame_committed [of "committed s"]], of s R fmt L g h p perf] by simp

lemma auth_untouched:
  fixes s :: "('r, 'z) app_state_scheme"
  assumes "b \<in> organization_ids (committed s)"
  shows "untouched b (post_register R fmt H J c salt rq) s"
    and "untouched b (post_login R fmt H J c q) s"
    and "untouched b (post_refresh R J tok) s"
    and "untouched b (post_logout R J tok) s"
    and "untouched b (get_me J scan tok) s"
proof -
  note frame = session_frame_resident
  have tail: "untouched b (bindE (with_db_session m) (\<lambda>x. returnE (f x))) s'"
    if "preserves (resident b (committed s)) m" "committed s' = committed s"
    for m :: "('r, 'z, token_response) app" and f :: "token_response \<Rightarrow> (pystr \<times> pystr) list \<times> token_response" and s'
    using session_untouched [of b s' m] that assms by (simp add: untouched_answered [unfolded answered_def])
  have register: "preserves (resident b (committed s)) (register_handler H J salt rq)"
    unfolding register_handler_def by (auto intro!: preserve_intros register_resident split: prod.splits)
  have login: "preserves (resident b (committed s)) (login_handler H J q)"
    unfolding login_handler_def by (auto intro!: preserve_intros frame split: prod.splits)
  show "untouched b (post_register R fmt H J c salt rq) s"
    unfolding post_register_def by (rule untouched_bind, erule rate_limit_committed, rule tail [OF register])
  show "untouched b (post_login R fmt H J c q) s"
    unfolding post_login_def by (rule untouched_bind, erule rate_limit_committed, rule tail [OF login])
  show "untouched b (post_refresh R J tok) s" "untouched b (post_logout R J tok) s" "untouched b (get_me J scan tok) s"
    unfolding post_refresh_def post_logout_def get_me_def
    by (intro session_untouched assms preserve_intros frame)+
qed

text \<open>The endpoints that read change nothing of any tenant.\<close>

lemma reads_untouched:
  assumes "db_wf (committed s)"
  shows "untouched b (get_current_organization J token org) s \<and>
    untouched b (get_organization_members J scan_m token org) s \<and>
    untouched b (get_teams J scan_t scan_tm token org) s \<and>
    untouched b (get_team J scan_tm token org tmid) s \<and>
    untouched b (list_projects J scan_p token org) s \<and>
    untouched b (get_project J C M token org pid) s \<and>
    untouched b (list_tasks J scan_k token org filters page n) s \<and>
    untouched b (list_tasks_feed J other scan_k token org fpid status cursor n) s \<and>
    untouched b (get_task J token org tid) s \<and>
    untouched b (get_comments J other scan_c token org tid cursor n) s \<and>
    untouched b (post_upload_url J S bucket token org tid up) s \<and>
    untouched b (get_attachments J S bucket scan_a token org tid) s \<and>
    untouched b (query_audit_logs J scan_l token org audits page n) s"
  unfolding get_current_organization_def get_organization_members_def get_teams_def get_team_def list_projects_def
    get_project_def list_tasks_def list_tasks_feed_def get_task_def get_comments_def post_upload_url_def
    get_attachments_def query_audit_logs_def
  by (intro conjI untouched_preserving [OF assms] read_handlers_keep session_frame_keeps)

text \<open>
  The events that are not the tenant's: calls in the name of another organization and calls to the
  authentication endpoints, and the environment.
\<close>

definition foreign_event :: "uuid \<Rightarrow> 'r platform_event \<Rightarrow> bool" where
  "foreign_event b e = (case e of
     Call (Tenant token org c) \<Rightarrow> org \<noteq> b
   | Sweep days_threshold \<Rightarrow> False
   | _ \<Rightarrow> True)"

lemma perform_untouched:
  fixes s :: "('r, 'z) job_state_scheme"
  assumes "session_wf s" and "b \<in> organization_ids (committed s)" and "foreign_event b (Call c)"
  shows "untouched b (perform P c) s"
proof (cases c)
  case (Tenant token org t)
  have wf: "db_wf (committed s)" using assms(1) by (simp add: session_wf_def)
  have org: "b \<noteq> org" using assms(3) Tenant by (auto simp: foreign_event_def)
  note writes = writes_untouched [OF wf org] and reads = reads_untouched [OF wf]
  have "untouched b (tenant_request P token org t) s"
    by (cases t) (simp_all add: untouched_answered writes reads)
  with Tenant show ?thesis by (simp add: untouched_answered)
qed (simp_all add: untouched_answered auth_untouched [OF assms(2)])

lemma react_untouched:
  assumes "session_wf s" and "b \<in> organization_ids (committed s)" and "foreign_event b e"
  shows "tenant_view b (committed (react P e s)) = tenant_view b (committed s)"
  using assms perform_untouched [OF assms(1,2)] by (cases e) (simp_all add: untouched_def foreign_event_def)

lemma organization_stays:
  "b \<in> organization_ids d \<Longrightarrow> tenant_view b d' = tenant_view b d \<Longrightarrow> b \<in> organization_ids d'"
proof -
  have "b \<in> organization_ids d \<longleftrightarrow> fst (tenant_view b d) \<noteq> []" for d
    by (auto simp: tenant_view_def organization_ids_def filter_empty_conv)
  then show "b \<in> organization_ids d \<Longrightarrow> tenant_view b d' = tenant_view b d \<Longrightarrow> b \<in> organization_ids d'" by simp
qed

lemma run_untouched:
  assumes "session_wf s" and "b \<in> organization_ids (committed s)" and "\<forall>e \<in> set es. foreign_event b e"
  shows "tenant_view b (committed (run P es s)) = tenant_view b (committed s)"
  using assms
proof (induction es arbitrary: s)
  case (Cons e es)
  then have e: "tenant_view b (committed (react P e s)) = tenant_view b (committed s)"
    by (simp add: react_untouched)
  with Cons organization_stays [OF Cons.prems(2) e] show ?case by (simp add: react_wf)
qed simp

end
