(* ===== verification/Disclosure.thy ===== *)
theory Disclosure
  imports Answers Runs
begin

text \<open>
  What the cache can make an answer show. The entries under a tenant's keys hold rows of that tenant,
  through every call: of all the Redis commands the service issues, only the fill of the cache writes
  to such a key, and it writes a row of the tenant the key names.
\<close>

section \<open>The commands beside the cache\<close>

text \<open>The sorted set commands leave the strings under other keys alone, as Redis documents.\<close>

definition zset_key_laws :: "'r cache_api \<Rightarrow> bool" where
  "zset_key_laws C \<longleftrightarrow>
     (\<forall>t k lo hi r now k'. k' \<noteq> k \<longrightarrow> get_key C now k' (zremrangebyscore C t k lo hi r) = get_key C now k' r) \<and>
     (\<forall>t k m sc r now k'. k' \<noteq> k \<longrightarrow> get_key C now k' (zadd C t k m sc r) = get_key C now k' r) \<and>
     (\<forall>t k ttl r now k'. k' \<noteq> k \<longrightarrow> get_key C now k' (expire C t k ttl r) = get_key C now k' r)"

lemma memory_cache_zset_laws: "zset_key_laws memory_cache"
  by (auto simp: zset_key_laws_def memory_cache_def memory_redis_def redis_api.defs cache_api.defs live_def
      split: option.splits store_value.splits)

text \<open>Whatever validates from the dump of a response carries its organization.\<close>

definition keeps_organization :: "project_response schema \<Rightarrow> bool" where
  "keeps_organization M \<longleftrightarrow> (\<forall>r v. cached_value M (Some (model_dump_json M r)) = Some v \<longrightarrow>
     pr_organization_id v = pr_organization_id r)"

lemma schema_laws_keep: "schema_laws M (\<lambda>_. True) \<Longrightarrow> keeps_organization M"
  by (simp add: schema_laws_def keeps_organization_def cached_value_def)

section \<open>Entries of the right tenant\<close>

definition cache_owned :: "'r cache_api \<Rightarrow> project_response schema \<Rightarrow> 'r \<Rightarrow> bool" where
  "cache_owned C M r \<longleftrightarrow>
     (\<forall>now org pid v. cached_project C M now org pid r = Some v \<longrightarrow> pr_organization_id v = org)"

lemma other_keys:
  "project_cache_key org pid \<noteq> blacklist_key jti" "project_cache_key org pid \<noteq> rate_key h path"
  by (simp_all add: project_cache_key_def build_key_def blacklist_key_def rate_key_def)

lemma owned_revoke:
  "cache_laws C \<Longrightarrow> cache_owned C M r \<Longrightarrow> cache_owned C M (set_ex C t (blacklist_key jti) v ttl r)"
  by (simp add: cache_owned_def cached_project_def cache_laws_def other_keys)

lemma owned_limit:
  "zset_key_laws C \<Longrightarrow> cache_owned C M r \<Longrightarrow>
     cache_owned C M (snd (rate_pipeline (redis_api.truncate C) L (rate_key h path) m t r))"
  by (simp add: cache_owned_def cached_project_def zset_key_laws_def other_keys rate_pipeline_def redis_api.truncate_def Let_def)

lemma owned_fill:
  assumes "cache_laws C" and "keeps_organization M" and "pr_organization_id v = org" and "cache_owned C M r"
  shows "cache_owned C M (set_ex C t (project_cache_key org pid) (model_dump_json M v) 300 r)"
  unfolding cache_owned_def
proof (intro allI impI)
  fix now org' pid' w
  assume w: "cached_project C M now org' pid' (set_ex C t (project_cache_key org pid) (model_dump_json M v) 300 r) = Some w"
  show "pr_organization_id w = org'"
  proof (cases "org' = org \<and> pid' = pid")
    case True
    with w assms(1) have "cached_value M (Some (model_dump_json M v)) = Some w"
      by (auto simp: cached_project_def cache_laws_def cached_value_def split: if_splits)
    with assms(2,3) True show ?thesis by (auto simp: keeps_organization_def)
  next
    case False
    with w assms(1) have "cached_project C M now org' pid' r = Some w"
      by (auto simp: cached_project_def cache_laws_def project_cache_key_inject)
    with assms(4) show ?thesis by (auto simp: cache_owned_def)
  qed
qed

lemma owned_drop:
  "cache_laws C \<Longrightarrow> cache_owned C M r \<Longrightarrow> cache_owned C M (delete_key C t (project_cache_key org pid) r)"
  by (simp add: cache_owned_def cached_after_delete)

section \<open>What executions keep of Redis\<close>

definition on_redis :: "('r \<Rightarrow> bool) \<Rightarrow> ('r, 'z) app_state_scheme \<Rightarrow> bool" where
  "on_redis J s \<longleftrightarrow> J (redis s)"

named_theorems redis_intros \<open>preservation rules of what Redis holds\<close>

lemmas steps_on_redis [redis_intros] = preserves_returnE preserves_raiseE preserves_getsE preserves_liftE preserves_raise_if
  preserves_some_or_raise preserves_bindE preserves_catchE preserves_if preserves_case_option
  preserves_committed_select preserves_base_get_by_id preserves_tenant_get_by_id preserves_list_paginated
  preserves_account_queries preserves_require_role preserves_get_by_key preserves_get_user_profile
  preserves_get_team_detail preserves_redis_ask

lemma same_redis: "(\<And>s. redis (snd (m s)) = redis s) \<Longrightarrow> preserves (on_redis J) m"
  by (simp add: preserves_def on_redis_def)

lemma statements_on_redis [redis_intros]:
  "preserves (on_redis J) (insert_row M r)"
  "preserves (on_redis J) (base_create M r)"
  "preserves (on_redis J) (tenant_create N org q)"
  "preserves (on_redis J) (update_where M P f)"
  "preserves (on_redis J) commit"
  "preserves (on_redis J) datetime_now"
  "preserves (on_redis J) uuid4"
  "preserves (on_redis J) (broadcast_to_room p e d)"
  by (rule same_redis; simp add: insert_row_def base_create_def tenant_create_def update_where_def commit_def
      datetime_now_def uuid4_def broadcast_to_room_def Let_def split: option.splits list.splits)+

lemma enqueue_on_redis [redis_intros]: "preserves (on_redis J) (enqueue f xs)"
  by (rule same_redis) (simp add: enqueue_def)

lemma transactions_on_redis [redis_intros]:
  "preserves (on_redis J) m \<Longrightarrow> preserves (on_redis J) (transaction m)"
  "preserves (on_redis J) m \<Longrightarrow> preserves (on_redis J) (with_db_session m)"
  by (erule transaction_preserves with_db_session_preserves; simp add: on_redis_def)+

lemma more_on_redis [redis_intros]:
  "preserves (on_redis J) (flush_dirty M now r)"
  "preserves (on_redis J) (soft_delete N org db_now now i)"
  "preserves (on_redis J) (add_audit a)"
  "preserves (on_redis J) fresh_stamp"
  "preserves (on_redis J) (create_jwt_token T sub ty d x)"
  "preserves (on_redis J) (decode_jwt_token T tok)"
  "preserves (on_redis J) (is_token_revoked R jti)"
  unfolding soft_delete_def add_audit_def fresh_stamp_def create_jwt_token_def decode_jwt_token_def is_token_revoked_def Let_def
  by (intro flush_dirty_preserves redis_intros)+

lemma accounts_on_redis [redis_intros]:
  "preserves (on_redis J) (authorize T r tok org)"
  "preserves (on_redis J) (generate_token_pair T u)"
  "preserves (on_redis J) (get_current_user T tok)"
  unfolding authorize_def get_current_user_def generate_token_pair_def
  by (auto intro!: redis_intros split: prod.splits)

lemma register_on_redis [redis_intros]: "preserves (on_redis J) (register H T salt p)"
  unfolding register_def Let_def by (intro redis_intros)

lemma authenticate_on_redis [redis_intros]: "preserves (on_redis J) (authenticate H T e p)"
  unfolding authenticate_def by (auto intro!: redis_intros split: prod.splits)

lemma request_on_redis [redis_intros]:
  "(\<And>ctx. preserves (on_redis J) (handler ctx)) \<Longrightarrow> preserves (on_redis J) (request T r tok org handler)"
  unfolding request_def by (intro redis_intros)

lemma services_on_redis [redis_intros]:
  "preserves (on_redis J) (create_task st ast org p r ttl desc prio a)"
  "preserves (on_redis J) (update_task_status_occ now ast org tid actor ns v)"
  "preserves (on_redis J) (create_project st ast org pc pa)"
  "preserves (on_redis J) (update_project now ast org pid pu pa)"
  "preserves (on_redis J) (add_comment st org tid me cp)"
  "preserves (on_redis J) (update_comment now org cid me role cp)"
  "preserves (on_redis J) (create_team st org tp)"
  "preserves (on_redis J) (add_member st org tmid u)"
  unfolding create_task_def update_task_status_occ_def create_project_def update_project_def add_comment_def
    update_comment_def create_team_def add_member_def Let_def
  by (intro redis_intros)+

lemma handlers_on_redis [redis_intros]:
  "preserves (on_redis J) (create_task_handler st ast tc ctx)"
  "preserves (on_redis J) (update_task_handler now ast tid tu ctx)"
  "preserves (on_redis J) (delete_task_handler db_now now tid ctx)"
  "preserves (on_redis J) (create_project_handler st ast pc ctx)"
  "preserves (on_redis J) (create_comment_handler st tid cp ctx)"
  "preserves (on_redis J) (update_comment_handler now tid cid cp ctx)"
  "preserves (on_redis J) (create_team_handler scan st tp ctx)"
  "preserves (on_redis J) (add_team_member_handler st tmid u ctx)"
  "preserves (on_redis J) (update_current_organization_handler now ou ctx)"
  "preserves (on_redis J) (invite_member_handler st iv ctx)"
  "preserves (on_redis J) (confirm_attachment_handler S bucket st tid ac ctx)"
  "preserves (on_redis J) (generate_upload_url_handler S bucket tid up ctx)"
  unfolding create_task_handler_def update_task_handler_def delete_task_handler_def create_project_handler_def
    create_comment_handler_def update_comment_handler_def create_team_handler_def broadcast_to_task_room_def
    add_team_member_handler_def update_current_organization_handler_def invite_member_handler_def
    confirm_attachment_handler_def generate_presigned_download_url_def generate_upload_url_handler_def
    generate_file_key_def generate_presigned_upload_url_def
  by (intro redis_intros)+

section \<open>Every call keeps the entries owned\<close>

text \<open>What the outside world is trusted with.\<close>

definition platform_laws :: "'r platform \<Rightarrow> bool" where
  "platform_laws P \<longleftrightarrow> cache_laws (pf_redis P) \<and> zset_key_laws (pf_redis P) \<and> keeps_organization (pf_project_schema P)"

abbreviation owns :: "'r platform \<Rightarrow> ('r, 'z) app_state_scheme \<Rightarrow> bool" where
  "owns P \<equiv> on_redis (cache_owned (pf_redis P) (pf_project_schema P))"

lemma owns_redis_do: "(\<And>r. J r \<Longrightarrow> J (f r)) \<Longrightarrow> preserves (on_redis J) (redis_do f)"
  by (auto simp: preserves_def on_redis_def redis_do_def)

lemma owns_revoke:
  "platform_laws P \<Longrightarrow> preserves (owns P) (revoke_token (redis_api.truncate (pf_redis P)) jti e)"
  unfolding revoke_token_def Let_def
  by (intro redis_intros owns_redis_do) (simp add: redis_api.truncate_def platform_laws_def owned_revoke)

lemma owns_rate_limit:
  "platform_laws P \<Longrightarrow>
     preserves (owns P) (rate_limit (redis_api.truncate (pf_redis P)) fmt L None h path perf)"
  unfolding rate_limit_def Let_def option.case
  by (intro redis_intros owns_redis_do) (simp add: platform_laws_def owned_limit)

lemma owns_get_project:
  assumes "platform_laws P"
  shows "preserves (owns P) (get_project (pf_jwt P) (pf_redis P) (pf_project_schema P) token org pid)"
proof -
  have lookup: "preserves (owns P) (get_project_lookup (pf_redis P) (pf_project_schema P) pid ctx)" for ctx
    unfolding get_project_lookup_def
    by (intro redis_intros same_redis) (simp add: cache_get_eq)
  have row: "yields (\<lambda>found. \<forall>p. found = Inr p \<longrightarrow> p_organization_id p = ctx_organization_id ctx)
      (get_project_lookup (pf_redis P) (pf_project_schema P) pid ctx)" for ctx
    unfolding get_project_lookup_def
  proof (rule yields_then)
    fix cached
    show "yields (\<lambda>found. \<forall>p. found = Inr p \<longrightarrow> p_organization_id p = ctx_organization_id ctx)
      (case cached of Some r \<Rightarrow> returnE (Inl r)
       | None \<Rightarrow> bindE (tenant_get_by_id Project (ctx_organization_id ctx) pid False) (\<lambda>found.
           bindE (some_or_raise found (project_not_found pid)) (\<lambda>project. returnE (Inr project))))"
      by (cases cached) (auto intro!: yields_tenant_row yields_returnE)
  qed
  have answer: "owns P (snd (get_project_answer (pf_redis P) (pf_project_schema P) pid ctx found s))"
    if "\<forall>p. found = Inr p \<longrightarrow> p_organization_id p = ctx_organization_id ctx" and "owns P s" for ctx found s
    using that assms
    by (cases found) (auto simp: get_project_answer_def returnE_def bindE_def cache_set_eq on_redis_def platform_laws_def
        project_response_of_def Let_def intro!: owned_fill)
  show ?thesis
    unfolding get_project_def
  proof (rule request_on_redis)
    fix ctx
    show "preserves (owns P) (get_project_handler (pf_redis P) (pf_project_schema P) pid ctx)"
      unfolding get_project_handler_def
      by (rule preservesI, rule bindE_keeps, erule preservesD [OF lookup], rule answer, erule yieldsD [OF row], assumption)
  qed
qed

lemma owns_patch_project:
  assumes "platform_laws P"
  shows "preserves (owns P) (patch_project (pf_jwt P) (pf_redis P) now ast token org pid pu)"
proof -
  have "preserves (owns P) (cache_delete (pf_redis P) (project_cache_key org pid))" for org
    using assms by (auto simp: preserves_def on_redis_def cache_delete_eq platform_laws_def Let_def intro!: owned_drop)
  then show ?thesis
    unfolding patch_project_def update_project_handler_def by (intro redis_intros)
qed

lemma reads_on_redis:
  "preserves (on_redis J) (get_current_organization T token org)"
  "preserves (on_redis J) (get_organization_members T scan_m token org)"
  "preserves (on_redis J) (get_teams T scan_t scan_tm token org)"
  "preserves (on_redis J) (get_team T scan_tm token org tmid)"
  "preserves (on_redis J) (list_projects T scan_p token org)"
  "preserves (on_redis J) (list_tasks T scan_k token org filters page n)"
  "preserves (on_redis J) (list_tasks_feed T other scan_k token org fpid status cursor n)"
  "preserves (on_redis J) (get_task T token org tid)"
  "preserves (on_redis J) (get_comments T other scan_c token org tid cursor n)"
  "preserves (on_redis J) (get_attachments T S bucket scan_a token org tid)"
  "preserves (on_redis J) (query_audit_logs T scan_l token org audits page n)"
  unfolding get_current_organization_def get_organization_members_def get_teams_def get_team_def list_projects_def
    list_tasks_def list_tasks_feed_def get_task_def get_comments_def get_attachments_def query_audit_logs_def
  by (intro request_on_redis read_handlers_keep)+

lemma writes_on_redis:
  "preserves (on_redis J) (post_task T st ast token org tc)"
  "preserves (on_redis J) (patch_task T now ast token org tid tu)"
  "preserves (on_redis J) (delete_task T db_now now token org tid)"
  "preserves (on_redis J) (post_project T st ast token org pc)"
  "preserves (on_redis J) (post_comment T st token org tid cp)"
  "preserves (on_redis J) (patch_comment T now token org tid cid cp)"
  "preserves (on_redis J) (post_team T scan st token org tp)"
  "preserves (on_redis J) (post_team_member T st token org tmid u)"
  "preserves (on_redis J) (patch_current_organization T now token org ou)"
  "preserves (on_redis J) (post_member_invite T st token org iv)"
  "preserves (on_redis J) (post_attachment T S bucket st token org tid ac)"
  "preserves (on_redis J) (post_upload_url T S bucket token org tid up)"
  unfolding post_task_def patch_task_def delete_task_def post_project_def post_comment_def patch_comment_def post_team_def
    post_team_member_def patch_current_organization_def post_member_invite_def post_attachment_def post_upload_url_def
  by (intro request_on_redis handlers_on_redis)+

lemma auth_owns:
  assumes "platform_laws P"
  shows "preserves (owns P) (post_register (redis_api.truncate (pf_redis P)) fmt H T c salt rq)"
    and "preserves (owns P) (post_login (redis_api.truncate (pf_redis P)) fmt H T c lq)"
    and "preserves (owns P) (post_refresh (redis_api.truncate (pf_redis P)) T tok)"
    and "preserves (owns P) (post_logout (redis_api.truncate (pf_redis P)) T tok)"
    and "preserves (owns P) (get_me T scan tok)"
  unfolding post_register_def register_handler_def post_login_def login_handler_def post_refresh_def refresh_tokens_def
    post_logout_def logout_def get_me_def
  by (auto intro!: redis_intros owns_rate_limit owns_revoke assms split: prod.splits)

lemma perform_owns:
  assumes "platform_laws P"
  shows "preserves (owns P) (perform P c)"
proof (cases c)
  case (Tenant token org t)
  then show ?thesis
    by (cases t) (simp_all add: answered_preserves reads_on_redis writes_on_redis owns_get_project [OF assms]
        owns_patch_project [OF assms])
qed (simp_all add: answered_preserves auth_owns [OF assms])

section \<open>What a call discloses\<close>

lemma get_project_discloses:
  assumes "session_wf s" and "owns P s"
    and "get_project (pf_jwt P) (pf_redis P) (pf_project_schema P) token org pid s = (Inr r, s')"
  shows "pr_organization_id r = org"
proof -
  have wf: "db_wf (committed s)" using assms(1) by (simp add: session_wf_def)
  obtain ctx s1 where h: "get_project_handler (pf_redis P) (pf_project_schema P) pid ctx (opened s) = (Inr r, s1)"
    and org: "ctx_organization_id ctx = org"
    using request_ok [OF wf assms(3) [unfolded get_project_def]] by blast
  have r: "redis (opened s) = redis s" by simp
  show ?thesis
    using h assms(2) wf visible_project_Some [of org pid "committed s"]
    by (auto simp: get_project_handler_eq get_project_answer_eq Let_def org on_redis_def cache_owned_def
        project_response_of_def split: option.splits if_splits)
qed

lemma perform_discloses:
  assumes "session_wf s" and "owns P s" and "perform P (Tenant token org c) s = (Inr (h, b), s')"
  shows "body_organizations b \<subseteq> {org}"
proof -
  obtain s1 where t: "tenant_request P token org c s = (Inr b, s1)"
    using assms(3) by (auto simp: answered_def bindE_ok returnE_def)
  show ?thesis
  proof (cases c)
    case (GetProject pid)
    with t get_project_discloses [OF assms(1,2)] show ?thesis
      by (auto simp: answered_def bindE_ok returnE_def)
  qed (rule yieldsD [OF tenant_request_yields t], simp)+
qed

section \<open>Runs\<close>

text \<open>An environment that changes what Redis holds under the cache's keys only by entries of their tenants.\<close>

definition brings_owned :: "'r platform \<Rightarrow> 'r platform_event \<Rightarrow> bool" where
  "brings_owned P e \<longleftrightarrow>
     (case e of Environment c u f r down \<Rightarrow> cache_owned (pf_redis P) (pf_project_schema P) r | _ \<Rightarrow> True)"

lemma react_owns:
  assumes "platform_laws P" and "brings_owned P e" and "owns P s"
  shows "owns P (react P e s)"
proof (cases e)
  case (Call c)
  with assms show ?thesis by (simp add: preservesD [OF perform_owns])
next
  case (Sweep days)
  with assms show ?thesis by (simp add: cleanup_eq on_redis_def Let_def split: option.splits)
next
  case (Environment c u f r down)
  with assms show ?thesis by (simp add: on_redis_def brings_owned_def)
qed

lemma run_owns:
  "platform_laws P \<Longrightarrow> \<forall>e \<in> set es. brings_owned P e \<Longrightarrow> owns P s \<Longrightarrow> owns P (run P es s)"
  by (induction es arbitrary: s) (simp_all add: react_owns)

end
