(* ===== verification/Hub.thy ===== *)
theory Hub
  imports Events
begin

text \<open>
  The rooms of the WebSocket hub and their Redis listeners (\<open>app/websockets/hub.py\<close>), as the
  asyncio event loop interleaves them: between two \<open>await\<close>s that suspend, a coroutine runs alone,
  so \<open>connect\<close> after its \<open>accept\<close>, \<open>disconnect\<close>, and every stretch of
  \<open>_listen_redis_channel\<close> between two of its suspensions is one step.

  Redis Pub/Sub delivers to each subscriber of a channel what is published while it is
  subscribed, in order (\<open>l_inbox\<close>); the log of publications, the peers and what each socket
  received are history, which no code reads.
\<close>

type_synonym socket = nat

text \<open>
  Where a listener is: before its subscription, at the test of its loop, in \<open>get_message\<close>, in
  the loop of \<open>send_text\<close> over a snapshot of the room (the publication sent, the sockets still to
  serve, the dead ones found), ended, or dead of an exception.
\<close>

datatype listener_phase =
    Starting
  | Looping
  | Waiting
  | Sending nat "socket list" "socket list"
  | Ended
  | Crashed

record listener =
  l_project :: uuid
  l_phase :: listener_phase
  l_cancelled :: bool
  l_inbox :: "nat list"

record hub =
  rooms :: "uuid \<Rightarrow> socket set option"
  listener_tasks :: "uuid \<Rightarrow> nat option"
  tasks :: "nat \<Rightarrow> listener option"
  next_task :: nat
  hub_log :: "(uuid \<times> pystr) list"
  peer :: "socket \<Rightarrow> uuid option"
  received :: "socket \<Rightarrow> nat list"

definition empty_hub :: hub where
  "empty_hub = \<lparr>rooms = (\<lambda>_. None), listener_tasks = (\<lambda>_. None), tasks = (\<lambda>_. None), next_task = 0,
     hub_log = [], peer = (\<lambda>_. None), received = (\<lambda>_. [])\<rparr>"

section \<open>The operations\<close>

definition new_listener :: "uuid \<Rightarrow> listener" where
  "new_listener project_id = \<lparr>l_project = project_id, l_phase = Starting, l_cancelled = False, l_inbox = []\<rparr>"

text \<open>\<open>asyncio.create_task\<close>, and \<open>Task.cancel\<close>, which does nothing to a task that is done.\<close>

definition create_task_of :: "uuid \<Rightarrow> hub \<Rightarrow> hub" where
  "create_task_of project_id h =
     h\<lparr>tasks := (tasks h)(next_task h \<mapsto> new_listener project_id), next_task := next_task h + 1,
       listener_tasks := (listener_tasks h)(project_id \<mapsto> next_task h)\<rparr>"

definition cancel :: "listener \<Rightarrow> listener" where
  "cancel l = (if l_phase l = Ended \<or> l_phase l = Crashed then l else l\<lparr>l_cancelled := True\<rparr>)"

definition change_task :: "nat \<Rightarrow> (listener \<Rightarrow> listener) \<Rightarrow> hub \<Rightarrow> hub" where
  "change_task t f h = h\<lparr>tasks := (tasks h)(t := map_option f (tasks h t))\<rparr>"

definition hub_connect :: "uuid \<Rightarrow> socket \<Rightarrow> hub \<Rightarrow> hub" where
  "hub_connect project_id ws h =
     (let h1 = (case rooms h project_id of
                  None \<Rightarrow> create_task_of project_id (h\<lparr>rooms := (rooms h)(project_id \<mapsto> {})\<rparr>)
                | Some _ \<Rightarrow> h)
      in h1\<lparr>rooms := (rooms h1)(project_id := map_option (insert ws) (rooms h1 project_id))\<rparr>)"

definition hub_disconnect :: "uuid \<Rightarrow> socket \<Rightarrow> hub \<Rightarrow> hub" where
  "hub_disconnect project_id ws h =
     (case rooms h project_id of
        None \<Rightarrow> h
      | Some room \<Rightarrow>
          if room - {ws} \<noteq> {} then h\<lparr>rooms := (rooms h)(project_id \<mapsto> room - {ws})\<rparr>
          else (let h1 = h\<lparr>rooms := (rooms h)(project_id := None)\<rparr> in
                case listener_tasks h1 project_id of
                  None \<Rightarrow> h1
                | Some t \<Rightarrow> (change_task t cancel h1)\<lparr>listener_tasks := (listener_tasks h1)(project_id := None)\<rparr>))"

text \<open>A publication reaches the inbox of every listener that is subscribed to the channel.\<close>

definition subscribed :: "listener \<Rightarrow> bool" where
  "subscribed l \<longleftrightarrow> l_phase l \<notin> {Starting, Ended, Crashed}"

definition hub_publish :: "uuid \<Rightarrow> pystr \<Rightarrow> hub \<Rightarrow> hub" where
  "hub_publish project_id payload h =
     h\<lparr>hub_log := hub_log h @ [(project_id, payload)],
       tasks := (\<lambda>t. map_option (\<lambda>l. if subscribed l \<and> channel_name (l_project l) = channel_name project_id
                                      then l\<lparr>l_inbox := l_inbox l @ [length (hub_log h)]\<rparr> else l) (tasks h t))\<rparr>"

definition set_phase_of :: "nat \<Rightarrow> listener_phase \<Rightarrow> hub \<Rightarrow> hub" where
  "set_phase_of t ph = change_task t (\<lambda>l. l\<lparr>l_phase := ph\<rparr>)"

section \<open>The steps\<close>

text \<open>
  A cancelled listener raises \<open>CancelledError\<close> where it is suspended, and ends; any other
  exception of Redis ends it too, without cleaning up the room. \<open>admitted\<close> says which sockets the
  endpoint lets into which room. A \<open>snapshot\<close> is \<open>list(self.rooms.get(project_id, set()))\<close>.
\<close>

definition snapshot :: "uuid \<Rightarrow> hub \<Rightarrow> socket list \<Rightarrow> bool" where
  "snapshot project_id h todo \<longleftrightarrow>
     distinct todo \<and> set todo = (case rooms h project_id of Some room \<Rightarrow> room | None \<Rightarrow> {})"

inductive hub_step :: "(socket \<Rightarrow> uuid \<Rightarrow> bool) \<Rightarrow> hub \<Rightarrow> hub \<Rightarrow> bool" for admitted where
  connect: "peer h ws = None \<Longrightarrow> admitted ws pid \<Longrightarrow>
    hub_step admitted h ((hub_connect pid ws h)\<lparr>peer := (peer h)(ws \<mapsto> pid)\<rparr>)"
| disconnect: "peer h ws = Some pid \<Longrightarrow> hub_step admitted h (hub_disconnect pid ws h)"
| publish: "hub_step admitted h (hub_publish pid payload h)"
| subscribe: "tasks h t = Some l \<Longrightarrow> \<not> l_cancelled l \<Longrightarrow> l_phase l = Starting \<Longrightarrow>
    hub_step admitted h (set_phase_of t Looping h)"
| loop: "tasks h t = Some l \<Longrightarrow> \<not> l_cancelled l \<Longrightarrow> l_phase l = Looping \<Longrightarrow> rooms h (l_project l) \<noteq> None \<Longrightarrow>
    hub_step admitted h (set_phase_of t Waiting h)"
| loop_exit: "tasks h t = Some l \<Longrightarrow> \<not> l_cancelled l \<Longrightarrow> l_phase l = Looping \<Longrightarrow> rooms h (l_project l) = None \<Longrightarrow>
    hub_step admitted h (set_phase_of t Ended h)"
| timeout: "tasks h t = Some l \<Longrightarrow> \<not> l_cancelled l \<Longrightarrow> l_phase l = Waiting \<Longrightarrow>
    hub_step admitted h (set_phase_of t Looping h)"
| message: "tasks h t = Some l \<Longrightarrow> \<not> l_cancelled l \<Longrightarrow> l_phase l = Waiting \<Longrightarrow> l_inbox l = i # rest \<Longrightarrow>
    snd (hub_log h ! i) \<noteq> [] \<Longrightarrow> snapshot (l_project l) h todo \<Longrightarrow>
    hub_step admitted h (change_task t (\<lambda>l. l\<lparr>l_inbox := rest, l_phase := Sending i todo []\<rparr>) h)"
| empty_message: "tasks h t = Some l \<Longrightarrow> \<not> l_cancelled l \<Longrightarrow> l_phase l = Waiting \<Longrightarrow> l_inbox l = i # rest \<Longrightarrow>
    snd (hub_log h ! i) = [] \<Longrightarrow>
    hub_step admitted h (change_task t (\<lambda>l. l\<lparr>l_inbox := rest, l_phase := Looping\<rparr>) h)"
| send: "tasks h t = Some l \<Longrightarrow> \<not> l_cancelled l \<Longrightarrow> l_phase l = Sending i (ws # todo) dead \<Longrightarrow>
    hub_step admitted h (set_phase_of t (Sending i todo dead) (h\<lparr>received := (received h)(ws := received h ws @ [i])\<rparr>))"
| send_fails: "tasks h t = Some l \<Longrightarrow> \<not> l_cancelled l \<Longrightarrow> l_phase l = Sending i (ws # todo) dead \<Longrightarrow>
    hub_step admitted h (set_phase_of t (Sending i todo (dead @ [ws])) h)"
| reap: "tasks h t = Some l \<Longrightarrow> \<not> l_cancelled l \<Longrightarrow> l_phase l = Sending i [] dead \<Longrightarrow>
    hub_step admitted h (set_phase_of t Looping (fold (hub_disconnect (l_project l)) dead h))"
| stop: "tasks h t = Some l \<Longrightarrow> l_cancelled l \<Longrightarrow> l_phase l \<noteq> Crashed \<Longrightarrow>
    hub_step admitted h (set_phase_of t Ended h)"
| crash: "tasks h t = Some l \<Longrightarrow> \<not> l_cancelled l \<Longrightarrow> l_phase l = Starting \<or> l_phase l = Waiting \<Longrightarrow>
    hub_step admitted h (set_phase_of t Crashed h)"

inductive_cases hub_stepE: "hub_step admitted h h'"

definition hub_reachable :: "(socket \<Rightarrow> uuid \<Rightarrow> bool) \<Rightarrow> hub \<Rightarrow> bool" where
  "hub_reachable admitted h \<longleftrightarrow> (hub_step admitted)\<^sup>*\<^sup>* empty_hub h"

lemma hub_reachable_induct [consumes 1, case_names init step]:
  assumes "hub_reachable admitted h" and "P empty_hub"
    and "\<And>h h'. hub_reachable admitted h \<Longrightarrow> P h \<Longrightarrow> hub_step admitted h h' \<Longrightarrow> P h'"
  shows "P h"
  using assms(1) unfolding hub_reachable_def
  by (induction rule: rtranclp_induct) (use assms(2,3) in \<open>auto simp: hub_reachable_def\<close>)

lemma hub_reachable_step: "hub_reachable admitted h \<Longrightarrow> hub_step admitted h h' \<Longrightarrow> hub_reachable admitted h'"
  unfolding hub_reachable_def by (rule rtranclp.rtrancl_into_rtrancl)

section \<open>Rooms and their listeners\<close>

definition running :: "listener \<Rightarrow> bool" where
  "running l \<longleftrightarrow> \<not> l_cancelled l \<and> l_phase l \<noteq> Ended \<and> l_phase l \<noteq> Crashed"

text \<open>
  A room has a member, all its members came for its project, and its registered listener is
  there, not cancelled and not ended; without a room no listener is registered; and a listener
  that lives is the registered one of its project.
\<close>

definition room_ok :: "hub \<Rightarrow> uuid \<Rightarrow> bool" where
  "room_ok h pid \<longleftrightarrow>
     (case rooms h pid of
        None \<Rightarrow> listener_tasks h pid = None
      | Some room \<Rightarrow> room \<noteq> {} \<and> finite room \<and> (\<forall>ws \<in> room. peer h ws = Some pid) \<and>
          (\<exists>t l. listener_tasks h pid = Some t \<and> tasks h t = Some l \<and> l_project l = pid \<and> \<not> l_cancelled l \<and>
             l_phase l \<noteq> Ended))"

definition task_ok :: "hub \<Rightarrow> nat \<Rightarrow> bool" where
  "task_ok h t \<longleftrightarrow> (\<forall>l. tasks h t = Some l \<longrightarrow> t < next_task h \<and> (running l \<longrightarrow> listener_tasks h (l_project l) = Some t))"

definition rooms_inv :: "hub \<Rightarrow> bool" where
  "rooms_inv h \<longleftrightarrow> (\<forall>pid. room_ok h pid) \<and> (\<forall>t. task_ok h t)"

lemma empty_hub_rooms: "rooms_inv empty_hub"
  by (simp add: rooms_inv_def room_ok_def task_ok_def empty_hub_def)

lemma running_cancel [simp]: "\<not> running (cancel l)"
  by (simp add: running_def cancel_def)

lemma cancel_fields [simp]:
  "l_project (cancel l) = l_project l" "l_inbox (cancel l) = l_inbox l" "l_phase (cancel l) = l_phase l"
  by (simp_all add: cancel_def)

lemma rooms_inv_registered:
  "rooms_inv h \<Longrightarrow> tasks h t = Some l \<Longrightarrow> running l \<Longrightarrow> listener_tasks h (l_project l) = Some t \<and> rooms h (l_project l) \<noteq> None"
proof -
  assume h: "rooms_inv h" "tasks h t = Some l" "running l"
  then have "listener_tasks h (l_project l) = Some t" by (simp add: rooms_inv_def task_ok_def)
  moreover have "room_ok h (l_project l)" using h(1) by (simp add: rooms_inv_def)
  ultimately show ?thesis by (cases "rooms h (l_project l)") (auto simp: room_ok_def)
qed

definition attended :: "uuid \<Rightarrow> listener \<Rightarrow> bool" where
  "attended pid l \<longleftrightarrow> l_project l = pid \<and> \<not> l_cancelled l \<and> l_phase l \<noteq> Ended"

lemma room_ok_Some:
  "rooms h pid = Some room \<Longrightarrow> room_ok h pid \<longleftrightarrow> room \<noteq> {} \<and> finite room \<and> (\<forall>ws \<in> room. peer h ws = Some pid) \<and>
     (\<exists>t l. listener_tasks h pid = Some t \<and> tasks h t = Some l \<and> attended pid l)"
  by (simp add: room_ok_def attended_def)

lemma room_ok_None: "rooms h pid = None \<Longrightarrow> room_ok h pid \<longleftrightarrow> listener_tasks h pid = None"
  by (simp add: room_ok_def)

text \<open>A step that leaves the room, its registration and its listener in place.\<close>

lemma room_ok_frame:
  assumes "room_ok h pid" and "rooms h' pid = rooms h pid" and "listener_tasks h' pid = listener_tasks h pid"
    and "\<And>ws. peer h ws = Some pid \<Longrightarrow> peer h' ws = Some pid"
    and "\<And>t l. listener_tasks h pid = Some t \<Longrightarrow> tasks h t = Some l \<Longrightarrow> attended pid l \<Longrightarrow>
      \<exists>l'. tasks h' t = Some l' \<and> attended pid l'"
  shows "room_ok h' pid"
proof (cases "rooms h pid")
  case None
  then show ?thesis using assms(1-3) by (simp add: room_ok_None)
next
  case (Some room)
  then show ?thesis using assms by (simp add: room_ok_Some) blast
qed

lemma connect_new_room:
  "rooms h pid = None \<Longrightarrow> hub_connect pid ws h =
     h\<lparr>rooms := (rooms h)(pid \<mapsto> {ws}), tasks := (tasks h)(next_task h \<mapsto> new_listener pid),
       next_task := next_task h + 1, listener_tasks := (listener_tasks h)(pid \<mapsto> next_task h)\<rparr>"
  by (simp add: hub_connect_def create_task_of_def)

lemma connect_room:
  "rooms h pid = Some room \<Longrightarrow> hub_connect pid ws h = h\<lparr>rooms := (rooms h)(pid \<mapsto> insert ws room)\<rparr>"
  by (simp add: hub_connect_def)

lemma rooms_inv_connect:
  assumes "rooms_inv h" and "peer h ws = None"
  shows "rooms_inv ((hub_connect pid ws h)\<lparr>peer := (peer h)(ws \<mapsto> pid)\<rparr>)"
proof (cases "rooms h pid")
  case None
  let ?h = "(hub_connect pid ws h)\<lparr>peer := (peer h)(ws \<mapsto> pid)\<rparr>"
  have fresh: "tasks h (next_task h) = None"
    using assms(1) unfolding rooms_inv_def task_ok_def by (metis less_irrefl not_Some_eq)
  have "room_ok ?h p" for p
  proof (cases "p = pid")
    case True
    then show ?thesis by (simp add: connect_new_room [OF None] room_ok_Some attended_def new_listener_def)
  next
    case False
    have "room_ok h p" using assms(1) by (simp add: rooms_inv_def)
    then show ?thesis
      by (rule room_ok_frame) (use False fresh assms(2) in \<open>auto simp: connect_new_room [OF None]\<close>)
  qed
  moreover have "task_ok ?h t" for t
  proof -
    have "task_ok h t" and "room_ok h pid" using assms(1) by (simp_all add: rooms_inv_def)
    then show ?thesis
      using None by (auto simp: connect_new_room [OF None] task_ok_def room_ok_None new_listener_def)
  qed
  ultimately show ?thesis by (simp add: rooms_inv_def)
next
  case (Some room)
  let ?h = "(hub_connect pid ws h)\<lparr>peer := (peer h)(ws \<mapsto> pid)\<rparr>"
  have "room_ok ?h p" for p
  proof (cases "p = pid")
    case True
    moreover have "room_ok h pid" using assms(1) by (simp add: rooms_inv_def)
    ultimately show ?thesis using Some assms(2) by (simp add: connect_room room_ok_Some) 
  next
    case False
    have "room_ok h p" using assms(1) by (simp add: rooms_inv_def)
    then show ?thesis
      by (rule room_ok_frame) (use False assms(2) in \<open>auto simp: connect_room [OF Some]\<close>)
  qed
  moreover have "task_ok ?h t" for t
    using assms(1) by (simp add: rooms_inv_def connect_room [OF Some] task_ok_def)
  ultimately show ?thesis by (simp add: rooms_inv_def)
qed

lemma rooms_inv_disconnect:
  assumes "rooms_inv h"
  shows "rooms_inv (hub_disconnect pid ws h)"
proof (cases "rooms h pid")
  case None
  then show ?thesis using assms by (simp add: hub_disconnect_def)
next
  case (Some room)
  have ok: "room_ok h p" "task_ok h t" for p t using assms by (simp_all add: rooms_inv_def)
  show ?thesis
  proof (cases "room - {ws} = {}")
    case False
    have "room_ok (hub_disconnect pid ws h) p" for p
    proof (cases "p = pid")
      case True
      then show ?thesis using ok(1) [of pid] Some False by (simp add: hub_disconnect_def room_ok_Some)
    next
      case neq: False
      from ok(1) [of p] show ?thesis
        by (rule room_ok_frame) (use neq Some False in \<open>auto simp: hub_disconnect_def\<close>)
    qed
    moreover have "task_ok (hub_disconnect pid ws h) t" for t
      using ok(2) [of t] Some False by (simp add: hub_disconnect_def task_ok_def)
    ultimately show ?thesis by (simp add: rooms_inv_def)
  next
    case True
    obtain t l where t: "listener_tasks h pid = Some t" "tasks h t = Some l" "l_project l = pid"
      using ok(1) [of pid] Some by (auto simp: room_ok_Some attended_def)
    have eq: "hub_disconnect pid ws h = h\<lparr>rooms := (rooms h)(pid := None),
        tasks := (tasks h)(t \<mapsto> cancel l), listener_tasks := (listener_tasks h)(pid := None)\<rparr>"
      using Some True t by (simp add: hub_disconnect_def change_task_def)
    have "room_ok (hub_disconnect pid ws h) p" for p
    proof (cases "p = pid")
      case True
      then show ?thesis by (simp add: eq room_ok_None)
    next
      case neq: False
      from ok(1) [of p] show ?thesis
        by (rule room_ok_frame) (use neq t in \<open>auto simp: eq attended_def\<close>)
    qed
    moreover have "task_ok (hub_disconnect pid ws h) t'" for t'
      using ok(2) [of t'] t by (auto simp: eq task_ok_def)
    ultimately show ?thesis by (simp add: rooms_inv_def)
  qed
qed

lemma rooms_inv_fold: "rooms_inv h \<Longrightarrow> rooms_inv (fold (hub_disconnect pid) dead h)"
  by (induction dead arbitrary: h) (simp_all add: rooms_inv_disconnect)

text \<open>A change of one listener that keeps its project and keeps it in the room's service.\<close>

lemma rooms_inv_change:
  assumes "rooms_inv h"
    and "\<And>l. tasks h t = Some l \<Longrightarrow> l_project (f l) = l_project l \<and> (running (f l) \<longrightarrow> running l) \<and>
      (attended (l_project l) l \<longrightarrow> attended (l_project l) (f l) \<or> listener_tasks h (l_project l) \<noteq> Some t)"
  shows "rooms_inv (change_task t f h)"
proof -
  have ok: "room_ok h p" "task_ok h t" for p t using assms(1) by (simp_all add: rooms_inv_def)
  have "room_ok (change_task t f h) p" for p
    using ok(1) [of p]
    by (rule room_ok_frame) (use assms(2) in \<open>auto simp: change_task_def attended_def\<close>)
  moreover have "task_ok (change_task t f h) t'" for t'
    using ok(2) [of t'] assms(2) by (auto simp: change_task_def task_ok_def)
  ultimately show ?thesis by (simp add: rooms_inv_def)
qed

lemma rooms_inv_publish: "rooms_inv h \<Longrightarrow> rooms_inv (hub_publish pid payload h)"
  unfolding rooms_inv_def
proof (intro conjI allI; elim conjE)
  fix p
  assume "\<forall>pid. room_ok h pid"
  then have "room_ok h p" by blast
  then show "room_ok (hub_publish pid payload h) p"
    by (rule room_ok_frame) (auto simp: hub_publish_def attended_def)
next
  fix t
  assume "\<forall>t. task_ok h t"
  then have "task_ok h t" by blast
  then show "task_ok (hub_publish pid payload h) t"
    by (auto simp: hub_publish_def task_ok_def running_def split: if_splits)
qed

lemma rooms_inv_received [simp]: "rooms_inv (h\<lparr>received := r\<rparr>) \<longleftrightarrow> rooms_inv h"
  by (simp add: rooms_inv_def room_ok_def task_ok_def cong: option.case_cong)

text \<open>Disconnections change no listener but to cancel it.\<close>

lemma task_of_disconnect:
  "tasks (hub_disconnect pid ws h) t = Some l' \<Longrightarrow> \<exists>l. tasks h t = Some l \<and> (l' = l \<or> l' = cancel l)"
  by (auto simp: hub_disconnect_def change_task_def Let_def split: option.splits if_splits)

lemma task_of_fold:
  "tasks (fold (hub_disconnect pid) dead h) t = Some l' \<Longrightarrow>
     \<exists>l. tasks h t = Some l \<and> l_phase l' = l_phase l \<and> l_project l' = l_project l \<and> l_inbox l' = l_inbox l \<and>
       (l_cancelled l \<longrightarrow> l_cancelled l')"
proof (induction dead arbitrary: h)
  case (Cons ws dead)
  then obtain l where "tasks (hub_disconnect pid ws h) t = Some l" "l_phase l' = l_phase l" "l_project l' = l_project l"
    "l_inbox l' = l_inbox l" "l_cancelled l \<longrightarrow> l_cancelled l'"
    by auto
  with task_of_disconnect [of pid ws h t l] show ?case by (auto simp: cancel_def split: if_splits)
qed simp

lemma rooms_inv_step: "hub_step admitted h h' \<Longrightarrow> rooms_inv h \<Longrightarrow> rooms_inv h'"
proof (induction rule: hub_step.induct)
  case (loop_exit h t l)
  then have "running l" by (simp add: running_def)
  then show ?case using rooms_inv_registered [of h t l] loop_exit by simp
next
  case (stop h t l)
  then show ?case
    by (auto simp: set_phase_of_def running_def attended_def intro!: rooms_inv_change)
qed (auto simp: set_phase_of_def running_def attended_def dest!: task_of_fold
    intro!: rooms_inv_connect rooms_inv_disconnect rooms_inv_publish rooms_inv_change rooms_inv_fold)

lemma rooms_inv_reachable: "hub_reachable admitted h \<Longrightarrow> rooms_inv h"
  by (induction rule: hub_reachable_induct) (auto intro: empty_hub_rooms rooms_inv_step)

lemma running_unique:
  "rooms_inv h \<Longrightarrow> tasks h t = Some l \<Longrightarrow> running l \<Longrightarrow> tasks h t' = Some l' \<Longrightarrow> running l' \<Longrightarrow>
     l_project l = l_project l' \<Longrightarrow> t = t'"
  using rooms_inv_registered by (metis option.inject)

section \<open>What the sockets receive\<close>

definition of_project :: "hub \<Rightarrow> uuid \<Rightarrow> nat \<Rightarrow> bool" where
  "of_project h pid i \<longleftrightarrow> i < length (hub_log h) \<and> fst (hub_log h ! i) = pid"

definition sending_ok :: "hub \<Rightarrow> listener \<Rightarrow> nat \<Rightarrow> socket list \<Rightarrow> bool" where
  "sending_ok h l i todo \<longleftrightarrow> of_project h (l_project l) i \<and> (\<forall>j \<in> set (l_inbox l). i < j) \<and> distinct todo \<and>
     (\<forall>ws \<in> set todo. peer h ws = Some (l_project l)) \<and>
     (\<forall>ws. peer h ws = Some (l_project l) \<longrightarrow> (\<forall>k \<in> set (received h ws). k \<le> i \<and> (ws \<in> set todo \<longrightarrow> k < i)))"

definition task_delivery :: "hub \<Rightarrow> listener \<Rightarrow> bool" where
  "task_delivery h l \<longleftrightarrow> sorted_wrt (<) (l_inbox l) \<and> (\<forall>j \<in> set (l_inbox l). of_project h (l_project l) j) \<and>
     (running l \<longrightarrow>
        (\<forall>ws. peer h ws = Some (l_project l) \<longrightarrow> (\<forall>k \<in> set (received h ws). \<forall>j \<in> set (l_inbox l). k < j)) \<and>
        (\<forall>i todo dead. l_phase l = Sending i todo dead \<longrightarrow> sending_ok h l i todo))"

definition socket_ok :: "hub \<Rightarrow> socket \<Rightarrow> bool" where
  "socket_ok h ws \<longleftrightarrow> sorted_wrt (<) (received h ws) \<and>
     (\<forall>i \<in> set (received h ws). \<exists>pid. peer h ws = Some pid \<and> of_project h pid i)"

definition delivery_inv :: "hub \<Rightarrow> bool" where
  "delivery_inv h \<longleftrightarrow> (\<forall>t l. tasks h t = Some l \<longrightarrow> task_delivery h l) \<and> (\<forall>ws. socket_ok h ws)"

lemma empty_hub_delivery: "delivery_inv empty_hub"
  by (simp add: delivery_inv_def socket_ok_def empty_hub_def)

definition phase_follows :: "listener_phase \<Rightarrow> listener_phase \<Rightarrow> bool" where
  "phase_follows ph ph' \<longleftrightarrow> (\<forall>i todo dead. ph' = Sending i todo dead \<longrightarrow>
     (\<exists>todo0 dead0. ph = Sending i todo0 dead0 \<and> (todo0 = todo \<or> (\<exists>ws. todo0 = ws # todo))))"

lemma delivery_frame:
  assumes "delivery_inv h" and "hub_log h' = hub_log h" and "received h' = received h" and "peer h' = peer h"
    and "\<And>t l'. tasks h' t = Some l' \<Longrightarrow> \<exists>l. tasks h t = Some l \<and> l_project l' = l_project l \<and>
      l_inbox l' = l_inbox l \<and> (running l' \<longrightarrow> running l \<and> phase_follows (l_phase l) (l_phase l'))"
  shows "delivery_inv h'"
proof -
  have "task_delivery h' l'" if l': "tasks h' t = Some l'" for t l'
  proof -
    obtain l where l: "tasks h t = Some l" "l_project l' = l_project l" "l_inbox l' = l_inbox l"
      "running l' \<Longrightarrow> running l \<and> phase_follows (l_phase l) (l_phase l')"
      using assms(5) [OF l'] by blast
    have "task_delivery h l" using assms(1) l(1) by (simp add: delivery_inv_def)
    moreover have "sending_ok h' l' i todo" if lv: "running l'" and ph: "l_phase l' = Sending i todo dead" for i todo dead
    proof -
      obtain todo0 dead0 where "l_phase l = Sending i todo0 dead0" "todo0 = todo \<or> (\<exists>ws. todo0 = ws # todo)" "running l"
        using l(4) [OF lv] ph unfolding phase_follows_def by blast
      with \<open>task_delivery h l\<close> show ?thesis
        using assms(2-4) l(2,3) by (auto simp: task_delivery_def sending_ok_def of_project_def)
    qed
    ultimately show ?thesis
      using assms(2-4) l by (auto simp: task_delivery_def of_project_def)
  qed
  moreover have "socket_ok h' ws" for ws
    using assms(1-4) by (auto simp: delivery_inv_def socket_ok_def of_project_def)
  ultimately show ?thesis by (simp add: delivery_inv_def)
qed

lemma delivery_change:
  assumes "delivery_inv h"
    and "\<And>l. tasks h t = Some l \<Longrightarrow> l_project (f l) = l_project l \<and> l_inbox (f l) = l_inbox l \<and>
      (running (f l) \<longrightarrow> running l \<and> phase_follows (l_phase l) (l_phase (f l)))"
  shows "delivery_inv (change_task t f h)"
  by (rule delivery_frame [OF assms(1)])
    (use assms(2) in \<open>auto simp: change_task_def phase_follows_def split: if_splits\<close>)

lemma delivery_disconnect: "delivery_inv h \<Longrightarrow> delivery_inv (hub_disconnect pid ws h)"
  by (erule delivery_frame)
    (auto simp: hub_disconnect_def change_task_def Let_def phase_follows_def split: option.splits if_splits)

lemma delivery_fold: "delivery_inv h \<Longrightarrow> delivery_inv (fold (hub_disconnect pid) dead h)"
  by (induction dead arbitrary: h) (simp_all add: delivery_disconnect)

lemma received_no_peer: "delivery_inv h \<Longrightarrow> peer h ws = None \<Longrightarrow> received h ws = []"
proof -
  assume "delivery_inv h" "peer h ws = None"
  then have "\<forall>i \<in> set (received h ws). False" by (fastforce simp: delivery_inv_def socket_ok_def)
  then show ?thesis by simp
qed

lemma delivery_connect:
  assumes "delivery_inv h" and "peer h ws = None"
  shows "delivery_inv ((hub_connect pid ws h)\<lparr>peer := (peer h)(ws \<mapsto> pid)\<rparr>)"
proof -
  let ?h = "(hub_connect pid ws h)\<lparr>peer := (peer h)(ws \<mapsto> pid)\<rparr>"
  have same: "hub_log ?h = hub_log h" "received ?h = received h" "peer ?h = (peer h)(ws \<mapsto> pid)"
    by (simp_all add: hub_connect_def create_task_of_def Let_def split: option.splits)
  note none = received_no_peer [OF assms]
  have "task_delivery ?h l" if l: "tasks ?h t = Some l" for t l
  proof (cases "tasks h t = Some l")
    case True
    then have "task_delivery h l" using assms(1) by (simp add: delivery_inv_def)
    then show ?thesis
      unfolding task_delivery_def sending_ok_def of_project_def same using none assms(2) by auto
  next
    case False
    with l have "l = new_listener pid"
      by (auto simp: hub_connect_def create_task_of_def Let_def split: option.splits if_splits)
    then show ?thesis by (simp add: task_delivery_def new_listener_def)
  qed
  moreover have "socket_ok ?h v" for v
    using assms none unfolding delivery_inv_def socket_ok_def of_project_def same by auto
  ultimately show ?thesis by (simp add: delivery_inv_def)
qed

lemma delivery_publish:
  assumes "delivery_inv h"
  shows "delivery_inv (hub_publish pid payload h)"
proof -
  let ?h = "hub_publish pid payload h"
  have same: "received ?h = received h" "peer ?h = peer h" "hub_log ?h = hub_log h @ [(pid, payload)]"
    by (simp_all add: hub_publish_def)
  have mono: "of_project h p i \<Longrightarrow> of_project ?h p i" for p i
    by (auto simp: of_project_def same nth_append)
  have bound: "k < length (hub_log h)" if "k \<in> set (received h ws)" for k ws
    using assms that by (auto simp: delivery_inv_def socket_ok_def of_project_def)
  have "task_delivery ?h l'" if l': "tasks ?h t = Some l'" for t l'
  proof -
    obtain l where l: "tasks h t = Some l"
      "l' = (if subscribed l \<and> channel_name (l_project l) = channel_name pid then l\<lparr>l_inbox := l_inbox l @ [length (hub_log h)]\<rparr> else l)"
      using l' by (auto simp: hub_publish_def)
    then have d: "task_delivery h l" using assms by (simp add: delivery_inv_def)
    have new: "of_project ?h pid (length (hub_log h))" by (simp add: of_project_def same)
    show ?thesis
    proof (cases "subscribed l \<and> channel_name (l_project l) = channel_name pid")
      case True
      then have l'_eq: "l' = l\<lparr>l_inbox := l_inbox l @ [length (hub_log h)]\<rparr>" "l_project l = pid"
        using l(2) by (simp_all add: channel_name_inject)
      have "running l' = running l" by (simp add: l'_eq running_def)
      with d new show ?thesis
        unfolding task_delivery_def sending_ok_def l'_eq same(1,2)
        by (auto simp: sorted_wrt_append l'_eq(2) intro: mono bound, auto simp: of_project_def)
    next
      case False
      then have "l' = l" using l(2) by simp
      with d show ?thesis
        unfolding task_delivery_def sending_ok_def same(1,2) by (auto intro: mono)
    qed
  qed
  moreover have "socket_ok ?h v" for v
    using assms mono unfolding delivery_inv_def socket_ok_def same(1,2) by blast
  ultimately show ?thesis by (simp add: delivery_inv_def)
qed

text \<open>The two steps that take a publication from the inbox.\<close>

lemma delivery_take:
  assumes "delivery_inv h" and t: "tasks h t = Some l" "running l" and inbox: "l_inbox l = i # rest"
    and f: "f l = l\<lparr>l_inbox := rest, l_phase := ph\<rparr>"
    and ph: "\<And>j todo dead. ph = Sending j todo dead \<Longrightarrow> j = i \<and> distinct todo \<and> (\<forall>ws \<in> set todo. peer h ws = Some (l_project l))"
  shows "delivery_inv (change_task t f h)"
proof -
  let ?h = "change_task t f h"
  have same: "hub_log ?h = hub_log h" "received ?h = received h" "peer ?h = peer h" by (simp_all add: change_task_def)
  have d: "task_delivery h l" using assms(1) t by (simp add: delivery_inv_def)
  have "task_delivery ?h l'" if l': "tasks ?h u = Some l'" for u l'
  proof (cases "u = t")
    case True
    then have l'_eq: "l' = l\<lparr>l_inbox := rest, l_phase := ph\<rparr>" using l' t f by (simp add: change_task_def)
    from d t(2) inbox ph show ?thesis
      unfolding task_delivery_def sending_ok_def of_project_def same l'_eq by (auto simp: less_imp_le)
  next
    case False
    then have "task_delivery h l'" using l' assms(1) by (simp add: change_task_def delivery_inv_def)
    then show ?thesis unfolding task_delivery_def sending_ok_def of_project_def same .
  qed
  moreover have "socket_ok ?h v" for v
    using assms(1) unfolding delivery_inv_def socket_ok_def of_project_def same by blast
  ultimately show ?thesis by (simp add: delivery_inv_def)
qed

lemma delivery_send:
  assumes "delivery_inv h" and "rooms_inv h" and t: "tasks h t = Some l" "running l" "l_phase l = Sending i (ws # todo) dead"
  shows "delivery_inv (set_phase_of t (Sending i todo dead) (h\<lparr>received := (received h)(ws := received h ws @ [i])\<rparr>))"
proof -
  let ?h = "set_phase_of t (Sending i todo dead) (h\<lparr>received := (received h)(ws := received h ws @ [i])\<rparr>)"
  have same: "hub_log ?h = hub_log h" "received ?h = (received h)(ws := received h ws @ [i])" "peer ?h = peer h"
    "tasks ?h = (tasks h)(t \<mapsto> l\<lparr>l_phase := Sending i todo dead\<rparr>)"
    using t(1) by (simp_all add: set_phase_of_def change_task_def)
  have d: "task_delivery h l" using assms(1) t(1) by (simp add: delivery_inv_def)
  then have s: "sending_ok h l i (ws # todo)" using t(2,3) by (simp add: task_delivery_def)
  then have ws: "peer h ws = Some (l_project l)" "\<forall>k \<in> set (received h ws). k < i" "of_project h (l_project l) i"
    "ws \<notin> set todo"
    by (auto simp: sending_ok_def)
  have "task_delivery ?h l'" if l': "tasks ?h u = Some l'" for u l'
  proof (cases "u = t")
    case True
    then have l'_eq: "l' = l\<lparr>l_phase := Sending i todo dead\<rparr>" using l' by (simp add: same)
    from d s t(2) ws(4) show ?thesis
      unfolding task_delivery_def sending_ok_def of_project_def same(1-3) l'_eq by (auto split: if_splits)
  next
    case False
    then have l'_eq: "tasks h u = Some l'" using l' by (simp add: same)
    then have "task_delivery h l'" using assms(1) by (simp add: delivery_inv_def)
    moreover have "l_project l' \<noteq> l_project l" if "running l'"
      using running_unique [OF assms(2) l'_eq that t(1,2)] False by blast
    ultimately show ?thesis
      using ws(1) unfolding task_delivery_def sending_ok_def of_project_def same(1-3) by auto
  qed
  moreover have "socket_ok ?h v" for v
    using assms(1) ws unfolding delivery_inv_def socket_ok_def of_project_def same(1-3)
    by (auto simp: sorted_wrt_append)
  ultimately show ?thesis by (simp add: delivery_inv_def)
qed

lemma room_members: "rooms_inv h \<Longrightarrow> snapshot pid h todo \<Longrightarrow> distinct todo \<and> (\<forall>ws \<in> set todo. peer h ws = Some pid)"
  unfolding rooms_inv_def snapshot_def room_ok_def by (auto split: option.splits dest: spec [of _ pid])

lemma delivery_step: "hub_step admitted h h' \<Longrightarrow> rooms_inv h \<Longrightarrow> delivery_inv h \<Longrightarrow> delivery_inv h'"
proof (induction rule: hub_step.induct)
  case (message h t l i rest todo)
  then show ?case
    by (intro delivery_take [of h t l i rest]) (auto simp: running_def dest: room_members)
next
  case (empty_message h t l i rest)
  then show ?case
    by (intro delivery_take [of h t l i rest]) (auto simp: running_def)
next
  case (send h t l i ws todo dead)
  then show ?case by (intro delivery_send) (auto simp: running_def)
qed (auto simp: set_phase_of_def running_def phase_follows_def dest!: task_of_fold
    intro!: delivery_connect delivery_disconnect delivery_publish delivery_change delivery_fold)

lemma delivery_reachable: "hub_reachable admitted h \<Longrightarrow> delivery_inv h"
  by (induction rule: hub_reachable_induct) (auto intro: empty_hub_delivery delivery_step rooms_inv_reachable)

text \<open>Only an admitted socket ever has a peer project, and it keeps it.\<close>

lemma peer_fields [simp]:
  "peer (hub_disconnect pid ws h) = peer h" "peer (hub_publish pid payload h) = peer h"
  "peer (change_task t f h) = peer h" "received (change_task t f h) = received h"
  "received (hub_disconnect pid ws h) = received h" "received (hub_publish pid payload h) = received h"
  "received (hub_connect pid ws h) = received h"
  by (simp_all add: hub_disconnect_def hub_publish_def change_task_def hub_connect_def create_task_of_def Let_def
      split: option.splits)

lemma fold_fields [simp]:
  "peer (fold (hub_disconnect pid) dead h) = peer h" "received (fold (hub_disconnect pid) dead h) = received h"
  by (induction dead arbitrary: h) simp_all

lemma peer_step: "hub_step admitted h h' \<Longrightarrow> peer h' ws = Some pid \<Longrightarrow> peer h ws = Some pid \<or> admitted ws pid"
  by (induction rule: hub_step.induct) (auto simp: set_phase_of_def split: if_splits)

lemma peer_admitted: "hub_reachable admitted h \<Longrightarrow> peer h ws = Some pid \<Longrightarrow> admitted ws pid"
  by (induction rule: hub_reachable_induct) (auto simp: empty_hub_def dest: peer_step)

section \<open>A dead listener\<close>

text \<open>
  Runs in which the room of \<open>pid\<close> never empties. Once its listener has died of an exception, the
  room keeps the dead listener and none of its members receives anything any more.
\<close>

definition occupied_run :: "(socket \<Rightarrow> uuid \<Rightarrow> bool) \<Rightarrow> uuid \<Rightarrow> hub \<Rightarrow> hub \<Rightarrow> bool" where
  "occupied_run admitted pid = (\<lambda>h h'. hub_step admitted h h' \<and> rooms h' pid \<noteq> None)\<^sup>*\<^sup>*"

definition listener_dead :: "hub \<Rightarrow> uuid \<Rightarrow> bool" where
  "listener_dead h pid \<longleftrightarrow> (\<exists>t l. listener_tasks h pid = Some t \<and> tasks h t = Some l \<and> l_project l = pid \<and> l_phase l = Crashed)"

lemma dead_disconnect:
  "listener_dead h pid \<Longrightarrow> rooms (hub_disconnect p ws h) pid \<noteq> None \<Longrightarrow> listener_dead (hub_disconnect p ws h) pid"
  by (auto simp: listener_dead_def hub_disconnect_def change_task_def Let_def split: option.splits if_splits)

lemma rooms_fold_None: "rooms h pid = None \<Longrightarrow> rooms (fold (hub_disconnect p) dead h) pid = None"
proof (induction dead arbitrary: h)
  case (Cons ws dead)
  then have "rooms (hub_disconnect p ws h) pid = None"
    by (auto simp: hub_disconnect_def change_task_def Let_def split: option.splits)
  then show ?case using Cons.IH by simp
qed simp

lemma dead_fold:
  "listener_dead h pid \<Longrightarrow> rooms (fold (hub_disconnect p) dead h) pid \<noteq> None \<Longrightarrow>
     listener_dead (fold (hub_disconnect p) dead h) pid"
proof (induction dead arbitrary: h)
  case (Cons ws dead)
  then have "rooms (hub_disconnect p ws h) pid \<noteq> None"
    using rooms_fold_None [of "hub_disconnect p ws h" pid p dead] by force
  then show ?case using Cons dead_disconnect by simp
qed simp

lemma dead_change:
  "listener_dead h pid \<Longrightarrow> (\<And>l. tasks h t = Some l \<Longrightarrow> l_phase l \<noteq> Crashed) \<Longrightarrow> listener_dead (change_task t f h) pid"
  unfolding listener_dead_def change_task_def by fastforce

lemma dead_connect:
  "listener_dead h pid \<Longrightarrow> rooms_inv h \<Longrightarrow> listener_dead ((hub_connect p ws h)\<lparr>peer := q\<rparr>) pid"
proof -
  assume d: "listener_dead h pid" and inv: "rooms_inv h"
  then obtain t l where t: "listener_tasks h pid = Some t" "tasks h t = Some l" "l_project l = pid" "l_phase l = Crashed"
    by (auto simp: listener_dead_def)
  have "room_ok h pid" "task_ok h t" using inv by (simp_all add: rooms_inv_def)
  then have "rooms h pid \<noteq> None" "t \<noteq> next_task h"
    using t room_ok_None [of h pid] by (force, simp add: task_ok_def)
  then show ?thesis
    using t by (cases "rooms h p") (auto simp: listener_dead_def connect_new_room connect_room)
qed

lemma dead_publish: "listener_dead h pid \<Longrightarrow> listener_dead (hub_publish p payload h) pid"
proof -
  assume "listener_dead h pid"
  then obtain t l where t: "listener_tasks h pid = Some t" "tasks h t = Some l" "l_project l = pid" "l_phase l = Crashed"
    by (auto simp: listener_dead_def)
  then have "tasks (hub_publish p payload h) t = Some l" by (simp add: hub_publish_def subscribed_def)
  with t show ?thesis by (simp add: listener_dead_def hub_publish_def)
qed

lemma dead_not_running: "rooms_inv h \<Longrightarrow> listener_dead h pid \<Longrightarrow> tasks h t = Some l \<Longrightarrow> running l \<Longrightarrow> l_project l \<noteq> pid"
  using rooms_inv_registered [of h t l] by (auto simp: listener_dead_def running_def)

lemma dead_step:
  assumes "hub_step admitted h h'" and "rooms_inv h" and "listener_dead h pid" and "rooms h' pid \<noteq> None"
  shows "listener_dead h' pid"
  using assms
proof (induction rule: hub_step.induct)
  case (reap h t l i dead)
  let ?h = "fold (hub_disconnect (l_project l)) dead h"
  have "listener_dead ?h pid"
    using reap.prems by (intro dead_fold) (simp_all add: set_phase_of_def change_task_def)
  then show ?case
    unfolding set_phase_of_def
    by (rule dead_change) (use reap.hyps in \<open>auto dest!: task_of_fold\<close>)
next
  case (send h t l i ws todo dead)
  then show ?case
    unfolding set_phase_of_def by (intro dead_change) (auto simp: listener_dead_def)
qed (auto simp: set_phase_of_def intro!: dead_connect dead_disconnect dead_publish dead_change)

lemma dead_receives:
  assumes "hub_step admitted h h'" and "rooms_inv h" and "delivery_inv h" and "listener_dead h pid" and "peer h ws = Some pid"
  shows "received h' ws = received h ws"
  using assms
proof (induction rule: hub_step.induct)
  case (send h t l i v todo dead)
  then have "running l" by (simp add: running_def)
  moreover have "task_delivery h l" using send by (simp add: delivery_inv_def)
  ultimately have "peer h v = Some (l_project l)" using send by (simp add: task_delivery_def sending_ok_def)
  moreover have "l_project l \<noteq> pid" using dead_not_running [OF send.prems(1,3) send.hyps(1) \<open>running l\<close>] .
  ultimately show ?case using send by (auto simp: set_phase_of_def)
qed (auto simp: set_phase_of_def)

lemma peer_kept: "hub_step admitted h h' \<Longrightarrow> peer h ws = Some pid \<Longrightarrow> peer h' ws = Some pid"
  by (induction rule: hub_step.induct) (auto simp: set_phase_of_def)

lemma dead_run:
  assumes "occupied_run admitted pid h h'" and "hub_reachable admitted h" and "listener_dead h pid"
  shows "hub_reachable admitted h' \<and> listener_dead h' pid \<and>
    (\<forall>ws. peer h ws = Some pid \<longrightarrow> peer h' ws = Some pid \<and> received h' ws = received h ws)"
  using assms(1) unfolding occupied_run_def
proof (induction rule: rtranclp_induct)
  case base
  then show ?case using assms(2,3) by simp
next
  case (step h1 h2)
  then have r: "hub_reachable admitted h1" and "hub_step admitted h1 h2" by auto
  note inv = rooms_inv_reachable [OF r] delivery_reachable [OF r]
  show ?case
    using step hub_reachable_step [OF r] dead_step [OF _ inv(1), of admitted h2 pid] dead_receives [OF _ inv, of admitted h2 pid]
      peer_kept [of admitted h1 h2 _ pid] by simp
qed

section \<open>A round of a listener\<close>

text \<open>A listener that is let run serves its whole snapshot, when no send fails.\<close>

lemma sends_run:
  assumes "tasks h t = Some l" and "\<not> l_cancelled l" and "l_phase l = Sending i todo dead" and "distinct todo"
  shows "\<exists>h'. (hub_step admitted)\<^sup>*\<^sup>* h h' \<and> tasks h' t = Some (l\<lparr>l_phase := Sending i [] dead\<rparr>) \<and>
    rooms h' = rooms h \<and> (\<forall>ws. received h' ws = received h ws @ (if ws \<in> set todo then [i] else []))"
  using assms
proof (induction todo arbitrary: h l)
  case Nil
  then have "l = l\<lparr>l_phase := Sending i [] dead\<rparr>" by simp
  with Nil show ?case by (intro exI [of _ h]) simp
next
  case (Cons w todo)
  let ?h = "set_phase_of t (Sending i todo dead) (h\<lparr>received := (received h)(w := received h w @ [i])\<rparr>)"
  have step: "hub_step admitted h ?h" using Cons.prems by (intro hub_step.send)
  have t: "tasks ?h t = Some (l\<lparr>l_phase := Sending i todo dead\<rparr>)"
    using Cons.prems by (simp add: set_phase_of_def change_task_def)
  obtain h' where h': "(hub_step admitted)\<^sup>*\<^sup>* ?h h'" "tasks h' t = Some (l\<lparr>l_phase := Sending i [] dead\<rparr>)"
    "rooms h' = rooms ?h" "\<forall>ws. received h' ws = received ?h ws @ (if ws \<in> set todo then [i] else [])"
    using Cons.IH [OF t] Cons.prems by auto
  have "(hub_step admitted)\<^sup>*\<^sup>* h h'" using step h'(1) by (rule converse_rtranclp_into_rtranclp)
  with h' Cons.prems(4) show ?case
    by (intro exI [of _ h']) (auto simp: set_phase_of_def change_task_def)
qed

lemma round_run:
  assumes "rooms_inv h" and "rooms h pid = Some room" and "listener_tasks h pid = Some t" and "tasks h t = Some l"
    and "l_phase l = Waiting" and "l_inbox l = i # rest" and "snd (hub_log h ! i) \<noteq> []"
  shows "\<exists>h'. (hub_step admitted)\<^sup>*\<^sup>* h h' \<and> tasks h' t = Some (l\<lparr>l_inbox := rest, l_phase := Looping\<rparr>) \<and>
    rooms h' = rooms h \<and> (\<forall>ws. received h' ws = received h ws @ (if ws \<in> room then [i] else []))"
proof -
  have "room_ok h pid" using assms(1) by (simp add: rooms_inv_def)
  then have r: "finite room" "l_project l = pid" "\<not> l_cancelled l" using assms(2-4) by (auto simp: room_ok_def)
  obtain todo where todo: "set todo = room" "distinct todo" using finite_distinct_list [OF r(1)] by blast
  let ?h1 = "change_task t (\<lambda>l. l\<lparr>l_inbox := rest, l_phase := Sending i todo []\<rparr>) h"
  let ?l1 = "l\<lparr>l_inbox := rest, l_phase := Sending i todo []\<rparr>"
  have s1: "hub_step admitted h ?h1"
    using assms r todo by (intro hub_step.message) (auto simp: snapshot_def)
  have t1: "tasks ?h1 t = Some ?l1" using assms(4) by (simp add: change_task_def)
  obtain h2 where h2: "(hub_step admitted)\<^sup>*\<^sup>* ?h1 h2" "tasks h2 t = Some (?l1\<lparr>l_phase := Sending i [] []\<rparr>)"
    "rooms h2 = rooms ?h1" "\<forall>ws. received h2 ws = received ?h1 ws @ (if ws \<in> set todo then [i] else [])"
    using sends_run [OF t1, of i todo "[]" admitted] r todo by auto
  let ?h3 = "set_phase_of t Looping h2"
  have "hub_step admitted h2 ?h3"
    using hub_step.reap [OF h2(2), of i "[]" admitted] r by simp
  then have "(hub_step admitted)\<^sup>*\<^sup>* h ?h3"
    using s1 h2(1) by (meson converse_rtranclp_into_rtranclp rtranclp.rtrancl_into_rtrancl)
  moreover have "tasks ?h3 t = Some (l\<lparr>l_inbox := rest, l_phase := Looping\<rparr>)" "rooms ?h3 = rooms h"
    using h2(2,3) by (simp_all add: set_phase_of_def change_task_def)
  ultimately show ?thesis
    using h2(4) todo(1) by (intro exI [of _ ?h3]) (simp add: set_phase_of_def)
qed

end
