(* ===== verification/Realtime.thy ===== *)
theory Realtime
  imports AuthService Hub
begin

text \<open>
  The WebSocket endpoint (\<open>app/api/v1/endpoints/ws.py\<close>): who is let into the room of a project.
  A refusal closes the socket with the policy code, whatever the reason.
\<close>

text \<open>The \<open>try\<close> block: any exception of it is a refusal too.\<close>

definition stream_subject :: "claims option \<Rightarrow> uuid option" where
  "stream_subject decoded =
     (case decoded of
        None \<Rightarrow> None
      | Some payload \<Rightarrow>
          if map_of payload ''type'' \<noteq> Some (CStr ''access'') then None
          else (case claim_at payload ''sub'' of
                  Inl _ \<Rightarrow> None
                | Inr c \<Rightarrow> (case uuid_of_claim c of Inl _ \<Rightarrow> None | Inr user_id \<Rightarrow> Some user_id)))"

text \<open>The session of the second step, opened for it and closed after it.\<close>

definition stream_session :: "uuid \<Rightarrow> uuid \<Rightarrow> ('z, bool) tx" where
  "stream_session project_id user_id =
     with_db_session
       (bindE (base_get_by_id Project project_id) (\<lambda>found.
        case found of
          None \<Rightarrow> returnE False
        | Some project \<Rightarrow>
            bindE (get_membership (p_organization_id project) user_id) (\<lambda>membership.
            returnE (membership \<noteq> None))))"

text \<open>Whether \<open>project_realtime_stream\<close> goes on to \<open>ws_hub.connect\<close>.\<close>

definition stream_admits :: "jwt_api \<Rightarrow> uuid \<Rightarrow> pystr \<Rightarrow> ('r, 'z, bool) app" where
  "stream_admits J project_id token =
     bindE (decode_jwt_token J token) (\<lambda>decoded.
     case stream_subject decoded of
       None \<Rightarrow> returnE False
     | Some user_id \<Rightarrow> stream_session project_id user_id)"

lemma stream_session_eq:
  assumes "db_wf (committed s)"
  shows "stream_session pid u s =
    (Inr (\<exists>p \<in> set (tbl_projects (committed s)). p_id p = pid \<and>
       (\<exists>m \<in> set (tbl_organization_members (committed s)). m_organization_id m = p_organization_id p \<and> m_user_id m = u)),
     rollback s)"
proof -
  have project: "find (\<lambda>r. p_id r = pid) (tbl_projects (committed s)) = Some p \<longleftrightarrow>
      p \<in> set (tbl_projects (committed s)) \<and> p_id p = pid" for p
    using projects_tbl.base_get_by_id_Some [of "s\<lparr>work := committed s\<rparr>" pid p] assms
    by (simp add: base_get_by_id_def getsE_def)
  have member: "membership org u (committed s) \<noteq> None \<longleftrightarrow>
      (\<exists>m \<in> set (tbl_organization_members (committed s)). m_organization_id m = org \<and> m_user_id m = u)" for org
    using membership_iff [OF assms, of org u] by auto
  show ?thesis
  proof (cases "find (\<lambda>r. p_id r = pid) (tbl_projects (committed s))")
    case None
    then have "\<not> (\<exists>p \<in> set (tbl_projects (committed s)). p_id p = pid)" by (auto simp: find_None_iff)
    with None show ?thesis
      by (auto simp: stream_session_def with_db_session_def bindE_def base_get_by_id_def getsE_def returnE_def rollback_def)
  next
    case (Some p)
    then have p: "p \<in> set (tbl_projects (committed s))" "p_id p = pid" using project by auto
    have "p' = p" if "p' \<in> set (tbl_projects (committed s))" "p_id p' = pid" for p'
      using distinct_key_unique [OF projects_tbl.pk_distinct [OF assms], of p' p] that p by simp
    then have "(\<exists>p \<in> set (tbl_projects (committed s)). p_id p = pid \<and>
        (\<exists>m \<in> set (tbl_organization_members (committed s)). m_organization_id m = p_organization_id p \<and> m_user_id m = u)) \<longleftrightarrow>
        membership (p_organization_id p) u (committed s) \<noteq> None"
      unfolding member using p by blast
    with Some show ?thesis
      by (simp add: stream_session_def with_db_session_def bindE_def base_get_by_id_def getsE_def get_membership_eq assms
          returnE_def rollback_def)
  qed
qed

lemma stream_admits_issued:
  assumes "jwt_laws J" and "i \<le> clock s 0" and "db_wf (committed s)" and "work s = committed s"
  shows "fst (stream_admits J pid (issued J u jti ty e i) s) =
    Inr (clock s 0 < expiry_second e \<and> ty = ''access'' \<and>
      (\<exists>p \<in> set (tbl_projects (committed s)). p_id p = pid \<and>
        (\<exists>m \<in> set (tbl_organization_members (committed s)). m_organization_id m = p_organization_id p \<and> m_user_id m = u)))"
  using assms
  by (auto simp: stream_admits_def decode_jwt_token_def app_defs exec_simps stream_subject_def decode_issued claim_at_def
      uuid_text_roundtrip stream_session_eq split: option.splits)

end
