(* ===== verification/Occ.thy ===== *)
theory Occ
  imports TaskService ProjectService
begin

text \<open>
  Concurrent updates. Each client is one transaction on the shared database under READ
  COMMITTED: a SELECT sees the last committed rows, an UPDATE waits for the row's lock, takes it
  when its WHERE matches the committed row, and holds it until COMMIT or ROLLBACK.
  \<open>occ_step\<close> interleaves the statements of \<open>TaskService.update_task_status_occ\<close>, whose UPDATE
  carries the version in its WHERE; \<open>rcw_step\<close> interleaves those of
  \<open>ProjectService.update_project\<close>, which compares the version it read and then writes.
\<close>

section \<open>Status updates of tasks\<close>

record occ_request =
  oc_org :: uuid
  oc_task :: uuid
  oc_actor :: uuid
  oc_status :: task_status
  oc_expected :: int
  oc_now :: instant
  oc_audit :: audit_stamp

text \<open>Where a client is: before its SELECT, before its UPDATE, before its COMMIT, or finished.\<close>

datatype occ_phase =
    Absent
  | Start
  | Checked json
  | Updated json task
  | Done task
  | Failed exn

record world =
  w_db :: database
  w_lock :: "uuid \<Rightarrow> nat option"
  w_phase :: "nat \<Rightarrow> occ_phase"

abbreviation set_phase :: "nat \<Rightarrow> occ_phase \<Rightarrow> world \<Rightarrow> world" where
  "set_phase i ph w \<equiv> w\<lparr>w_phase := (w_phase w)(i := ph)\<rparr>"

abbreviation set_lock :: "uuid \<Rightarrow> nat option \<Rightarrow> world \<Rightarrow> world" where
  "set_lock tid l w \<equiv> w\<lparr>w_lock := (w_lock w)(tid := l)\<rparr>"

text \<open>The row an UPDATE of the request writes, and the database its COMMIT leaves.\<close>

definition occ_row :: "occ_request \<Rightarrow> task \<Rightarrow> task" where
  "occ_row q t = touch Task (oc_now q) (occ_values (oc_status q) (oc_expected q) t)"

definition occ_commit :: "occ_request \<Rightarrow> json \<Rightarrow> task \<Rightarrow> database \<Rightarrow> database" where
  "occ_commit q before_state t' d =
     d\<lparr>tbl_tasks := map (\<lambda>t. if t_id t = t_id t' then t' else t) (tbl_tasks d),
       tbl_audit_logs := tbl_audit_logs d @
         [new_audit (oc_audit q) (oc_org q) (Some (oc_actor q)) ''Task'' (t_id t') AUDIT_UPDATE
            (Some before_state) (Some (occ_state t'))]\<rparr>"

inductive occ_step :: "(nat \<Rightarrow> occ_request) \<Rightarrow> world \<Rightarrow> world \<Rightarrow> bool" for q where
  read_none: "w_phase w i = Start \<Longrightarrow> visible_task (oc_org (q i)) (oc_task (q i)) (w_db w) = None \<Longrightarrow>
    occ_step q w (set_phase i (Failed (EntityNotFoundException ''Task'' (uuid_str (oc_task (q i))))) w)"
| read_some: "w_phase w i = Start \<Longrightarrow> visible_task (oc_org (q i)) (oc_task (q i)) (w_db w) = Some t \<Longrightarrow>
    occ_step q w (set_phase i (Checked (occ_state t)) w)"
| update_hit: "w_phase w i = Checked b \<Longrightarrow> w_lock w (oc_task (q i)) = None \<Longrightarrow>
    filter (occ_match (oc_org (q i)) (oc_task (q i)) (oc_expected (q i))) (tbl_tasks (w_db w)) = [t] \<Longrightarrow>
    fits_int4 (oc_expected (q i) + 1) \<Longrightarrow>
    occ_step q w (set_phase i (Updated b (occ_row (q i) t)) (set_lock (oc_task (q i)) (Some i) w))"
| update_overflow: "w_phase w i = Checked b \<Longrightarrow> w_lock w (oc_task (q i)) = None \<Longrightarrow>
    filter (occ_match (oc_org (q i)) (oc_task (q i)) (oc_expected (q i))) (tbl_tasks (w_db w)) = [t] \<Longrightarrow>
    \<not> fits_int4 (oc_expected (q i) + 1) \<Longrightarrow>
    occ_step q w (set_phase i (Failed DataError) w)"
| update_miss: "w_phase w i = Checked b \<Longrightarrow> w_lock w (oc_task (q i)) = None \<Longrightarrow>
    filter (occ_match (oc_org (q i)) (oc_task (q i)) (oc_expected (q i))) (tbl_tasks (w_db w)) = [] \<Longrightarrow>
    occ_step q w (set_phase i (Failed (occ_conflict (oc_task (q i)) (oc_expected (q i)))) w)"
| commit: "w_phase w i = Updated b t' \<Longrightarrow>
    occ_step q w (set_phase i (Done t') (set_lock (t_id t') None (w\<lparr>w_db := occ_commit (q i) b t' (w_db w)\<rparr>)))"
| abort: "w_phase w i = Updated b t' \<Longrightarrow>
    occ_step q w (set_phase i (Failed DatabaseError) (set_lock (t_id t') None w))"

inductive_cases occ_stepE: "occ_step q w w'"

text \<open>\<open>n\<close> clients about to start on a committed database.\<close>

definition occ_init :: "nat \<Rightarrow> database \<Rightarrow> world" where
  "occ_init n d = \<lparr>w_db = d, w_lock = (\<lambda>_. None), w_phase = (\<lambda>i. if i < n then Start else Absent)\<rparr>"

definition occ_reachable :: "(nat \<Rightarrow> occ_request) \<Rightarrow> nat \<Rightarrow> database \<Rightarrow> world \<Rightarrow> bool" where
  "occ_reachable q n d w \<longleftrightarrow> (occ_step q)\<^sup>*\<^sup>* (occ_init n d) w"

lemma occ_reachable_induct [consumes 1, case_names init step]:
  assumes "occ_reachable q n d w" and "P (occ_init n d)"
    and "\<And>w w'. occ_reachable q n d w \<Longrightarrow> P w \<Longrightarrow> occ_step q w w' \<Longrightarrow> P w'"
  shows "P w"
  using assms(1) unfolding occ_reachable_def
  by (induction rule: rtranclp_induct) (use assms(2,3) in \<open>auto simp: occ_reachable_def\<close>)

section \<open>At most one client wins a version\<close>

definition task_rows :: "uuid \<Rightarrow> world \<Rightarrow> task set" where
  "task_rows tid w = {t \<in> set (tbl_tasks (w_db w)). t_id t = tid}"

text \<open>
  The invariant: a client that updated holds the lock of a row that still has the version it
  expects; a client that is done expected an older version than the row has; and no two done
  clients of a task expected the same version.
\<close>

definition holder_ok :: "(nat \<Rightarrow> occ_request) \<Rightarrow> world \<Rightarrow> nat \<Rightarrow> bool" where
  "holder_ok q w i \<longleftrightarrow> (\<forall>b t'. w_phase w i = Updated b t' \<longrightarrow>
     w_lock w (oc_task (q i)) = Some i \<and> t_id t' = oc_task (q i) \<and> t_version_id t' = oc_expected (q i) + 1 \<and>
     task_rows (oc_task (q i)) w \<noteq> {} \<and> (\<forall>t \<in> task_rows (oc_task (q i)) w. t_version_id t = oc_expected (q i)))"

definition winner_ok :: "(nat \<Rightarrow> occ_request) \<Rightarrow> world \<Rightarrow> nat \<Rightarrow> bool" where
  "winner_ok q w i \<longleftrightarrow> (\<forall>t'. w_phase w i = Done t' \<longrightarrow>
     (\<forall>t \<in> task_rows (oc_task (q i)) w. oc_expected (q i) < t_version_id t) \<and>
     (\<forall>j t''. w_phase w j = Done t'' \<longrightarrow> j \<noteq> i \<longrightarrow> oc_task (q j) = oc_task (q i) \<longrightarrow> oc_expected (q j) \<noteq> oc_expected (q i)))"

definition occ_inv :: "(nat \<Rightarrow> occ_request) \<Rightarrow> world \<Rightarrow> bool" where
  "occ_inv q w \<longleftrightarrow> distinct (map t_id (tbl_tasks (w_db w))) \<and> (\<forall>i. holder_ok q w i) \<and> (\<forall>i. winner_ok q w i)"

lemma task_rows_phase [simp]:
  "task_rows tid (w\<lparr>w_phase := ph\<rparr>) = task_rows tid w" "task_rows tid (w\<lparr>w_lock := l\<rparr>) = task_rows tid w"
  by (simp_all add: task_rows_def)

lemma task_rows_commit:
  "task_rows tid (w\<lparr>w_db := occ_commit r b t' (w_db w)\<rparr>) =
     (if tid = t_id t' then (if task_rows tid w = {} then {} else {t'}) else task_rows tid w)"
  by (auto simp: task_rows_def occ_commit_def)

lemma matched_row:
  "filter (occ_match org tid v) (tbl_tasks (w_db w)) = [t] \<Longrightarrow>
     t \<in> set (tbl_tasks (w_db w)) \<and> t_id t = tid \<and> t_version_id t = v"
  by (metis (no_types, lifting) filter_eq_ConsD in_set_conv_decomp occ_match_def)

lemma holder_unique:
  assumes "occ_inv q w" and "w_phase w i = Updated b t" and "w_phase w j = Updated b' t'"
    and "oc_task (q i) = oc_task (q j)"
  shows "i = j"
  using assms unfolding occ_inv_def holder_ok_def by (metis option.inject)

text \<open>A step that neither updates nor commits.\<close>

lemma occ_inv_phase:
  assumes "occ_inv q w" and "\<forall>b t. ph \<noteq> Updated b t" and "\<forall>t. ph \<noteq> Done t"
  shows "occ_inv q (set_phase i ph w)"
  using assms by (auto simp: occ_inv_def holder_ok_def winner_ok_def)

lemma occ_inv_hit:
  assumes inv: "occ_inv q w" and "w_lock w (oc_task (q i)) = None"
    and t: "filter (occ_match (oc_org (q i)) (oc_task (q i)) (oc_expected (q i))) (tbl_tasks (w_db w)) = [t]"
  shows "occ_inv q (set_phase i (Updated b (occ_row (q i) t)) (set_lock (oc_task (q i)) (Some i) w))"
proof -
  note row = matched_row [OF t]
  have d: "distinct (map t_id (tbl_tasks (w_db w)))" using inv by (simp add: occ_inv_def)
  then have "task_rows (oc_task (q i)) w = {t}"
    using row by (auto simp: task_rows_def dest: distinct_key_unique)
  moreover have "oc_task (q j) \<noteq> oc_task (q i)" if "w_phase w j = Updated b' t'" for j b' t'
    using inv assms(2) that unfolding occ_inv_def holder_ok_def by force
  ultimately show ?thesis
    using inv row
    by (auto simp: occ_inv_def holder_ok_def winner_ok_def occ_row_def occ_values_def)
qed

lemma occ_inv_abort:
  assumes inv: "occ_inv q w" and up: "w_phase w i = Updated b t'"
  shows "occ_inv q (set_phase i (Failed e) (set_lock (t_id t') None w))"
proof -
  have "t_id t' = oc_task (q i)" using inv up by (simp add: occ_inv_def holder_ok_def)
  moreover have "oc_task (q j) \<noteq> oc_task (q i)" if "w_phase w j = Updated b' t''" "j \<noteq> i" for j b' t''
    using holder_unique [OF inv up that(1)] that(2) by auto
  ultimately show ?thesis
    using inv by (auto simp: occ_inv_def holder_ok_def winner_ok_def)
qed

lemma occ_inv_commit:
  assumes inv: "occ_inv q w" and up: "w_phase w i = Updated b t'"
  shows "occ_inv q (set_phase i (Done t') (set_lock (t_id t') None (w\<lparr>w_db := occ_commit (q i) b t' (w_db w)\<rparr>)))"
proof -
  let ?tid = "oc_task (q i)"
  have h: "t_id t' = ?tid" "t_version_id t' = oc_expected (q i) + 1" "task_rows ?tid w \<noteq> {}"
    "\<forall>t \<in> task_rows ?tid w. t_version_id t = oc_expected (q i)"
    using inv up by (simp_all add: occ_inv_def holder_ok_def)
  have other: "oc_task (q j) \<noteq> ?tid" if "w_phase w j = Updated b' t''" "j \<noteq> i" for j b' t''
    using holder_unique [OF inv up that(1)] that(2) by auto
  have older: "oc_expected (q j) < oc_expected (q i)"
    if "w_phase w j = Done t''" "oc_task (q j) = ?tid" for j t''
    using inv that h(3,4) unfolding occ_inv_def winner_ok_def by fastforce
  have "map t_id (map (\<lambda>t. if t_id t = t_id t' then t' else t) (tbl_tasks (w_db w))) = map t_id (tbl_tasks (w_db w))"
    by auto
  then have "distinct (map t_id (tbl_tasks (occ_commit (q i) b t' (w_db w))))"
    using inv by (simp add: occ_commit_def occ_inv_def del: map_map)
  with inv show ?thesis
    using other older h
    by (auto simp: occ_inv_def holder_ok_def winner_ok_def task_rows_commit) (fastforce+)?
qed

lemma occ_inv_step: "occ_step q w w' \<Longrightarrow> occ_inv q w \<Longrightarrow> occ_inv q w'"
proof (induction rule: occ_step.induct)
  case (update_hit w i b t)
  show ?case by (rule occ_inv_hit [OF update_hit(5,2,3)])
next
  case (commit w i b t')
  show ?case by (rule occ_inv_commit [OF commit(2,1)])
next
  case (abort w i b t')
  show ?case by (rule occ_inv_abort [OF abort(2,1)])
qed (auto intro!: occ_inv_phase)

lemma occ_inv_reachable:
  assumes "occ_reachable q n d w" and "db_wf d"
  shows "occ_inv q w"
  using assms(1)
proof (induction rule: occ_reachable_induct)
  case init
  then show ?case
    using tasks_tbl.pk_distinct [OF assms(2)]
    by (simp add: occ_inv_def occ_init_def holder_ok_def winner_ok_def)
next
  case (step w w')
  then show ?case by (blast intro: occ_inv_step)
qed

lemma occ_winners_apart:
  assumes "occ_reachable q n d w" and "db_wf d" and "w_phase w i = Done t" and "w_phase w j = Done t'"
    and "oc_task (q i) = oc_task (q j)" and "oc_expected (q i) = oc_expected (q j)"
  shows "i = j"
  using occ_inv_reachable [OF assms(1,2)] assms(3-6) unfolding occ_inv_def winner_ok_def by metis

section \<open>Every commit counts once\<close>

definition winners :: "(nat \<Rightarrow> occ_request) \<Rightarrow> uuid \<Rightarrow> world \<Rightarrow> nat set" where
  "winners q tid w = {i. oc_task (q i) = tid \<and> (\<exists>t. w_phase w i = Done t)}"

lemma winners_phase:
  "\<forall>t. ph \<noteq> Done t \<Longrightarrow> \<forall>t. w_phase w i \<noteq> Done t \<Longrightarrow> winners q tid (set_phase i ph w) = winners q tid w"
  by (auto simp: winners_def)

lemma winners_lock [simp]:
  "winners q tid (w\<lparr>w_lock := l\<rparr>) = winners q tid w"
  "winners q tid (w\<lparr>w_lock := l, w_phase := p\<rparr>) = winners q tid (w\<lparr>w_phase := p\<rparr>)"
  "winners q tid (w\<lparr>w_db := d\<rparr>) = winners q tid w"
  by (simp_all add: winners_def)

lemma winners_done:
  "winners q tid (set_phase i (Done t) w) = (if oc_task (q i) = tid then insert i (winners q tid w) else winners q tid w)"
  if "\<forall>t. w_phase w i \<noteq> Done t"
  using that by (auto simp: winners_def)

lemma occ_version_count:
  assumes "occ_reachable q n d w" and "db_wf d" and "\<forall>t \<in> task_rows tid (occ_init n d). t_version_id t = v0"
  shows "finite (winners q tid w) \<and> (\<forall>t \<in> task_rows tid w. t_version_id t = v0 + int (card (winners q tid w)))"
  using assms(1)
proof (induction rule: occ_reachable_induct)
  case init
  have "winners q tid (occ_init n d) = {}" by (auto simp: winners_def occ_init_def)
  with assms(3) show ?case by simp
next
  case (step w w')
  note inv = occ_inv_reachable [OF step(1) assms(2)]
  from step(2,3) inv show ?case
  proof (induction rule: occ_step.induct)
    case (commit w i b t')
    let ?w = "w\<lparr>w_db := occ_commit (q i) b t' (w_db w), w_lock := (w_lock w)(t_id t' := None)\<rparr>"
    have h: "t_id t' = oc_task (q i)" "t_version_id t' = oc_expected (q i) + 1"
      "\<forall>t \<in> task_rows (oc_task (q i)) w. t_version_id t = oc_expected (q i)"
      using commit by (simp_all add: occ_inv_def holder_ok_def)
    have "i \<notin> winners q tid w" using commit by (simp add: winners_def)
    moreover have "winners q tid (set_phase i (Done t') ?w) =
        (if oc_task (q i) = tid then insert i (winners q tid w) else winners q tid w)"
      using commit by (subst winners_done) (simp_all add: winners_def)
    ultimately show ?case
      using commit(2) h by (auto simp: task_rows_commit)
  qed (simp_all add: winners_phase)
qed

section \<open>Exactly one of several clients on the same version\<close>

definition finished :: "occ_phase \<Rightarrow> bool" where
  "finished ph \<longleftrightarrow> (case ph of Done _ \<Rightarrow> True | Failed _ \<Rightarrow> True | _ \<Rightarrow> False)"

lemma occ_conflict_not_database [simp]:
  "occ_conflict tid v \<noteq> DatabaseError" "EntityNotFoundException a b \<noteq> DatabaseError"
  by (simp_all add: occ_conflict_def EntityConflictException_def EntityNotFoundException_def)

lemma done_stable: "occ_step q w w' \<Longrightarrow> w_phase w i = Done t \<Longrightarrow> w_phase w' i = Done t"
  by (induction rule: occ_step.induct) auto

text \<open>While nobody has won, the row is as it was, and only a failing COMMIT makes a client fail.\<close>

definition undecided :: "(nat \<Rightarrow> occ_request) \<Rightarrow> uuid \<Rightarrow> task list \<Rightarrow> nat \<Rightarrow> world \<Rightarrow> bool" where
  "undecided q tid ts n w \<longleftrightarrow> tbl_tasks (w_db w) = ts \<and>
     (\<forall>i e. w_phase w i = Failed e \<longrightarrow> e = DatabaseError) \<and> (\<forall>i \<ge> n. w_phase w i = Absent)"

lemma occ_undecided:
  assumes reach: "occ_reachable q n d w" and wf: "db_wf d"
    and same: "\<forall>i. oc_org (q i) = org \<and> oc_task (q i) = tid \<and> oc_expected (q i) = v"
    and row: "visible_task org tid d = Some t0" "t_version_id t0 = v" "fits_int4 (v + 1)"
  shows "(\<exists>i < n. \<exists>t. w_phase w i = Done t) \<or> undecided q tid (tbl_tasks d) n w"
  using reach
proof (induction rule: occ_reachable_induct)
  case init
  then show ?case by (simp add: undecided_def occ_init_def)
next
  case (step w w')
  show ?case
  proof (cases "undecided q tid (tbl_tasks d) n w")
    case False
    with step(3) obtain i t where "i < n" "w_phase w i = Done t" by blast
    with done_stable [OF step(2)] show ?thesis by blast
  next
    case True
    have vis: "visible_task org tid (w_db w) = Some t0"
        "filter (occ_match org tid v) (tbl_tasks (w_db w)) = [t0]"
      using True row occ_filter [OF wf, of org tid v] by (auto simp: undecided_def visible_task_def)
    have range: "i < n" if "w_phase w i \<noteq> Absent" for i
      using True that by (meson not_le undecided_def)
    from step(2) True vis range show ?thesis
    proof (induction rule: occ_step.induct)
      case (commit w i b t')
      then have "i < n" by simp
      then show ?case by auto
    qed (use same row(3) in \<open>auto simp: undecided_def split: if_splits\<close>)
  qed
qed

text \<open>Exactly one winner once every client has finished and no COMMIT failed.\<close>

lemma occ_one_winner:
  assumes reach: "occ_reachable q n d w" and wf: "db_wf d"
    and same: "\<forall>i. oc_org (q i) = org \<and> oc_task (q i) = tid \<and> oc_expected (q i) = v"
    and row: "visible_task org tid d = Some t0" "t_version_id t0 = v" "fits_int4 (v + 1)"
    and "0 < n" and over: "\<forall>i < n. finished (w_phase w i) \<and> w_phase w i \<noteq> Failed DatabaseError"
  shows "\<exists>!i. i < n \<and> (\<exists>t. w_phase w i = Done t)"
proof -
  have "\<not> undecided q tid (tbl_tasks d) n w \<or> (\<exists>t. w_phase w 0 = Done t)"
    using over assms(7) by (cases "w_phase w 0") (auto simp: undecided_def finished_def)
  then obtain i t where i: "i < n" "w_phase w i = Done t"
    using occ_undecided [OF reach wf same row] assms(7) by blast
  moreover have "j = i" if "w_phase w j = Done t'" for j t'
    by (rule occ_winners_apart [OF reach wf that i(2)]) (use same in simp_all)
  ultimately show ?thesis by blast
qed

section \<open>An undisturbed client is the service's method\<close>

text \<open>
  Run alone, a client's statements leave the database that \<open>update_task_status_occ\<close> leaves.
\<close>

lemma occ_commit_sequential:
  assumes wf: "db_wf d" and "visible_task org tid d = Some t" and "t_version_id t = v"
  shows "occ_commit \<lparr>oc_org = org, oc_task = tid, oc_actor = actor, oc_status = ns, oc_expected = v,
      oc_now = now, oc_audit = ast\<rparr> (occ_state t) (touch Task now (occ_values ns v t)) d =
    d\<lparr>tbl_tasks := occ_tasks now org tid ns v (tbl_tasks d),
      tbl_audit_logs := tbl_audit_logs d @
        [new_audit ast org (Some actor) ''Task'' tid AUDIT_UPDATE (Some (occ_state t))
           (Some (occ_state (touch Task now (occ_values ns v t))))]\<rparr>"
proof -
  note t = visible_task_Some [OF assms(2)]
  have "t' = t" if "t' \<in> set (tbl_tasks d)" "t_id t' = tid" for t'
    using that t distinct_key_unique [OF tasks_tbl.pk_distinct [OF wf], of t' t] by simp
  then have "map (\<lambda>t'. if t_id t' = tid then (occ_values ns v t)\<lparr>t_updated_at := now\<rparr> else t') (tbl_tasks d) =
      occ_tasks now org tid ns v (tbl_tasks d)"
    using t assms(3) by (auto simp: occ_tasks_def occ_match_def)
  then show ?thesis
    using t by (simp add: occ_commit_def occ_values_def cong: if_cong)
qed

text \<open>The three ways a client runs to its end without interruption.\<close>

lemma run_missing:
  assumes "i < n" and "visible_task (oc_org (q i)) (oc_task (q i)) d = None"
  shows "occ_reachable q n d (set_phase i (Failed (EntityNotFoundException ''Task'' (uuid_str (oc_task (q i))))) (occ_init n d))"
  unfolding occ_reachable_def
  by (rule r_into_rtranclp, rule occ_step.read_none) (use assms in \<open>simp_all add: occ_init_def\<close>)

lemma run_checked:
  assumes "i < n" and "visible_task (oc_org (q i)) (oc_task (q i)) d = Some t"
  shows "occ_reachable q n d (set_phase i (Checked (occ_state t)) (occ_init n d))"
  unfolding occ_reachable_def
  by (rule r_into_rtranclp, rule occ_step.read_some) (use assms in \<open>simp_all add: occ_init_def\<close>)

lemma occ_reachable_step: "occ_reachable q n d w \<Longrightarrow> occ_step q w w' \<Longrightarrow> occ_reachable q n d w'"
  unfolding occ_reachable_def by (rule rtranclp.rtrancl_into_rtrancl)

lemma run_stale:
  assumes wf: "db_wf d" and "i < n" and "visible_task (oc_org (q i)) (oc_task (q i)) d = Some t"
    and "t_version_id t \<noteq> oc_expected (q i)"
  shows "occ_reachable q n d (set_phase i (Failed (occ_conflict (oc_task (q i)) (oc_expected (q i))))
    (set_phase i (Checked (occ_state t)) (occ_init n d)))"
  by (rule occ_reachable_step [OF run_checked [where q = q, OF assms(2,3)]], rule occ_step.update_miss)
    (use assms in \<open>simp_all add: occ_init_def occ_filter\<close>)

lemma run_updated:
  assumes wf: "db_wf d" and "i < n" and "visible_task (oc_org (q i)) (oc_task (q i)) d = Some t"
    and "t_version_id t = oc_expected (q i)" and "fits_int4 (oc_expected (q i) + 1)"
  shows "occ_reachable q n d (set_phase i (Updated (occ_state t) (occ_row (q i) t))
    (set_lock (oc_task (q i)) (Some i) (set_phase i (Checked (occ_state t)) (occ_init n d))))"
  by (rule occ_reachable_step [OF run_checked [where q = q, OF assms(2,3)]], rule occ_step.update_hit)
    (use assms in \<open>simp_all add: occ_init_def occ_filter\<close>)

lemma run_commit:
  assumes "db_wf d" and "i < n" and "visible_task (oc_org (q i)) (oc_task (q i)) d = Some t"
    and "t_version_id t = oc_expected (q i)" and "fits_int4 (oc_expected (q i) + 1)"
  shows "\<exists>w. occ_reachable q n d w \<and> w_phase w i = Done (occ_row (q i) t) \<and>
    w_db w = occ_commit (q i) (occ_state t) (occ_row (q i) t) d"
  by (rule exI, rule conjI, rule occ_reachable_step [OF run_updated [where q = q, OF assms]],
      rule occ_step.commit [where i = i and b = "occ_state t" and t' = "occ_row (q i) t"])
    (simp_all add: occ_init_def)

section \<open>Updates of projects: read, check, write\<close>

record rcw_request =
  rw_org :: uuid
  rw_project :: uuid
  rw_payload :: project_update
  rw_actor :: "uuid option"
  rw_now :: instant
  rw_audit :: audit_stamp

datatype rcw_phase =
    RAbsent
  | RStart
  | RRead project
  | RWritten project project
  | RDone project
  | RFailed exn

record rcw_world =
  rw_db :: database
  rw_lock :: "uuid \<Rightarrow> nat option"
  rw_phase :: "nat \<Rightarrow> rcw_phase"

text \<open>
  The flush writes the columns whose attribute changed since the object was loaded, and
  \<open>updated_at\<close>, into the row as it is when the UPDATE runs: its WHERE names the id only.
\<close>

definition write_columns :: "instant \<Rightarrow> project \<Rightarrow> project \<Rightarrow> project \<Rightarrow> project" where
  "write_columns now loaded new current =
     current\<lparr>p_team_id := (if p_team_id new \<noteq> p_team_id loaded then p_team_id new else p_team_id current),
       p_name := (if p_name new \<noteq> p_name loaded then p_name new else p_name current),
       p_description := (if p_description new \<noteq> p_description loaded then p_description new else p_description current),
       p_is_archived := (if p_is_archived new \<noteq> p_is_archived loaded then p_is_archived new else p_is_archived current),
       p_version_id := (if p_version_id new \<noteq> p_version_id loaded then p_version_id new else p_version_id current),
       p_updated_at := now\<rparr>"

definition rcw_commit :: "rcw_request \<Rightarrow> project \<Rightarrow> project \<Rightarrow> database \<Rightarrow> database" where
  "rcw_commit q loaded row d =
     d\<lparr>tbl_projects := replace_project row (tbl_projects d),
       tbl_audit_logs := tbl_audit_logs d @
         [new_audit (rw_audit q) (rw_org q) (rw_actor q) ''Project'' (p_id row) AUDIT_UPDATE
            (Some (project_state loaded)) (Some (project_state (updated_project (rw_now q) (rw_payload q) loaded)))]\<rparr>"

inductive rcw_step :: "(nat \<Rightarrow> rcw_request) \<Rightarrow> rcw_world \<Rightarrow> rcw_world \<Rightarrow> bool" for q where
  rcw_missing: "rw_phase w i = RStart \<Longrightarrow> visible_project (rw_org (q i)) (rw_project (q i)) (rw_db w) = None \<Longrightarrow>
    rcw_step q w (w\<lparr>rw_phase := (rw_phase w)(i := RFailed (EntityNotFoundException ''Project'' (uuid_str (rw_project (q i)))))\<rparr>)"
| rcw_stale: "rw_phase w i = RStart \<Longrightarrow> visible_project (rw_org (q i)) (rw_project (q i)) (rw_db w) = Some p \<Longrightarrow>
    p_version_id p \<noteq> pu_expected_version (rw_payload (q i)) \<Longrightarrow>
    rcw_step q w (w\<lparr>rw_phase := (rw_phase w)(i := RFailed (project_conflict (rw_project (q i))
      (pu_expected_version (rw_payload (q i))) (p_version_id p)))\<rparr>)"
| rcw_read: "rw_phase w i = RStart \<Longrightarrow> visible_project (rw_org (q i)) (rw_project (q i)) (rw_db w) = Some p \<Longrightarrow>
    p_version_id p = pu_expected_version (rw_payload (q i)) \<Longrightarrow>
    rcw_step q w (w\<lparr>rw_phase := (rw_phase w)(i := RRead p)\<rparr>)"
| rcw_write: "rw_phase w i = RRead p \<Longrightarrow> rw_lock w (p_id p) = None \<Longrightarrow>
    find (\<lambda>r. p_id r = p_id p) (tbl_projects (rw_db w)) = Some current \<Longrightarrow>
    rcw_step q w (w\<lparr>rw_lock := (rw_lock w)(p_id p := Some i),
      rw_phase := (rw_phase w)(i := RWritten p
        (write_columns (rw_now (q i)) p (apply_project_update (rw_payload (q i)) p) current))\<rparr>)"
| rcw_commits: "rw_phase w i = RWritten p row \<Longrightarrow>
    rcw_step q w (w\<lparr>rw_db := rcw_commit (q i) p row (rw_db w), rw_lock := (rw_lock w)(p_id p := None),
      rw_phase := (rw_phase w)(i := RDone row)\<rparr>)"

definition rcw_init :: "nat \<Rightarrow> database \<Rightarrow> rcw_world" where
  "rcw_init n d = \<lparr>rw_db = d, rw_lock = (\<lambda>_. None), rw_phase = (\<lambda>i. if i < n then RStart else RAbsent)\<rparr>"

definition rcw_reachable :: "(nat \<Rightarrow> rcw_request) \<Rightarrow> nat \<Rightarrow> database \<Rightarrow> rcw_world \<Rightarrow> bool" where
  "rcw_reachable q n d w \<longleftrightarrow> (rcw_step q)\<^sup>*\<^sup>* (rcw_init n d) w"

lemma write_columns_fields [simp]:
  "p_id (write_columns now l n c) = p_id c"
  "p_organization_id (write_columns now l n c) = p_organization_id c"
  by (simp_all add: write_columns_def)

lemma find_replace_project:
  "find (\<lambda>r. p_id r = i) ps = Some p \<Longrightarrow> p_id p' = i \<Longrightarrow>
     find (\<lambda>r. p_id r = i) (replace_project p' ps) = Some p'"
  by (induction ps) (auto simp: replace_project_def)

text \<open>
  Two updates that read the same version both succeed: the row ends one version higher, and
  the second writer's columns replace the first writer's.
\<close>

lemma rcw_lost_update:
  assumes p: "visible_project org pid d = Some p" "find (\<lambda>r. p_id r = pid) (tbl_projects d) = Some p"
    and q: "\<forall>i. rw_org (q i) = org \<and> rw_project (q i) = pid \<and> pu_expected_version (rw_payload (q i)) = p_version_id p"
  defines "row0 \<equiv> write_columns (rw_now (q 0)) p (apply_project_update (rw_payload (q 0)) p) p"
  defines "row1 \<equiv> write_columns (rw_now (q 1)) p (apply_project_update (rw_payload (q 1)) p) row0"
  shows "\<exists>w. rcw_reachable q 2 d w \<and> rw_phase w 0 = RDone row0 \<and> rw_phase w 1 = RDone row1 \<and>
    find (\<lambda>r. p_id r = pid) (tbl_projects (rw_db w)) = Some row1"
proof -
  have pid: "p_id p = pid" using p(2) by (auto simp: find_Some_iff)
  define w0 where "w0 = rcw_init 2 d"
  define w1 where "w1 = w0\<lparr>rw_phase := (rw_phase w0)(0 := RRead p)\<rparr>"
  define w2 where "w2 = w1\<lparr>rw_phase := (rw_phase w1)(1 := RRead p)\<rparr>"
  define w3 where "w3 = w2\<lparr>rw_lock := (rw_lock w2)(p_id p := Some 0), rw_phase := (rw_phase w2)(0 := RWritten p row0)\<rparr>"
  define w4 where "w4 = w3\<lparr>rw_db := rcw_commit (q 0) p row0 (rw_db w3), rw_lock := (rw_lock w3)(p_id p := None),
      rw_phase := (rw_phase w3)(0 := RDone row0)\<rparr>"
  define w5 where "w5 = w4\<lparr>rw_lock := (rw_lock w4)(p_id p := Some 1), rw_phase := (rw_phase w4)(1 := RWritten p row1)\<rparr>"
  define w6 where "w6 = w5\<lparr>rw_db := rcw_commit (q 1) p row1 (rw_db w5), rw_lock := (rw_lock w5)(p_id p := None),
      rw_phase := (rw_phase w5)(1 := RDone row1)\<rparr>"
  note ws = w0_def w1_def w2_def w3_def w4_def w5_def w6_def rcw_init_def
  have rows: "p_id row0 = pid" "p_id row1 = pid" by (simp_all add: row0_def row1_def pid)
  have found0: "find (\<lambda>r. p_id r = pid) (tbl_projects (rcw_commit (q 0) p row0 d)) = Some row0"
    using find_replace_project [OF p(2) rows(1)] by (simp add: rcw_commit_def)
  have s1: "rcw_step q w0 w1" unfolding w1_def by (rule rcw_read) (use p q in \<open>simp_all add: ws\<close>)
  have s2: "rcw_step q w1 w2" unfolding w2_def by (rule rcw_read) (use p q in \<open>simp_all add: ws\<close>)
  have s3: "rcw_step q w2 w3" unfolding w3_def row0_def by (rule rcw_write) (use p pid in \<open>simp_all add: ws\<close>)
  have s4: "rcw_step q w3 w4" unfolding w4_def by (rule rcw_commits) (simp add: ws)
  have s5: "rcw_step q w4 w5" unfolding w5_def row1_def by (rule rcw_write) (use found0 pid in \<open>simp_all add: ws\<close>)
  have s6: "rcw_step q w5 w6" unfolding w6_def by (rule rcw_commits) (simp add: ws)
  have "rcw_reachable q 2 d w6"
    using s1 s2 s3 s4 s5 s6 unfolding rcw_reachable_def w0_def [symmetric]
    by (meson rtranclp.rtrancl_into_rtrancl rtranclp.rtrancl_refl)
  moreover have "find (\<lambda>r. p_id r = pid) (tbl_projects (rw_db w6)) = Some row1"
    using find_replace_project [OF found0 rows(2)] by (simp add: ws rcw_commit_def)
  ultimately show ?thesis by (intro exI [of _ w6]) (simp add: ws)
qed

lemma lost_update_row:
  "p_version_id (write_columns now p (apply_project_update u p) current) = p_version_id p + 1"
  "pu_name u = Some n \<Longrightarrow> py_strip n \<noteq> p_name p \<Longrightarrow>
     p_name (write_columns now p (apply_project_update u p) current) = py_strip n"
  by (auto simp: write_columns_def apply_project_update_def Let_def split: option.splits)

end
