(* ===== verification/Sample.thy ===== *)
theory Sample
  imports Comments Realtime RateLimit Occ
begin

text \<open>
  A small deployment with two tenants, on which the hypotheses of the properties are shown to
  hold: two users, two organizations with one member each, a project and a task in both.
\<close>

definition sample_user :: "uuid \<Rightarrow> pystr \<Rightarrow> user" where
  "sample_user i email = \<lparr>u_id = i, u_email = email, u_hashed_password = ''secret-pw'', u_full_name = ''Ann Lee'',
     u_avatar_url = None, u_is_active = True, u_is_verified = False, u_created_at = 0, u_updated_at = 0\<rparr>"

definition sample_org :: "uuid \<Rightarrow> pystr \<Rightarrow> organization" where
  "sample_org i slug = \<lparr>o_id = i, o_name = slug, o_slug = slug, o_logo_url = None, o_is_active = True,
     o_created_at = 0, o_updated_at = 0\<rparr>"

definition sample_member :: "uuid \<Rightarrow> uuid \<Rightarrow> uuid \<Rightarrow> org_role \<Rightarrow> organization_member" where
  "sample_member i org u r = \<lparr>m_id = i, m_organization_id = org, m_user_id = u, m_role = r,
     m_created_at = 0, m_updated_at = 0\<rparr>"

definition sample_project :: "uuid \<Rightarrow> uuid \<Rightarrow> pystr \<Rightarrow> project" where
  "sample_project i org key = \<lparr>p_id = i, p_organization_id = org, p_team_id = None, p_name = ''Apollo'',
     p_key = key, p_description = None, p_is_archived = False, p_version_id = 1, p_created_at = 0, p_updated_at = 0\<rparr>"

definition sample_task :: "uuid \<Rightarrow> uuid \<Rightarrow> uuid \<Rightarrow> uuid \<Rightarrow> task" where
  "sample_task i org p u = \<lparr>t_id = i, t_organization_id = org, t_project_id = p, t_parent_id = None,
     t_reporter_id = u, t_assignee_id = None, t_title = ''Fix login'', t_description = None, t_status = TODO,
     t_priority = MEDIUM, t_due_date = None, t_version_id = 1, t_created_at = 0, t_updated_at = 0,
     t_is_deleted = False, t_deleted_at = None\<rparr>"

definition sample_db :: database where
  "sample_db = empty_database\<lparr>
     tbl_users := [sample_user 1 ''ann@a.io'', sample_user 2 ''bob@b.io''],
     tbl_organizations := [sample_org 10 ''alpha'', sample_org 20 ''beta''],
     tbl_organization_members := [sample_member 101 10 1 MEMBER, sample_member 102 20 2 OWNER],
     tbl_projects := [sample_project 1000 10 ''APL'', sample_project 2000 20 ''BET''],
     tbl_tasks := [sample_task 5000 10 1000 1, sample_task 6000 20 2000 2]\<rparr>"

definition sample_session :: session where
  "sample_session = \<lparr>committed = sample_db, work = sample_db, commit_fault = None\<rparr>"

definition sample_state :: "store app_state" where
  "sample_state = \<lparr>committed = sample_db, work = sample_db, commit_fault = None, redis = (\<lambda>_. None),
     redis_down = False, clock = (\<lambda>n. 1000 + int n), uuid_source = (\<lambda>n. 7000 + of_nat n), published = []\<rparr>"

lemmas sample_rows =
  sample_user_def sample_org_def sample_member_def sample_project_def sample_task_def

lemma sample_tables [simp]:
  "tbl_users sample_db = [sample_user 1 ''ann@a.io'', sample_user 2 ''bob@b.io'']"
  "tbl_organizations sample_db = [sample_org 10 ''alpha'', sample_org 20 ''beta'']"
  "tbl_organization_members sample_db = [sample_member 101 10 1 MEMBER, sample_member 102 20 2 OWNER]"
  "tbl_projects sample_db = [sample_project 1000 10 ''APL'', sample_project 2000 20 ''BET'']"
  "tbl_tasks sample_db = [sample_task 5000 10 1000 1, sample_task 6000 20 2000 2]"
  "tbl_teams sample_db = []" "tbl_team_members sample_db = []" "tbl_comments sample_db = []"
  "tbl_attachments sample_db = []" "tbl_audit_logs sample_db = []" "tbl_notifications sample_db = []"
  by (simp_all add: sample_db_def empty_database_def)

lemma sample_wf [simp]: "db_wf sample_db"
  by (simp add: db_wf_def table_ok_def violation_def table_defs sample_rows fits_defs key_set_defs opt_ref_def)

lemma sample_session_simps [simp]:
  "committed sample_session = sample_db" "work sample_session = sample_db" "commit_fault sample_session = None"
  by (simp_all add: sample_session_def)

lemma sample_state_simps [simp]:
  "committed sample_state = sample_db" "work sample_state = sample_db" "commit_fault sample_state = None"
  "redis_down sample_state = False" "redis sample_state = (\<lambda>_. None)" "published sample_state = []"
  "clock sample_state n = 1000 + int n" "uuid_source sample_state n = 7000 + of_nat n"
  by (simp_all add: sample_state_def)

lemma sample_lookups [simp]:
  "visible_task 10 5000 sample_db = Some (sample_task 5000 10 1000 1)"
  "visible_project 10 1000 sample_db = Some (sample_project 1000 10 ''APL'')"
  "membership 10 1 sample_db = Some (sample_member 101 10 1 MEMBER)"
  "membership 20 1 sample_db = None"
  by (simp_all add: visible_task_def visible_project_def membership_def sample_rows)

definition sample_audit :: audit_stamp where
  "sample_audit = \<lparr>as_id = 9000, as_timestamp = 5\<rparr>"

definition sample_stamp :: row_stamp where
  "sample_stamp = \<lparr>st_id = 8000, st_created_at = 5, st_updated_at = 5\<rparr>"

section \<open>Payloads and tokens\<close>

definition sample_create :: task_create_payload where
  "sample_create = \<lparr>tc_project_id = 2000, tc_title = ''Write docs'', tc_description = None, tc_priority = HIGH,
     tc_assignee_id = None, tc_parent_id = Some 5000, tc_due_date = Some 99\<rparr>"

definition sample_patch :: task_update_payload where
  "sample_patch = \<lparr>tu_title = Some '' Fix logout '', tu_description = None, tu_status = None, tu_priority = Some URGENT,
     tu_assignee_id = Some 2, tu_due_date = None, tu_expected_version = 1\<rparr>"

definition sample_project_create :: project_create where
  "sample_project_create = \<lparr>pc_name = ''Zeus'', pc_key = '' zeu'', pc_description = None, pc_team_id = None\<rparr>"

definition sample_rename :: "pystr \<Rightarrow> project_update" where
  "sample_rename n = \<lparr>pu_name = Some n, pu_description = None, pu_team_id = None, pu_is_archived = None,
     pu_expected_version = 1\<rparr>"

definition sample_register :: "pystr \<Rightarrow> pystr \<Rightarrow> user_register_request" where
  "sample_register email org = \<lparr>ur_email = email, ur_password = ''correct horse'', ur_full_name = ''Zed Zhou'',
     ur_organization_name = Some org\<rparr>"

lemmas sample_payloads =
  sample_create_def sample_patch_def sample_project_create_def sample_rename_def sample_register_def
  sample_audit_def sample_stamp_def

definition sample_access :: pystr where
  "sample_access = issued plain_jwt 1 77 ''access'' 900000000 0"

definition sample_refresh :: "instant \<Rightarrow> pystr" where
  "sample_refresh e = issued plain_jwt 1 78 ''refresh'' e 0"

definition sample_ctx :: tenant_context where
  "sample_ctx = \<lparr>ctx_user = sample_user 1 ''ann@a.io'', ctx_organization_id = 10, ctx_role = MEMBER\<rparr>"

lemma sample_ctx_simps [simp]:
  "ctx_user sample_ctx = sample_user 1 ''ann@a.io''" "ctx_organization_id sample_ctx = 10" "u_id (sample_user i e) = i"
  "u_is_active (sample_user i e)"
  by (simp_all add: sample_ctx_def sample_user_def)

lemma sample_current_user [simp]:
  "get_current_user plain_jwt sample_access (sample_state\<lparr>work := sample_db\<rparr>) =
     (Inr (sample_user 1 ''ann@a.io''), opened sample_state)"
  by (simp add: sample_access_def get_current_user_issued [OF plain_jwt_laws] expiry_second_def opened_def)

lemma sample_authorize [simp]:
  "fst (authorize plain_jwt VIEWER sample_access 10 (sample_state\<lparr>work := sample_db\<rparr>)) = Inr sample_ctx"
  by (simp add: authorize_def bindE_def require_role_def get_membership_eq exec_simps sample_member_def sample_ctx_def)

lemma sample_user_ids [simp]: "user_ids sample_db = {1, 2}" "organization_ids sample_db = {10, 20}"
  "project_ids sample_db = {1000, 2000}" "task_ids sample_db = {5000, 6000}" "team_ids sample_db = {}"
  by (auto simp: key_set_defs sample_rows)

lemma sample_session_wf [simp]: "session_wf sample_state" "session_wf sample_session"
  by (simp_all add: session_wf_def)

lemma steady_sample: "steady (clock sample_state)"
  by (simp add: steady_def)

section \<open>Two clients racing on one task\<close>

definition sample_requests :: "nat \<Rightarrow> occ_request" where
  "sample_requests i = \<lparr>oc_org = 10, oc_task = 5000, oc_actor = 1, oc_status = (if i = 0 then DONE else IN_REVIEW),
     oc_expected = 1, oc_now = 7, oc_audit = \<lparr>as_id = 9000 + of_nat i, as_timestamp = 7\<rparr>\<rparr>"

definition sample_won :: task where
  "sample_won = (sample_task 5000 10 1000 1)\<lparr>t_status := DONE, t_version_id := 2, t_updated_at := 7\<rparr>"

lemma sample_race:
  "\<exists>w. occ_reachable sample_requests 2 sample_db w \<and> w_phase w 0 = Done sample_won \<and>
     w_phase w 1 = Failed (occ_conflict 5000 1) \<and> tbl_tasks (w_db w) = [sample_won, sample_task 6000 20 2000 2]"
proof -
  let ?q = sample_requests and ?t = "sample_task 5000 10 1000 1"
  have row: "occ_row (?q 0) ?t = sample_won"
    by (simp add: occ_row_def occ_values_def sample_requests_def sample_won_def)
  define w2 where "w2 = set_phase 0 (Updated (occ_state ?t) sample_won)
    (set_lock 5000 (Some 0) (set_phase 0 (Checked (occ_state ?t)) (occ_init 2 sample_db)))"
  define w3 where "w3 = set_phase 0 (Done sample_won) (set_lock (t_id sample_won) None
    (w2\<lparr>w_db := occ_commit (?q 0) (occ_state ?t) sample_won (w_db w2)\<rparr>))"
  define w4 where "w4 = set_phase 1 (Checked (occ_state sample_won)) w3"
  define w5 where "w5 = set_phase 1 (Failed (occ_conflict (oc_task (?q 1)) (oc_expected (?q 1)))) w4"
  note ws = w2_def w3_def w4_def w5_def occ_init_def
  note rows = sample_won_def sample_task_def
  have q: "oc_org (?q i) = 10" "oc_task (?q i) = 5000" "oc_expected (?q i) = 1" for i
    by (simp_all add: sample_requests_def)
  have tasks: "tbl_tasks (w_db w3) = [sample_won, sample_task 6000 20 2000 2]"
    by (simp add: ws occ_commit_def rows)
  have r2: "occ_reachable ?q 2 sample_db w2"
    using run_updated [of sample_db 0 2 ?q ?t] q row by (simp add: w2_def fits_int4_def sample_task_def)
  have r3: "occ_reachable ?q 2 sample_db w3"
    unfolding w3_def by (rule occ_reachable_step [OF r2], rule occ_step.commit) (simp add: ws)
  have r4: "occ_reachable ?q 2 sample_db w4"
    unfolding w4_def
    by (rule occ_reachable_step [OF r3], rule occ_step.read_some)
      (simp_all add: visible_task_def tasks q, simp_all add: ws rows)
  have r5: "occ_reachable ?q 2 sample_db w5"
    unfolding w5_def
    by (rule occ_reachable_step [OF r4], rule occ_step.update_miss)
      (simp_all add: q w4_def tasks occ_match_def, simp_all add: ws rows)
  have "w_db w5 = w_db w3" by (simp add: w5_def w4_def)
  with r5 tasks show ?thesis
    by (intro exI [of _ w5]) (simp add: q, simp add: ws q)
qed

definition sample_renames :: "nat \<Rightarrow> rcw_request" where
  "sample_renames i = \<lparr>rw_org = 10, rw_project = 1000, rw_payload = sample_rename (if i = 0 then ''One'' else ''Two''),
     rw_actor = None, rw_now = 7, rw_audit = \<lparr>as_id = 9000 + of_nat i, as_timestamp = 7\<rparr>\<rparr>"

lemma sample_texts [simp]:
  "py_strip (py_upper '' zeu'') = ''ZEU''" "py_strip ''Zeus'' = ''Zeus''" "py_strip ''One'' = ''One''"
  "py_strip ''Two'' = ''Two''" "py_strip ''Gemini'' = ''Gemini''" "py_strip '' Fix logout '' = ''Fix logout''"
  "py_strip ''Zed Zhou'' = ''Zed Zhou''" "py_strip (py_lower ''Zed@z.io'') = ''zed@z.io''"
  "py_strip (py_lower ''ANN@A.io '') = ''ann@a.io''" "py_strip ''LOGIN'' = ''LOGIN''"
  "py_lower ''LOGIN'' = ''login''" "py_lower ''Fix login'' = ''fix login''" "slugify ''Zhou Ltd'' = ''zhou-ltd''"
  by code_simp+

definition no_filters :: task_filter_params where
  "no_filters = \<lparr>tf_project_id = None, tf_status = None, tf_priority = None, tf_assignee_id = None,
     tf_reporter_id = None, tf_search = None, tf_sort_by = ''created_at:desc''\<rparr>"

lemma sample_listing [simp]:
  "build_filter_criteria 10 no_filters (sample_task 5000 10 1000 1)"
  "\<not> build_filter_criteria 10 no_filters (sample_task 6000 20 2000 2)"
  "t_created_at (sample_task i org p u) = 0"
  "order_tasks_desc [t] = [t]" "tf_sort_by no_filters = ''created_at:desc''"
  by (simp_all add: order_tasks_desc_def build_filter_criteria_def eq_filter_def search_filter_def no_filters_def
      sample_task_def)

lemma feed_filters_eq: "feed_filters None None = no_filters"
  by (simp add: feed_filters_def no_filters_def)

text \<open>A workspace name of the greatest length the schema admits.\<close>

definition long_name :: pystr where
  "long_name = replicate 100 (CHR ''a'')"

lemma long_name_facts:
  "length long_name = 100" "long_name \<noteq> []" "slugify long_name = long_name"
  by (simp_all add: long_name_def, code_simp)

section \<open>Three requests of one client\<close>

definition sample_limiter :: rate_limiter where
  "sample_limiter = \<lparr>rl_limit = 1, rl_window = 60\<rparr>"

definition sample_hits :: "hit list" where
  "sample_hits = [(0, 0), (5, 1), (60000006, 2)]"

lemma distinct_hit_ends: "distinct ''012''"
  by simp

lemma sample_hits_apart: "members_apart py_str_int sample_hits"
proof -
  have "py_str_int 0 = ''0''" "py_str_int 1 = ''1''" "py_str_int 2 = ''2''" by code_simp+
  then have "map last (map (\<lambda>h. rate_member py_str_int (fst h) (snd h)) sample_hits) = ''012''"
    by (simp add: sample_hits_def rate_member_def)
  then show ?thesis
    unfolding members_apart_def using distinct_map [of last] by (metis distinct_hit_ends)
qed

section \<open>A task with comments\<close>

definition sample_comment :: "uuid \<Rightarrow> uuid \<Rightarrow> uuid \<Rightarrow> uuid \<Rightarrow> comment" where
  "sample_comment i org t u = \<lparr>c_id = i, c_organization_id = org, c_task_id = t, c_author_id = u,
     c_content = ''hello'', c_is_edited = False, c_created_at = int (unat i), c_updated_at = 0\<rparr>"

definition sample_comment_text :: "pystr \<Rightarrow> comment_payload" where
  "sample_comment_text txt = \<lparr>cc_content = txt\<rparr>"

definition sample_talk_db :: database where
  "sample_talk_db = sample_db\<lparr>tbl_comments := [sample_comment 8000 10 5000 1, sample_comment 8001 10 5000 2]\<rparr>"

definition sample_talk :: "store app_state" where
  "sample_talk = sample_state\<lparr>committed := sample_talk_db, work := sample_talk_db\<rparr>"

lemma sample_talk_wf [simp]: "db_wf sample_talk_db"
  using sample_wf
  by (simp add: sample_talk_db_def db_wf_def table_ok_def violation_def table_defs sample_comment_def fits_defs
      key_set_defs opt_ref_def sample_rows)

lemma sample_talk_simps [simp]:
  "committed sample_talk = sample_talk_db" "work sample_talk = sample_talk_db" "commit_fault sample_talk = None"
  "tbl_comments sample_talk_db = [sample_comment 8000 10 5000 1, sample_comment 8001 10 5000 2]"
  "py_strip '' edited '' = ''edited''" "cc_content (sample_comment_text txt) = txt"
  by (simp_all add: sample_talk_def sample_talk_db_def sample_comment_text_def, code_simp)

lemma sample_talk_tables [simp]:
  "tbl_users sample_talk_db = tbl_users sample_db" "membership 10 1 sample_talk_db = Some (sample_member 101 10 1 MEMBER)"
  using sample_lookups(3) by (simp_all add: sample_talk_db_def membership_def)

lemma sample_talk_authorize [simp]:
  "fst (authorize plain_jwt VIEWER sample_access 10 (sample_talk\<lparr>work := sample_talk_db\<rparr>)) = Inr sample_ctx"
  by (simp add: authorize_def bindE_def require_role_def get_membership_eq exec_simps sample_member_def sample_ctx_def
      sample_access_def get_current_user_issued [OF plain_jwt_laws] expiry_second_def opened_def sample_talk_def)

section \<open>A room with one socket\<close>

definition sample_admitted :: "socket \<Rightarrow> uuid \<Rightarrow> bool" where
  "sample_admitted ws pid \<longleftrightarrow> ws < 2 \<and> pid = 1000"

definition sample_joined :: hub where
  "sample_joined = (hub_connect 1000 0 empty_hub)\<lparr>peer := (peer empty_hub)(0 \<mapsto> 1000)\<rparr>"

definition sample_waiting :: hub where
  "sample_waiting = set_phase_of 0 Waiting (set_phase_of 0 Looping sample_joined)"

definition sample_published :: hub where
  "sample_published = hub_publish 1000 ''{}'' sample_waiting"

definition sample_served :: hub where
  "sample_served = set_phase_of 0 (Sending 0 [] [])
     ((change_task 0 (\<lambda>l. l\<lparr>l_inbox := [], l_phase := Sending 0 [0] []\<rparr>) sample_published)
        \<lparr>received := (received sample_published)(0 := [0])\<rparr>)"

definition sample_dead :: hub where
  "sample_dead = set_phase_of 0 Crashed sample_waiting"

definition sample_missed :: hub where
  "sample_missed = hub_publish 1000 ''{}'' sample_dead"

lemmas sample_hub_defs =
  sample_missed_def sample_dead_def sample_published_def sample_waiting_def sample_joined_def hub_connect_def
  create_task_of_def set_phase_of_def change_task_def hub_publish_def empty_hub_def new_listener_def subscribed_def

lemma sample_waiting_reachable: "hub_reachable sample_admitted sample_waiting"
proof -
  have "hub_step sample_admitted empty_hub sample_joined"
    unfolding sample_joined_def by (rule hub_step.connect) (simp_all add: empty_hub_def sample_admitted_def)
  moreover have "hub_step sample_admitted sample_joined (set_phase_of 0 Looping sample_joined)"
    by (rule hub_step.subscribe) (simp_all add: sample_hub_defs, simp_all)
  moreover have "hub_step sample_admitted (set_phase_of 0 Looping sample_joined) sample_waiting"
    unfolding sample_waiting_def by (rule hub_step.loop) (simp_all add: sample_hub_defs, simp_all)
  ultimately show ?thesis
    unfolding hub_reachable_def by (meson rtranclp.rtrancl_refl rtranclp.rtrancl_into_rtrancl)
qed

lemma sample_published_reachable: "hub_reachable sample_admitted sample_published"
  unfolding sample_published_def by (rule hub_reachable_step [OF sample_waiting_reachable]) (rule hub_step.publish)

lemma sample_served_reachable: "hub_reachable sample_admitted sample_served"
proof -
  let ?h = "change_task 0 (\<lambda>l. l\<lparr>l_inbox := [], l_phase := Sending 0 [0] []\<rparr>) sample_published"
  have "hub_step sample_admitted sample_published ?h"
    by (rule hub_step.message) (simp_all add: sample_hub_defs snapshot_def, simp_all)
  then have "hub_reachable sample_admitted ?h" by (rule hub_reachable_step [OF sample_published_reachable])
  moreover have "hub_step sample_admitted ?h sample_served"
    using hub_step.send [of ?h 0 _ 0 0 "[]" "[]" sample_admitted]
    by (simp add: sample_served_def sample_hub_defs)
  ultimately show ?thesis by (rule hub_reachable_step)
qed

lemma sample_served_received [simp]: "received sample_served 0 = [0]"
  by (simp add: sample_served_def sample_hub_defs)

lemma sample_dead_reachable: "hub_reachable sample_admitted sample_dead"
  unfolding sample_dead_def
  by (rule hub_reachable_step [OF sample_waiting_reachable], rule hub_step.crash) (simp_all add: sample_hub_defs, simp_all)

lemma sample_missed_run: "occupied_run sample_admitted 1000 sample_dead sample_missed"
proof -
  have "hub_step sample_admitted sample_dead sample_missed" unfolding sample_missed_def by (rule hub_step.publish)
  moreover have "rooms sample_missed 1000 \<noteq> None" by (simp add: sample_hub_defs)
  ultimately show ?thesis unfolding occupied_run_def by (simp add: r_into_rtranclp)
qed

end
