(* ===== verification/Collaboration.thy ===== *)
theory Collaboration
  imports Sample ProjectApi Teams Organizations Attachments AuditQuery Workers
begin

text \<open>
  Properties of the parts of the service that work beside tasks: the cached reads of projects,
  teams, invitations, attachments, the audit trail and the sweeper.
\<close>

section \<open>Sample data\<close>

definition sample_team :: team where
  "sample_team = \<lparr>tm_id = 300, tm_organization_id = 10, tm_name = ''Core'', tm_slug = ''core'', tm_description = None,
     tm_created_at = 0, tm_updated_at = 0\<rparr>"

definition sample_team_db :: database where
  "sample_team_db = sample_db\<lparr>tbl_teams := [sample_team]\<rparr>"

definition sample_team_session :: session where
  "sample_team_session = \<lparr>committed = sample_team_db, work = sample_team_db, commit_fault = None\<rparr>"

lemma sample_team_wf [simp]: "db_wf sample_team_db"
  by (simp add: sample_team_db_def sample_team_def db_wf_def table_ok_def violation_def table_defs sample_rows fits_defs
      key_set_defs opt_ref_def)

lemma sample_team_simps [simp]:
  "committed sample_team_session = sample_team_db" "work sample_team_session = sample_team_db"
  "commit_fault sample_team_session = None"
  "tbl_teams sample_team_db = [sample_team]" "tbl_team_members sample_team_db = []" "user_ids sample_team_db = {1, 2}"
  "tbl_organization_members sample_team_db = tbl_organization_members sample_db"
  by (auto simp: sample_team_session_def sample_team_db_def user_ids_def sample_rows)

definition sample_jobs :: "store job_state" where
  "sample_jobs = app_state.extend (session.extend sample_session (app_state.fields (\<lambda>_. None) False (\<lambda>n. 1000 + int n)
     (\<lambda>n. 7000 + of_nat n) [])) \<lparr>job_queue = []\<rparr>"

lemma invited_address: "py_strip (py_lower '' Bob@b.io'') = ''bob@b.io''"
  by code_simp

definition sample_admin :: tenant_context where
  "sample_admin = \<lparr>ctx_user = sample_user 1 ''ann@a.io'', ctx_organization_id = 10, ctx_role = ADMIN\<rparr>"

section \<open>Cached projects\<close>

lemma request_answer:
  "fst (request J r token org handler s) =
    (case fst (authorize J r token org (s\<lparr>work := committed s\<rparr>)) of
       Inl e \<Rightarrow> Inl e | Inr ctx \<Rightarrow> fst (handler ctx (opened s)))"
  by (simp add: request_cases split: sum.splits prod.splits)

text \<open>
  C27. The project cache is coherent as long as Redis answers and requests do not overlap: every
  entry is what the database holds of the project of that tenant, before and after a read, a creation or
  an update, whatever they answer; and a read through such a cache answers exactly what the
  database holds, to exactly the callers admitted.
\<close>

theorem project_cache_coherent:
  fixes s :: "('r, 'z) app_state_scheme"
  assumes "cache_laws C" and "schema_laws M cacheable" and "cache_coherent C M s"
    and "db_wf (committed s)" and "\<not> redis_down s"
    and "\<forall>p \<in> set (tbl_projects (committed s)). datetime_range (p_created_at p)"
  shows "cache_coherent C M (snd (get_project J C M token org pid s)) \<and>
    cache_coherent C M (snd (post_project J st ast token org pc s)) \<and>
    cache_coherent C M (snd (patch_project J C now ast token org pid u s)) \<and>
    fst (get_project J C M token org pid s) =
      (case fst (authorize J VIEWER token org (s\<lparr>work := committed s\<rparr>)) of
         Inl e \<Rightarrow> Inl e
       | Inr _ \<Rightarrow> (case find (\<lambda>p. p_id p = pid \<and> p_organization_id p = org) (tbl_projects (committed s)) of
           None \<Rightarrow> Inl (EntityNotFoundException ''Project'' (uuid_str pid))
         | Some p \<Rightarrow> Inr (project_response_of p)))"
proof (intro conjI)
  have opened: "committed (opened s) = committed s" "work (opened s) = committed s" "\<not> redis_down (opened s)"
    using assms(5) by (simp_all add: opened_def)
  note read = get_project_coherent [OF assms(1,2), of "opened s", unfolded opened, OF _ assms(4) refl assms(6)]
  show "cache_coherent C M (snd (get_project J C M token org pid s))"
    unfolding get_project_def by (rule request_coherent [OF assms(3,4)]) (use read in blast)
  show "cache_coherent C M (snd (post_project J st ast token org pc s))"
    unfolding post_project_def
    by (rule request_coherent [OF assms(3,4)], rule create_project_coherent) (use opened assms(4) in simp_all)
  show "cache_coherent C M (snd (patch_project J C now ast token org pid u s))"
    unfolding patch_project_def
    by (rule request_coherent [OF assms(3,4)], rule update_project_coherent [OF assms(1)]) (use opened assms(4) in simp_all)
  have "cache_coherent C M (opened s)" by (rule cache_coherent_frame [OF assms(3)]) (simp_all add: opened_def)
  note answer = read [OF this, THEN conjunct1]
  show "fst (get_project J C M token org pid s) =
      (case fst (authorize J VIEWER token org (s\<lparr>work := committed s\<rparr>)) of
         Inl e \<Rightarrow> Inl e
       | Inr _ \<Rightarrow> (case find (\<lambda>p. p_id p = pid \<and> p_organization_id p = org) (tbl_projects (committed s)) of
           None \<Rightarrow> Inl (EntityNotFoundException ''Project'' (uuid_str pid))
         | Some p \<Rightarrow> Inr (project_response_of p)))"
  proof (cases "fst (authorize J VIEWER token org (s\<lparr>work := committed s\<rparr>))")
    case (Inr ctx)
    then have "ctx_organization_id ctx = org"
      using authorize_ok [of "s\<lparr>work := committed s\<rparr>" J VIEWER token org ctx] assms(4) by simp
    then show ?thesis
      using Inr answer [of pid ctx] by (simp add: get_project_def request_answer visible_project_def project_not_found_def split: option.split)
  qed (simp add: get_project_def request_answer)
qed

lemma sample_cache_coherent: "cache_coherent memory_cache M sample_state"
  by (simp add: cache_coherent_def cached_project_def cached_value_def memory_cache_def memory_redis_def redis_api.defs
      cache_api.defs live_def)

lemma project_cache_coherent_witness:
  "fst (get_project plain_jwt memory_cache plain_project_schema sample_access 10 1000 sample_state) =
     Inr (project_response_of (sample_project 1000 10 ''APL''))"
  using project_cache_coherent [OF memory_cache_laws plain_project_schema_laws sample_cache_coherent,
      of plain_jwt sample_access 10 1000]
  by (simp add: sample_project_def datetime_range_def)

text \<open>
  C28. A read that overlaps an update poisons the cache: when a reader has looked a project up,
  an update of it commits and drops the entry, and only then the reader fills the cache, every read
  of the next 300 seconds answers the old project, although the database holds the next version.
\<close>

theorem project_cache_race:
  fixes s :: "('r, 'z) app_state_scheme"
  assumes "cache_laws C" and "schema_laws M cacheable" and "db_wf (committed s)"
    and "\<forall>p \<in> set (tbl_projects (committed s)). datetime_range (p_created_at p)"
    and "ctx_organization_id ctx = org" and "ctx_organization_id ctx' = org"
    and lookup: "get_project_lookup C M pid ctx (s\<lparr>work := committed s\<rparr>) = (Inr (Inr p), s1)"
    and patch: "patch_project J C now ast token org pid u s1 = (Inr r, s2)"
    and fill: "get_project_answer C M pid ctx (Inr p) s2 = (Inr r', s3)"
    and later: "redis s4 = redis s3" "\<not> redis_down s2" "\<not> redis_down s4" "db_wf (work s4)"
      "clock s4 0 < clock s2 0 + 300 * usec_per_sec"
  shows "fst (get_project_handler C M pid ctx' s4) = Inr (project_response_of p) \<and>
    (\<exists>p' \<in> set (tbl_projects (committed s2)). p_id p' = pid \<and> p_organization_id p' = org \<and>
       p_version_id p' = p_version_id p + 1 \<and> r = project_response_of p')"
proof -
  let ?s = "s\<lparr>work := committed s\<rparr>"
  have p: "visible_project org pid (committed s) = Some p" and s1: "committed s1 = committed s"
    using lookup assms(3,5) by (auto simp: get_project_lookup_eq split: option.splits if_splits)
  note up = patch_project_ok [of s1 J C now ast token org pid u r, unfolded s1 patch fst_conv snd_conv, OF assms(3) refl]
  have "cacheable (project_response_of p)"
    using assms(4) visible_project_Some [OF p] by (simp add: cacheable_def project_response_of_def)
  note entry = cached_after_set [OF assms(1,2) this]
  have "redis s3 = set_ex C (clock s2 0) (project_cache_key org pid) (model_dump_json M (project_response_of p)) 300 (redis s2)"
    using fill later(2) assms(5) by (auto simp: get_project_answer_eq Let_def)
  then have "fst (get_project_handler C M pid ctx' s4) = Inr (project_response_of p)"
    using later assms(6) entry by (simp add: get_project_handler_eq Let_def)
  moreover obtain p' where "visible_project org pid (committed s2) = Some p'" "p' = updated_project now u p"
    "r = project_response_of p'"
    using up p by auto
  ultimately show ?thesis
    using visible_project_Some [of org pid "committed s2" p'] visible_project_Some [OF p]
    by (intro conjI bexI [of _ p']) (simp_all add: updated_project_def)
qed

definition sample_owner :: tenant_context where
  "sample_owner = \<lparr>ctx_user = sample_user 2 ''bob@b.io'', ctx_organization_id = 20, ctx_role = OWNER\<rparr>"

definition owner_access :: pystr where
  "owner_access = issued plain_jwt 2 79 ''access'' 900000000 0"

definition looked_up :: "store app_state" where
  "looked_up = sample_state\<lparr>work := sample_db, clock := \<lambda>n. 1001 + int n\<rparr>"

lemma looked_up_simps [simp]:
  "committed looked_up = sample_db" "work looked_up = sample_db" "commit_fault looked_up = None"
  "redis_down looked_up = False" "redis looked_up = (\<lambda>_. None)" "clock looked_up n = 1001 + int n"
  by (simp_all add: looked_up_def)

lemma sample_lookup:
  "get_project_lookup memory_cache M 2000 sample_owner (sample_state\<lparr>work := committed sample_state\<rparr>) =
     (Inr (Inr (sample_project 2000 20 ''BET'')), looked_up)"
  by (subst get_project_lookup_eq)
    (simp_all add: cached_project_def cached_value_def memory_cache_def memory_redis_def redis_api.defs cache_api.defs
      live_def sample_owner_def visible_project_def looked_up_def, simp add: sample_project_def)

lemma owner_authorize:
  "fst (authorize plain_jwt MANAGER owner_access 20 (looked_up\<lparr>work := sample_db\<rparr>)) = Inr sample_owner"
  by (simp add: authorize_def bindE_def require_role_def get_membership_eq membership_def exec_simps sample_member_def
      sample_owner_def owner_access_def get_current_user_issued [OF plain_jwt_laws] expiry_second_def)

lemma sample_patch_run:
  "\<exists>r s2. patch_project plain_jwt memory_cache 7 sample_audit owner_access 20 2000 (sample_rename ''Gemini'') looked_up = (Inr r, s2) \<and>
     \<not> redis_down s2 \<and> clock s2 = (\<lambda>n. 1003 + int n) \<and> db_wf (committed s2)"
proof -
  obtain r s2 where run:
    "patch_project plain_jwt memory_cache 7 sample_audit owner_access 20 2000 (sample_rename ''Gemini'') looked_up = (r, s2)" by force
  have "session_wf (snd (patch_project plain_jwt memory_cache 7 sample_audit owner_access 20 2000 (sample_rename ''Gemini'') looked_up))"
    unfolding patch_project_def
    by (rule preservesD [OF request_wf], rule project_handlers_wf) (simp add: session_wf_def)
  then have "db_wf (committed s2)" by (simp add: run session_wf_def)
  moreover have "visible_project 20 2000 sample_db = Some (sample_project 2000 20 ''BET'')"
    by (simp add: visible_project_def) (simp add: sample_project_def)
  then have "\<exists>x. r = Inr x \<and> \<not> redis_down s2 \<and> clock s2 = (\<lambda>n. 1003 + int n)"
    using run owner_authorize
    by (simp add: patch_project_def request_cases update_project_handler_def bindE_def update_project_eq opened_def
        sample_rename_def fits_int4_def opt_ref_def cache_delete_eq returnE_def rollback_def Let_def sample_owner_def)
      (auto simp: sample_project_def Let_def bindE_def cache_delete_eq returnE_def)
  ultimately show ?thesis using run by auto
qed

lemma project_cache_race_witness:
  "\<exists>s3 :: store app_state. fst (get_project_handler memory_cache plain_project_schema 2000 sample_owner s3) =
     Inr (project_response_of (sample_project 2000 20 ''BET'')) \<and>
     (\<exists>p \<in> set (tbl_projects (committed s3)). p_id p = 2000 \<and> p_version_id p = 2)"
proof -
  obtain r s2 where patch: "patch_project plain_jwt memory_cache 7 sample_audit owner_access 20 2000 (sample_rename ''Gemini'') looked_up = (Inr r, s2)"
    and s2: "\<not> redis_down s2" "clock s2 = (\<lambda>n. 1003 + int n)" "db_wf (committed s2)"
    using sample_patch_run by blast
  obtain r' s3 where fill: "get_project_answer memory_cache plain_project_schema 2000 sample_owner
      (Inr (sample_project 2000 20 ''BET'')) s2 = (Inr r', s3)"
    by (simp add: get_project_answer_eq)
  have s3: "committed s3 = committed s2" "\<not> redis_down s3" "clock s3 = (\<lambda>n. 1004 + int n)"
    using fill s2 by (auto simp: get_project_answer_eq Let_def)
  let ?s4 = "s3\<lparr>work := committed s3\<rparr>"
  have race: "fst (get_project_handler memory_cache plain_project_schema 2000 sample_owner ?s4) =
      Inr (project_response_of (sample_project 2000 20 ''BET'')) \<and>
    (\<exists>p' \<in> set (tbl_projects (committed s2)). p_id p' = 2000 \<and> p_organization_id p' = 20 \<and>
       p_version_id p' = p_version_id (sample_project 2000 20 ''BET'') + 1 \<and> r = project_response_of p')"
    by (rule project_cache_race [OF memory_cache_laws plain_project_schema_laws _ _ _ _ sample_lookup patch fill])
      (use s2 s3 in \<open>simp_all add: sample_owner_def sample_project_def datetime_range_def\<close>)
  then show ?thesis using s3(1) by (intro exI [of _ ?s4]) (auto simp: sample_project_def)
qed

section \<open>Teams and members\<close>

text \<open>
  Adding a member to a team on every branch: a team the tenant does not have and an unknown user
  are a 404, a user who is in the team already breaks a constraint (a 500 to the caller), all
  without effect; otherwise exactly one membership row is committed. Any user of the platform is
  accepted, a member of the organization or not.
\<close>

lemma add_member_spec:
  assumes "db_wf (work s)" and "commit_fault s = None" and "st_id st \<notin> tmm_id ` set (tbl_team_members (work s))"
  shows "add_member st org tid u s =
    (if \<not> (\<exists>t \<in> set (tbl_teams (work s)). tm_id t = tid \<and> tm_organization_id t = org)
     then (Inl (EntityNotFoundException ''Team'' (uuid_str tid)), rollback s)
     else if u \<notin> user_ids (work s) then (Inl (EntityNotFoundException ''User'' (uuid_str u)), rollback s)
     else if \<exists>m \<in> set (tbl_team_members (work s)). tmm_team_id m = tid \<and> tmm_user_id m = u
     then (Inl IntegrityError, rollback s)
     else let d = (work s)\<lparr>tbl_team_members := tbl_team_members (work s) @
                [\<lparr>tmm_id = st_id st, tmm_organization_id = org, tmm_team_id = tid, tmm_user_id = u,
                  tmm_created_at = st_created_at st, tmm_updated_at = st_updated_at st\<rparr>]\<rparr>
          in (Inr (), s\<lparr>work := d, committed := d\<rparr>))"
proof -
  have "visible_team org tid (work s) = None \<longleftrightarrow>
      \<not> (\<exists>t \<in> set (tbl_teams (work s)). tm_id t = tid \<and> tm_organization_id t = org)"
    by (auto simp: visible_team_def find_None_iff)
  then show ?thesis
    using add_member_eq [OF assms, of org tid u] by (simp only: team_not_found_def new_team_member_def)
qed

text \<open>In the sample, user 2 belongs to another organization.\<close>

lemma add_member_spec_witness:
  "fst (add_member sample_stamp 10 300 2 sample_team_session) = Inr () \<and>
   membership 10 2 (work sample_team_session) = None \<and>
   fst (add_member sample_stamp 20 300 2 sample_team_session) = Inl (EntityNotFoundException ''Team'' (uuid_str 300))"
  by (simp add: add_member_spec membership_def Let_def) (simp add: sample_team_def sample_rows)

text \<open>
  C29. Inviting on every branch, for a caller admitted as an administrator: an address without an account
  is a 404, a user who is a member already a 409, without effect; otherwise exactly one membership
  with the role the payload names is committed and the invitation is queued. The role is not
  compared with the caller's: an ADMIN can make an OWNER.
\<close>

theorem invite_member_spec:
  assumes "db_wf (work s)" and "commit_fault s = None" and "\<not> redis_down s"
    and "g \<in> set (tbl_organizations (work s))" and "o_id g = ctx_organization_id ctx"
    and "st_id st \<notin> m_id ` set (tbl_organization_members (work s))"
  shows "invite_member_handler st iv ctx s =
    (case find (\<lambda>u. u_email u = py_strip (py_lower (mi_email iv))) (tbl_users (work s)) of
       None \<Rightarrow> (Inl (EntityNotFoundException ''User'' (mi_email iv)), s)
     | Some u \<Rightarrow>
         if \<exists>m \<in> set (tbl_organization_members (work s)).
              m_organization_id m = ctx_organization_id ctx \<and> m_user_id m = u_id u
         then (Inl (EntityConflictException ''User is already a member of this organization.''), s)
         else let m = \<lparr>m_id = st_id st, m_organization_id = ctx_organization_id ctx, m_user_id = u_id u,
                       m_role = mi_role iv, m_created_at = st_created_at st, m_updated_at = st_updated_at st\<rparr>;
                  d = (work s)\<lparr>tbl_organization_members := tbl_organization_members (work s) @ [m]\<rparr>
              in (Inr (member_response_of m u),
                  s\<lparr>work := d, committed := d, job_queue := job_queue s @
                    [(''send_invitation_email'', [u_email u, o_name g, u_full_name (ctx_user ctx)])]\<rparr>))"
proof -
  have g: "find (\<lambda>g. o_id g = ctx_organization_id ctx) (tbl_organizations (work s)) = Some g"
    using find_Some_distinct [OF organizations_tbl.pk_distinct [OF assms(1)], of g] assms(4,5) by simp
  have "membership org i (work s) = None \<longleftrightarrow>
      \<not> (\<exists>m \<in> set (tbl_organization_members (work s)). m_organization_id m = org \<and> m_user_id m = i)" for org i
    by (auto simp: membership_def find_None_iff)
  then show ?thesis
    unfolding invite_member_handler_eq [OF assms(1-3) g assms(6)]
    by (simp add: user_with_email_def normal_email_def already_member_def new_member_def Let_def split: option.splits) blast
qed

lemma invite_member_spec_witness:
  "\<exists>r. fst (invite_member_handler sample_stamp \<lparr>mi_email = '' Bob@b.io'', mi_role = OWNER\<rparr> sample_admin sample_jobs) = Inr r \<and>
     mr_role r = OWNER \<and> mr_user_id r = 2"
  by (subst invite_member_spec [where g = "sample_org 10 ''alpha''"])
    (simp_all add: invited_address sample_jobs_def sample_admin_def session.defs app_state.defs sample_stamp_def, simp_all add: sample_rows member_response_of_def Let_def)

section \<open>Attachments\<close>

text \<open>
  C30. Confirming an upload on every branch, for an admitted caller: a task the tenant does not have,
  or a deleted one, is a 404 and a value its column cannot hold a 500, without effect; otherwise exactly one row is
  committed under the caller's tenant and name, with the file name, size, type and object key as
  the client states them, and the answer carries a download URL signed for that very key,
  whatever tenant's object it names.
\<close>

theorem confirm_attachment_spec:
  assumes "db_wf (work s)" and "commit_fault s = None"
    and "u_id (ctx_user ctx) \<in> user_ids (work s)" and "st_id st \<notin> a_id ` set (tbl_attachments (work s))"
  shows "confirm_attachment_handler S bucket st tid p ctx s =
    (if \<not> (\<exists>t \<in> set (tbl_tasks (work s)). t_id t = tid \<and> t_organization_id t = ctx_organization_id ctx \<and> \<not> t_is_deleted t)
     then (Inl (EntityNotFoundException ''Task'' (uuid_str tid)), s)
     else if 255 < length (ac_file_name p) \<or> \<not> fits_int8 (ac_file_size p) \<or> 100 < length (ac_content_type p) \<or> 1024 < length (ac_s3_key p)
     then (Inl DataError, s)
     else let a = \<lparr>a_id = st_id st, a_organization_id = ctx_organization_id ctx, a_task_id = tid,
                   a_uploader_id = u_id (ctx_user ctx), a_file_name = ac_file_name p, a_file_size = ac_file_size p,
                   a_content_type = ac_content_type p, a_s3_key = ac_s3_key p, a_created_at = st_created_at st,
                   a_updated_at = st_updated_at st\<rparr>;
              d = (work s)\<lparr>tbl_attachments := tbl_attachments (work s) @ [a]\<rparr>
          in (case presign_get S bucket (ac_s3_key p) 3600 of
                Inl e \<Rightarrow> Inl e | Inr url \<Rightarrow> Inr (attachment_response_of a url),
              s\<lparr>work := d, committed := d\<rparr>))"
proof (cases "visible_task (ctx_organization_id ctx) tid (work s)")
  case None
  then have "\<not> (\<exists>t \<in> set (tbl_tasks (work s)). t_id t = tid \<and> t_organization_id t = ctx_organization_id ctx \<and> \<not> t_is_deleted t)"
    by (auto simp: visible_task_def find_None_iff)
  with None show ?thesis by (simp add: confirm_attachment_handler_eq [OF assms] task_not_found_def)
next
  case (Some t)
  then have "\<exists>t \<in> set (tbl_tasks (work s)). t_id t = tid \<and> t_organization_id t = ctx_organization_id ctx \<and> \<not> t_is_deleted t"
    using visible_task_iff [OF assms(1)] by blast
  with Some show ?thesis
    by (auto simp: confirm_attachment_handler_eq [OF assms] confirm_fits_def fits_defs new_attachment_def Let_def
        split: sum.splits)
qed

definition sample_s3 :: s3_api where
  "sample_s3 = \<lparr>presign_put = (\<lambda>b k c n. Inr k), presign_get = (\<lambda>b k n. Inr k)\<rparr>"

definition sample_confirm :: attachment_confirm where
  "sample_confirm = \<lparr>ac_file_name = ''a.pdf'', ac_file_size = 4, ac_content_type = ''application/pdf'',
     ac_s3_key = ''beta/secret.pdf''\<rparr>"

lemma confirm_attachment_spec_witness:
  "map_sum id ar_download_url (fst (confirm_attachment_handler sample_s3 ''files'' sample_stamp 5000 sample_confirm sample_ctx sample_session)) =
     Inr (Some ''beta/secret.pdf'')"
  by (subst confirm_attachment_spec)
    (simp_all add: sample_s3_def sample_confirm_def sample_task_def fits_int8_def attachment_response_of_def Let_def)

section \<open>The audit trail\<close>

text \<open>
  C31. An audit query shows the tenant's trail and nothing else: there is one listing, newest first,
  of exactly the entries of the organization that pass every filter given, such that each page is its
  slice and reports its length, with the actor's name where the user still exists.
\<close>

theorem audit_query_exact:
  assumes "row_order scan"
  shows "\<exists>listing.
    mset listing = filter_mset (audit_criteria (ctx_organization_id ctx) filters) (mset (tbl_audit_logs (work s))) \<and>
    sorted_wrt (\<lambda>x y. al_timestamp y \<le> al_timestamp x) listing \<and>
    (\<forall>l \<in> set listing. al_organization_id l = ctx_organization_id ctx) \<and>
    (\<forall>page n. query_audit_logs_handler scan filters page n ctx s =
      (Inr \<lparr>op_items = map (audit_response_of (work s)) (take n (drop ((page - 1) * n) listing)),
            op_total = length listing, op_page = page, op_page_size = n,
            op_total_pages = total_pages (length listing) n\<rparr>, s))"
proof -
  let ?rows = "tbl_audit_logs (work s)" and ?org = "ctx_organization_id ctx"
  let ?listing = "audit_listing scan ?org filters ?rows"
  note m = audit_listing_mset [OF assms, of ?org filters ?rows]
  have "length ?listing = length (filter (audit_criteria ?org filters) ?rows)"
    using arg_cong [OF m, of size] by (simp flip: mset_filter)
  moreover have "al_organization_id l = ?org" if "l \<in> set ?listing" for l
    using that by (auto simp: audit_listing_def audit_criteria_def)
  ultimately show ?thesis
    using m audit_listing_sorted [of scan ?org filters ?rows]
    by (intro exI [of _ ?listing]) (simp add: query_audit_logs_handler_eq Let_def)
qed

definition sample_entry :: "uuid \<Rightarrow> uuid \<Rightarrow> instant \<Rightarrow> audit_log" where
  "sample_entry i org t = \<lparr>al_id = i, al_organization_id = org, al_actor_id = Some 1, al_entity_type = ''Task'',
     al_entity_id = 5000, al_action = AUDIT_UPDATE, al_before_state = None, al_after_state = None, al_ip_address = None,
     al_user_agent = None, al_timestamp = t\<rparr>"

definition sample_trail :: session where
  "sample_trail = sample_session\<lparr>work := sample_db\<lparr>tbl_audit_logs :=
     [sample_entry 1 10 3, sample_entry 2 20 4, sample_entry 3 10 5]\<rparr>\<rparr>"

definition any_entry :: audit_filters where
  "any_entry = \<lparr>af_entity_type = None, af_entity_id = None, af_actor_id = None, af_action = None,
     af_start_date = None, af_end_date = None\<rparr>"

lemma audit_query_exact_witness:
  "\<exists>r. fst (query_audit_logs_handler rev any_entry 1 20 sample_ctx sample_trail) = Inr r \<and> op_total r = 2"
proof -
  have "row_order (rev :: audit_log list \<Rightarrow> audit_log list)" by (simp add: row_order_def)
  from audit_query_exact [OF this, of sample_ctx any_entry sample_trail]
  obtain listing where m: "mset listing = filter_mset (audit_criteria 10 any_entry) (mset (tbl_audit_logs (work sample_trail)))"
    and r: "\<And>page n. query_audit_logs_handler rev any_entry page n sample_ctx sample_trail =
      (Inr \<lparr>op_items = map (audit_response_of (work sample_trail)) (take n (drop ((page - 1) * n) listing)),
            op_total = length listing, op_page = page, op_page_size = n,
            op_total_pages = total_pages (length listing) n\<rparr>, sample_trail)"
    by auto
  from arg_cong [OF m, of size] have "length listing = 2"
    by (simp add: sample_trail_def sample_entry_def audit_criteria_def any_entry_def)
  with r [of 1 20] show ?thesis by simp
qed

section \<open>The sweeper\<close>

text \<open>
  C32. The sweeper removes exactly what has expired and what hangs on it: on a well-formed database
  whose COMMIT succeeds, a task stays if and only if neither it nor any of its ancestors was soft-deleted
  before the threshold, a comment or an attachment if and only if its task does, every other table is
  untouched and the database stays well-formed. The number answered counts the expired tasks
  alone: a live subtask goes with its parent and is not counted.
\<close>

theorem sweep_spec:
  fixes s :: "('r, 'z) app_state_scheme"
  assumes "db_wf (committed s)" and "commit_fault s = None"
    and "cutoff = clock s 0 - n * 86400 * usec_per_sec"
    and "cleanup_soft_deleted_tasks_job n s = (r, s')"
  shows "r = Inr (length (filter (\<lambda>t. t_is_deleted t \<and> (\<exists>d. t_deleted_at t = Some d \<and> d \<le> cutoff)) (tbl_tasks (committed s)))) \<and>
    tbl_tasks (committed s') = filter (\<lambda>t. \<not> (\<exists>q. (\<lambda>t q. parent_of (tbl_tasks (committed s)) t = Some q)\<^sup>*\<^sup>* t q \<and>
       t_is_deleted q \<and> (\<exists>d. t_deleted_at q = Some d \<and> d \<le> cutoff))) (tbl_tasks (committed s)) \<and>
    tbl_comments (committed s') = filter (\<lambda>c. c_task_id c \<in> task_ids (committed s')) (tbl_comments (committed s)) \<and>
    tbl_attachments (committed s') = filter (\<lambda>a. a_task_id a \<in> task_ids (committed s')) (tbl_attachments (committed s)) \<and>
    (committed s')\<lparr>tbl_tasks := [], tbl_comments := [], tbl_attachments := []\<rparr> =
      (committed s)\<lparr>tbl_tasks := [], tbl_comments := [], tbl_attachments := []\<rparr> \<and>
    db_wf (committed s')"
proof -
  have e: "expired cutoff = (\<lambda>t. t_is_deleted t \<and> (\<exists>d. t_deleted_at t = Some d \<and> d \<le> cutoff))"
    by (auto simp: expired_def fun_eq_iff split: option.splits)
  have run: "r = Inr (length (filter (expired cutoff) (tbl_tasks (committed s))))" "committed s' = purge cutoff (committed s)"
    using assms(2,4) by (auto simp: cleanup_eq Let_def assms(3))
  have rest: "(purge cutoff d)\<lparr>tbl_tasks := [], tbl_comments := [], tbl_attachments := []\<rparr> =
      d\<lparr>tbl_tasks := [], tbl_comments := [], tbl_attachments := []\<rparr>" for d
    by (simp add: purge_def Let_def)
  show ?thesis
    using purge_wf [OF assms(1), of cutoff] purge_comments [of cutoff "committed s"] purge_attachments [of cutoff "committed s"]
    by (simp add: run rest purge_tasks swept_def ancestor_def e)
qed

definition sample_doomed :: database where
  "sample_doomed = sample_db\<lparr>tbl_tasks := [(sample_task 5000 10 1000 1)\<lparr>t_is_deleted := True, t_deleted_at := Some (- 9)\<rparr>,
     (sample_task 5001 10 1000 1)\<lparr>t_parent_id := Some 5000\<rparr>, sample_task 6000 20 2000 2]\<rparr>"

lemma sample_doomed_wf: "db_wf sample_doomed"
  by (simp add: sample_doomed_def db_wf_def table_ok_def violation_def table_defs sample_rows fits_defs key_set_defs opt_ref_def)

text \<open>A live subtask of an expired task is deleted, and only one task is reported.\<close>

lemma sweep_spec_witness:
  "\<exists>s'. cleanup_soft_deleted_tasks_job 0 (sample_state\<lparr>committed := sample_doomed\<rparr>) = (Inr 1, s') \<and>
     5001 \<notin> task_ids (committed s')"
proof -
  let ?s = "sample_state\<lparr>committed := sample_doomed\<rparr>" and ?ts = "tbl_tasks sample_doomed"
  obtain r s' where run: "cleanup_soft_deleted_tasks_job 0 ?s = (r, s')" by force
  have "db_wf (committed ?s)" "commit_fault ?s = None" by (simp_all add: sample_doomed_wf)
  note spec = sweep_spec [OF this refl run]
  let ?p = "(sample_task 5000 10 1000 1)\<lparr>t_is_deleted := True, t_deleted_at := Some (- 9)\<rparr>"
  let ?c = "(sample_task 5001 10 1000 1)\<lparr>t_parent_id := Some 5000\<rparr>"
  have "parent_of ?ts ?c = Some ?p"
    by (simp add: parent_of_def sample_doomed_def sample_task_def)
  then have "(\<lambda>t q. parent_of ?ts t = Some q)\<^sup>*\<^sup>* ?c ?p" by (rule r_into_rtranclp)
  then have "\<exists>q. (\<lambda>t q. parent_of ?ts t = Some q)\<^sup>*\<^sup>* ?c q \<and> t_is_deleted q \<and>
      (\<exists>d. t_deleted_at q = Some d \<and> d \<le> clock ?s 0 - 0 * 86400 * usec_per_sec)"
    by (intro exI [of _ ?p] conjI) simp_all
  then have "?c \<notin> set (tbl_tasks (committed s'))"
    using spec [THEN conjunct2, THEN conjunct1] by simp blast
  moreover have "t = ?c" if "t \<in> set ?ts" "t_id t = 5001" for t
    using that by (auto simp: sample_doomed_def sample_task_def)
  moreover have "set (tbl_tasks (committed s')) \<subseteq> set ?ts" using spec by auto
  ultimately have "5001 \<notin> task_ids (committed s')" by (auto simp: task_ids_def)
  then show ?thesis using spec run by (intro exI [of _ s']) (simp add: sample_doomed_def sample_task_def)
qed

end
