(* ===== verification/Migrations.thy ===== *)
theory Migrations
  imports PyText
begin

text \<open>
  The schema migrations (\<open>alembic/versions\<close>) as data, the statements they issue on a PostgreSQL
  schema, and the schema the model classes declare (\<open>app/models\<close>), which the migrations are to build.
\<close>

section \<open>Schemas\<close>

datatype col_type =
    Uuid | String nat | Text | Boolean | Integer | BigInteger | DateTime | JSONB
  | Enum pystr "pystr list"

record column =
  col_name :: pystr
  col_type :: col_type
  col_nullable :: bool
  col_server_default :: "pystr option"

datatype on_delete = CASCADE | SET_NULL | RESTRICT

record foreign_key =
  fk_column :: pystr
  fk_table :: pystr
  fk_ref :: pystr
  fk_ondelete :: on_delete

record table_def =
  td_name :: pystr
  td_columns :: "column list"
  td_foreign_keys :: "foreign_key list"
  td_primary_key :: "pystr list"
  td_uniques :: "(pystr \<times> pystr list) list"

record index_def =
  ix_name :: pystr
  ix_table :: pystr
  ix_columns :: "pystr list"
  ix_unique :: bool

text \<open>\<open>sc_occupied\<close> names the tables that hold rows, which is all the statements depend on.\<close>

record schema_state =
  sc_tables :: "table_def list"
  sc_indexes :: "index_def list"
  sc_types :: "(pystr \<times> pystr list) list"
  sc_occupied :: "pystr list"

definition empty_schema :: schema_state where
  "empty_schema = \<lparr>sc_tables = [], sc_indexes = [], sc_types = [], sc_occupied = []\<rparr>"

section \<open>Operations\<close>

datatype op =
    create_table table_def
  | create_index index_def
  | drop_index pystr
  | drop_table pystr
  | add_column pystr column
  | drop_column pystr pystr

datatype ddl_error =
    DuplicateTable | DuplicateObject | DuplicateColumn | UndefinedTable | UndefinedColumn
  | UndefinedObject | InvalidForeignKey | DependentObjects | NotNullViolation

text \<open>The enumeration types of a table's columns.\<close>

definition enum_types :: "table_def \<Rightarrow> (pystr \<times> pystr list) list" where
  "enum_types t = List.map_filter (\<lambda>c. case col_type c of Enum n vs \<Rightarrow> Some (n, vs) | _ \<Rightarrow> None) (td_columns t)"

definition has_column :: "table_def \<Rightarrow> pystr \<Rightarrow> bool" where
  "has_column t c \<longleftrightarrow> c \<in> set (map col_name (td_columns t))"

text \<open>A foreign key points to a table that is there, or to its own, and to its primary key.\<close>

definition fk_ok :: "table_def list \<Rightarrow> table_def \<Rightarrow> foreign_key \<Rightarrow> bool" where
  "fk_ok ts t f \<longleftrightarrow> has_column t (fk_column f) \<and>
     list_ex (\<lambda>q. td_name q = fk_table f \<and> td_primary_key q = [fk_ref f]) (t # ts)"

text \<open>
  The statements. \<open>op.create_table\<close> first creates the named enumeration types of its columns,
  without asking whether they exist; \<open>op.drop_table\<close> knows the name only, so it drops the
  table with its indexes and leaves the types.
\<close>

fun run_op :: "op \<Rightarrow> schema_state \<Rightarrow> ddl_error + schema_state" where
  "run_op (create_table t) s =
     (if list_ex (\<lambda>n. list_ex (\<lambda>q. fst q = n) (sc_types s)) (map fst (enum_types t)) \<or> \<not> distinct (map fst (enum_types t))
      then Inl DuplicateObject
      else if list_ex (\<lambda>q. td_name q = td_name t) (sc_tables s) then Inl DuplicateTable
      else if \<not> distinct (map col_name (td_columns t)) then Inl DuplicateColumn
      else if \<not> list_all (has_column t) (td_primary_key t @ concat (map snd (td_uniques t))) then Inl UndefinedColumn
      else if \<not> list_all (fk_ok (sc_tables s) t) (td_foreign_keys t) then Inl InvalidForeignKey
      else Inr (s\<lparr>sc_tables := sc_tables s @ [t], sc_types := sc_types s @ enum_types t\<rparr>))"
| "run_op (create_index i) s =
     (if list_ex (\<lambda>q. ix_name q = ix_name i) (sc_indexes s) then Inl DuplicateObject
      else case find (\<lambda>t. td_name t = ix_table i) (sc_tables s) of
             None \<Rightarrow> Inl UndefinedTable
           | Some t \<Rightarrow> if list_all (has_column t) (ix_columns i) then Inr (s\<lparr>sc_indexes := sc_indexes s @ [i]\<rparr>)
                       else Inl UndefinedColumn)"
| "run_op (drop_index n) s =
     (if list_ex (\<lambda>q. ix_name q = n) (sc_indexes s)
      then Inr (s\<lparr>sc_indexes := filter (\<lambda>q. ix_name q \<noteq> n) (sc_indexes s)\<rparr>)
      else Inl UndefinedObject)"
| "run_op (drop_table n) s =
     (if \<not> list_ex (\<lambda>t. td_name t = n) (sc_tables s) then Inl UndefinedTable
      else if list_ex (\<lambda>t. td_name t \<noteq> n \<and> list_ex (\<lambda>f. fk_table f = n) (td_foreign_keys t)) (sc_tables s)
           then Inl DependentObjects
      else Inr (s\<lparr>sc_tables := filter (\<lambda>t. td_name t \<noteq> n) (sc_tables s),
                  sc_indexes := filter (\<lambda>i. ix_table i \<noteq> n) (sc_indexes s),
                  sc_occupied := filter (\<lambda>m. m \<noteq> n) (sc_occupied s)\<rparr>))"
| "run_op (add_column n c) s =
     (case find (\<lambda>t. td_name t = n) (sc_tables s) of
        None \<Rightarrow> Inl UndefinedTable
      | Some t \<Rightarrow>
          if has_column t (col_name c) then Inl DuplicateColumn
          else if \<not> col_nullable c \<and> col_server_default c = None \<and> list_ex (\<lambda>m. m = n) (sc_occupied s)
               then Inl NotNullViolation
          else Inr (s\<lparr>sc_tables := map (\<lambda>t. if td_name t = n then t\<lparr>td_columns := td_columns t @ [c]\<rparr> else t) (sc_tables s)\<rparr>))"
| "run_op (drop_column n c) s =
     (case find (\<lambda>t. td_name t = n) (sc_tables s) of
        None \<Rightarrow> Inl UndefinedTable
      | Some t \<Rightarrow>
          if \<not> has_column t c then Inl UndefinedColumn
          else Inr (s\<lparr>sc_tables := map (\<lambda>t. if td_name t = n
                                       then t\<lparr>td_columns := filter (\<lambda>k. col_name k \<noteq> c) (td_columns t)\<rparr> else t) (sc_tables s)\<rparr>))"

text \<open>A migration runs in one transaction: its first failing statement is all that is left of it.\<close>

fun run_ops :: "op list \<Rightarrow> schema_state \<Rightarrow> ddl_error + schema_state" where
  "run_ops [] s = Inr s"
| "run_ops (p # ps) s = (case run_op p s of Inl e \<Rightarrow> Inl e | Inr s' \<Rightarrow> run_ops ps s')"

lemma run_ops_append:
  "run_ops (ps @ qs) s = (case run_ops ps s of Inl e \<Rightarrow> Inl e | Inr s' \<Rightarrow> run_ops qs s')"
  by (induction ps arbitrary: s) (auto split: sum.splits)

section \<open>The two revisions\<close>

text \<open>Columns and keys as the migration files write them.\<close>

definition col :: "pystr \<Rightarrow> col_type \<Rightarrow> bool \<Rightarrow> column" where
  "col n ty nullable = \<lparr>col_name = n, col_type = ty, col_nullable = nullable, col_server_default = None\<rparr>"

definition foreign :: "pystr \<Rightarrow> pystr \<Rightarrow> pystr \<Rightarrow> on_delete \<Rightarrow> foreign_key" where
  "foreign c t r act = \<lparr>fk_column = c, fk_table = t, fk_ref = r, fk_ondelete = act\<rparr>"

definition index :: "pystr \<Rightarrow> pystr \<Rightarrow> pystr list \<Rightarrow> index_def" where
  "index n t cs = \<lparr>ix_name = n, ix_table = t, ix_columns = cs, ix_unique = False\<rparr>"

definition unique_index :: "pystr \<Rightarrow> pystr \<Rightarrow> pystr list \<Rightarrow> index_def" where
  "unique_index n t cs = \<lparr>ix_name = n, ix_table = t, ix_columns = cs, ix_unique = True\<rparr>"

definition organizations_table :: table_def where
  "organizations_table = \<lparr>td_name = ''organizations'',
     td_columns = [
       col ''id'' Uuid False,
       col ''name'' (String 100) False,
       col ''slug'' (String 100) False,
       col ''logo_url'' (String 1024) True,
       col ''is_active'' Boolean False,
       col ''created_at'' DateTime False,
       col ''updated_at'' DateTime False],
     td_foreign_keys = [],
     td_primary_key = [''id''], td_uniques = []\<rparr>"

definition users_table :: table_def where
  "users_table = \<lparr>td_name = ''users'',
     td_columns = [
       col ''id'' Uuid False,
       col ''email'' (String 255) False,
       col ''hashed_password'' (String 255) False,
       col ''full_name'' (String 100) False,
       col ''avatar_url'' (String 1024) True,
       col ''is_active'' Boolean False,
       col ''is_verified'' Boolean False,
       col ''created_at'' DateTime False,
       col ''updated_at'' DateTime False],
     td_foreign_keys = [],
     td_primary_key = [''id''], td_uniques = []\<rparr>"

definition audit_logs_table :: table_def where
  "audit_logs_table = \<lparr>td_name = ''audit_logs'',
     td_columns = [
       col ''id'' Uuid False,
       col ''organization_id'' Uuid False,
       col ''actor_id'' Uuid True,
       col ''entity_type'' (String 50) False,
       col ''entity_id'' Uuid False,
       col ''action'' (Enum ''audit_action_enum'' [''CREATE'', ''UPDATE'', ''DELETE'', ''SOFT_DELETE'', ''RESTORE'']) False,
       col ''before_state'' JSONB True,
       col ''after_state'' JSONB True,
       col ''ip_address'' (String 45) True,
       col ''user_agent'' (String 512) True,
       col ''timestamp'' DateTime False],
     td_foreign_keys = [
       foreign ''actor_id'' ''users'' ''id'' SET_NULL,
       foreign ''organization_id'' ''organizations'' ''id'' CASCADE],
     td_primary_key = [''id''], td_uniques = []\<rparr>"

definition notifications_table :: table_def where
  "notifications_table = \<lparr>td_name = ''notifications'',
     td_columns = [
       col ''id'' Uuid False,
       col ''organization_id'' Uuid False,
       col ''user_id'' Uuid False,
       col ''actor_id'' Uuid True,
       col ''title'' (String 255) False,
       col ''body'' (String 1024) False,
       col ''event_type'' (Enum ''notification_type_enum'' [''TASK_ASSIGNED'', ''TASK_STATUS_CHANGED'', ''TASK_COMMENTED'', ''ORG_INVITATION'', ''ROLE_UPDATED'']) False,
       col ''is_read'' Boolean False,
       col ''read_at'' DateTime True,
       col ''resource_type'' (String 50) True,
       col ''resource_id'' Uuid True,
       col ''created_at'' DateTime False,
       col ''updated_at'' DateTime False],
     td_foreign_keys = [
       foreign ''actor_id'' ''users'' ''id'' SET_NULL,
       foreign ''organization_id'' ''organizations'' ''id'' CASCADE,
       foreign ''user_id'' ''users'' ''id'' CASCADE],
     td_primary_key = [''id''], td_uniques = []\<rparr>"

definition organization_members_table :: table_def where
  "organization_members_table = \<lparr>td_name = ''organization_members'',
     td_columns = [
       col ''id'' Uuid False,
       col ''organization_id'' Uuid False,
       col ''user_id'' Uuid False,
       col ''role'' (Enum ''org_role_enum'' [''OWNER'', ''ADMIN'', ''MANAGER'', ''MEMBER'', ''VIEWER'']) False,
       col ''created_at'' DateTime False,
       col ''updated_at'' DateTime False],
     td_foreign_keys = [
       foreign ''organization_id'' ''organizations'' ''id'' CASCADE,
       foreign ''user_id'' ''users'' ''id'' CASCADE],
     td_primary_key = [''id''], td_uniques = [(''uq_org_member_user'', [''organization_id'', ''user_id''])]\<rparr>"

definition teams_table :: table_def where
  "teams_table = \<lparr>td_name = ''teams'',
     td_columns = [
       col ''id'' Uuid False,
       col ''organization_id'' Uuid False,
       col ''name'' (String 100) False,
       col ''slug'' (String 100) False,
       col ''description'' Text True,
       col ''created_at'' DateTime False,
       col ''updated_at'' DateTime False],
     td_foreign_keys = [
       foreign ''organization_id'' ''organizations'' ''id'' CASCADE],
     td_primary_key = [''id''], td_uniques = [(''uq_team_org_slug'', [''organization_id'', ''slug''])]\<rparr>"

definition projects_table :: table_def where
  "projects_table = \<lparr>td_name = ''projects'',
     td_columns = [
       col ''id'' Uuid False,
       col ''organization_id'' Uuid False,
       col ''team_id'' Uuid True,
       col ''name'' (String 100) False,
       col ''key'' (String 10) False,
       col ''description'' Text True,
       col ''is_archived'' Boolean False,
       col ''created_at'' DateTime False,
       col ''updated_at'' DateTime False],
     td_foreign_keys = [
       foreign ''organization_id'' ''organizations'' ''id'' CASCADE,
       foreign ''team_id'' ''teams'' ''id'' SET_NULL],
     td_primary_key = [''id''], td_uniques = [(''uq_project_org_key'', [''organization_id'', ''key''])]\<rparr>"

definition team_members_table :: table_def where
  "team_members_table = \<lparr>td_name = ''team_members'',
     td_columns = [
       col ''id'' Uuid False,
       col ''organization_id'' Uuid False,
       col ''team_id'' Uuid False,
       col ''user_id'' Uuid False,
       col ''created_at'' DateTime False,
       col ''updated_at'' DateTime False],
     td_foreign_keys = [
       foreign ''organization_id'' ''organizations'' ''id'' CASCADE,
       foreign ''team_id'' ''teams'' ''id'' CASCADE,
       foreign ''user_id'' ''users'' ''id'' CASCADE],
     td_primary_key = [''id''], td_uniques = [(''uq_team_member_user'', [''team_id'', ''user_id''])]\<rparr>"

definition tasks_table :: table_def where
  "tasks_table = \<lparr>td_name = ''tasks'',
     td_columns = [
       col ''id'' Uuid False,
       col ''organization_id'' Uuid False,
       col ''project_id'' Uuid False,
       col ''parent_id'' Uuid True,
       col ''reporter_id'' Uuid False,
       col ''assignee_id'' Uuid True,
       col ''title'' (String 255) False,
       col ''description'' Text True,
       col ''status'' (Enum ''task_status_enum'' [''BACKLOG'', ''TODO'', ''IN_PROGRESS'', ''IN_REVIEW'', ''DONE'']) False,
       col ''priority'' (Enum ''task_priority_enum'' [''LOW'', ''MEDIUM'', ''HIGH'', ''URGENT'']) False,
       col ''due_date'' DateTime True,
       col ''version_id'' Integer False,
       col ''created_at'' DateTime False,
       col ''updated_at'' DateTime False,
       col ''is_deleted'' Boolean False,
       col ''deleted_at'' DateTime True],
     td_foreign_keys = [
       foreign ''assignee_id'' ''users'' ''id'' SET_NULL,
       foreign ''organization_id'' ''organizations'' ''id'' CASCADE,
       foreign ''parent_id'' ''tasks'' ''id'' CASCADE,
       foreign ''project_id'' ''projects'' ''id'' CASCADE,
       foreign ''reporter_id'' ''users'' ''id'' RESTRICT],
     td_primary_key = [''id''], td_uniques = []\<rparr>"

definition attachments_table :: table_def where
  "attachments_table = \<lparr>td_name = ''attachments'',
     td_columns = [
       col ''id'' Uuid False,
       col ''organization_id'' Uuid False,
       col ''task_id'' Uuid False,
       col ''uploader_id'' Uuid False,
       col ''file_name'' (String 255) False,
       col ''file_size'' BigInteger False,
       col ''content_type'' (String 100) False,
       col ''s3_key'' (String 1024) False,
       col ''created_at'' DateTime False,
       col ''updated_at'' DateTime False],
     td_foreign_keys = [
       foreign ''organization_id'' ''organizations'' ''id'' CASCADE,
       foreign ''task_id'' ''tasks'' ''id'' CASCADE,
       foreign ''uploader_id'' ''users'' ''id'' RESTRICT],
     td_primary_key = [''id''], td_uniques = []\<rparr>"

definition comments_table :: table_def where
  "comments_table = \<lparr>td_name = ''comments'',
     td_columns = [
       col ''id'' Uuid False,
       col ''organization_id'' Uuid False,
       col ''task_id'' Uuid False,
       col ''author_id'' Uuid False,
       col ''content'' Text False,
       col ''is_edited'' Boolean False,
       col ''created_at'' DateTime False,
       col ''updated_at'' DateTime False],
     td_foreign_keys = [
       foreign ''author_id'' ''users'' ''id'' CASCADE,
       foreign ''organization_id'' ''organizations'' ''id'' CASCADE,
       foreign ''task_id'' ''tasks'' ''id'' CASCADE],
     td_primary_key = [''id''], td_uniques = []\<rparr>"

definition core_upgrade :: "op list" where
  "core_upgrade = [
     create_table organizations_table,
     create_index (unique_index ''ix_organizations_slug'' ''organizations'' [''slug'']),
     create_table users_table,
     create_index (unique_index ''ix_users_email'' ''users'' [''email'']),
     create_table audit_logs_table,
     create_index (index ''ix_audit_org_entity'' ''audit_logs'' [''organization_id'', ''entity_type'', ''entity_id'']),
     create_index (index ''ix_audit_org_timestamp'' ''audit_logs'' [''organization_id'', ''timestamp'']),
     create_table notifications_table,
     create_index (index ''ix_notification_user_unread'' ''notifications'' [''organization_id'', ''user_id'', ''is_read'']),
     create_table organization_members_table,
     create_index (index ''ix_org_member_lookup'' ''organization_members'' [''organization_id'', ''user_id'']),
     create_table teams_table,
     create_index (index ''ix_team_org_id'' ''teams'' [''organization_id'']),
     create_table projects_table,
     create_index (index ''ix_project_org_team'' ''projects'' [''organization_id'', ''team_id'']),
     create_table team_members_table,
     create_index (index ''ix_team_member_org'' ''team_members'' [''organization_id'']),
     create_table tasks_table,
     create_index (index ''ix_task_org_assignee'' ''tasks'' [''organization_id'', ''assignee_id'']),
     create_index (index ''ix_task_org_created'' ''tasks'' [''organization_id'', ''created_at'']),
     create_index (index ''ix_task_org_project_status'' ''tasks'' [''organization_id'', ''project_id'', ''status'']),
     create_index (index ''ix_tasks_is_deleted'' ''tasks'' [''is_deleted'']),
     create_table attachments_table,
     create_index (index ''ix_attachment_org_task'' ''attachments'' [''organization_id'', ''task_id'']),
     create_table comments_table,
     create_index (index ''ix_comment_org_task'' ''comments'' [''organization_id'', ''task_id''])]"

definition core_downgrade :: "op list" where
  "core_downgrade = [
     drop_index ''ix_comment_org_task'',
     drop_table ''comments'',
     drop_index ''ix_attachment_org_task'',
     drop_table ''attachments'',
     drop_index ''ix_tasks_is_deleted'',
     drop_index ''ix_task_org_project_status'',
     drop_index ''ix_task_org_created'',
     drop_index ''ix_task_org_assignee'',
     drop_table ''tasks'',
     drop_index ''ix_team_member_org'',
     drop_table ''team_members'',
     drop_index ''ix_project_org_team'',
     drop_table ''projects'',
     drop_index ''ix_team_org_id'',
     drop_table ''teams'',
     drop_index ''ix_org_member_lookup'',
     drop_table ''organization_members'',
     drop_index ''ix_notification_user_unread'',
     drop_table ''notifications'',
     drop_index ''ix_audit_org_timestamp'',
     drop_index ''ix_audit_org_entity'',
     drop_table ''audit_logs'',
     drop_index ''ix_users_email'',
     drop_table ''users'',
     drop_index ''ix_organizations_slug'',
     drop_table ''organizations'']"

definition version_id_column :: column where
  "version_id_column =
     \<lparr>col_name = ''version_id'', col_type = Integer, col_nullable = False, col_server_default = Some ''1''\<rparr>"

definition occ_upgrade :: "op list" where
  "occ_upgrade = [add_column ''projects'' version_id_column]"

definition occ_downgrade :: "op list" where
  "occ_downgrade = [drop_column ''projects'' ''version_id'']"

section \<open>The schema the model classes declare\<close>

text \<open>The columns of the mixins, and per class its table and its indexes.\<close>

definition uuid_primary_key :: "column list" where
  "uuid_primary_key = [col ''id'' Uuid False]"

definition timestamp_columns :: "column list" where
  "timestamp_columns = [col ''created_at'' DateTime False, col ''updated_at'' DateTime False]"

definition soft_delete_columns :: "column list" where
  "soft_delete_columns = [col ''is_deleted'' Boolean False, col ''deleted_at'' DateTime True]"

definition organizations_declared :: table_def where
  "organizations_declared = \<lparr>td_name = ''organizations'',
     td_columns = uuid_primary_key @ [
       col ''name'' (String 100) False,
       col ''slug'' (String 100) False,
       col ''logo_url'' (String 1024) True,
       col ''is_active'' Boolean False] @ timestamp_columns,
     td_foreign_keys = [],
     td_primary_key = [''id''], td_uniques = []\<rparr>"

definition organizations_indexes :: "index_def list" where
  "organizations_indexes = [
     unique_index ''ix_organizations_slug'' ''organizations'' [''slug'']]"

definition organization_members_declared :: table_def where
  "organization_members_declared = \<lparr>td_name = ''organization_members'',
     td_columns = uuid_primary_key @ [
       col ''organization_id'' Uuid False,
       col ''user_id'' Uuid False,
       col ''role'' (Enum ''org_role_enum'' [''OWNER'', ''ADMIN'', ''MANAGER'', ''MEMBER'', ''VIEWER'']) False] @ timestamp_columns,
     td_foreign_keys = [
       foreign ''organization_id'' ''organizations'' ''id'' CASCADE,
       foreign ''user_id'' ''users'' ''id'' CASCADE],
     td_primary_key = [''id''], td_uniques = [(''uq_org_member_user'', [''organization_id'', ''user_id''])]\<rparr>"

definition organization_members_indexes :: "index_def list" where
  "organization_members_indexes = [
     index ''ix_org_member_lookup'' ''organization_members'' [''organization_id'', ''user_id'']]"

definition users_declared :: table_def where
  "users_declared = \<lparr>td_name = ''users'',
     td_columns = uuid_primary_key @ [
       col ''email'' (String 255) False,
       col ''hashed_password'' (String 255) False,
       col ''full_name'' (String 100) False,
       col ''avatar_url'' (String 1024) True,
       col ''is_active'' Boolean False,
       col ''is_verified'' Boolean False] @ timestamp_columns,
     td_foreign_keys = [],
     td_primary_key = [''id''], td_uniques = []\<rparr>"

definition users_indexes :: "index_def list" where
  "users_indexes = [
     unique_index ''ix_users_email'' ''users'' [''email'']]"

definition teams_declared :: table_def where
  "teams_declared = \<lparr>td_name = ''teams'',
     td_columns = uuid_primary_key @ [
       col ''organization_id'' Uuid False,
       col ''name'' (String 100) False,
       col ''slug'' (String 100) False,
       col ''description'' Text True] @ timestamp_columns,
     td_foreign_keys = [
       foreign ''organization_id'' ''organizations'' ''id'' CASCADE],
     td_primary_key = [''id''], td_uniques = [(''uq_team_org_slug'', [''organization_id'', ''slug''])]\<rparr>"

definition teams_indexes :: "index_def list" where
  "teams_indexes = [
     index ''ix_team_org_id'' ''teams'' [''organization_id'']]"

definition team_members_declared :: table_def where
  "team_members_declared = \<lparr>td_name = ''team_members'',
     td_columns = uuid_primary_key @ [
       col ''organization_id'' Uuid False,
       col ''team_id'' Uuid False,
       col ''user_id'' Uuid False] @ timestamp_columns,
     td_foreign_keys = [
       foreign ''organization_id'' ''organizations'' ''id'' CASCADE,
       foreign ''team_id'' ''teams'' ''id'' CASCADE,
       foreign ''user_id'' ''users'' ''id'' CASCADE],
     td_primary_key = [''id''], td_uniques = [(''uq_team_member_user'', [''team_id'', ''user_id''])]\<rparr>"

definition team_members_indexes :: "index_def list" where
  "team_members_indexes = [
     index ''ix_team_member_org'' ''team_members'' [''organization_id'']]"

definition projects_declared :: table_def where
  "projects_declared = \<lparr>td_name = ''projects'',
     td_columns = uuid_primary_key @ [
       col ''organization_id'' Uuid False,
       col ''team_id'' Uuid True,
       col ''name'' (String 100) False,
       col ''key'' (String 10) False,
       col ''description'' Text True,
       col ''is_archived'' Boolean False,
       col ''version_id'' Integer False] @ timestamp_columns,
     td_foreign_keys = [
       foreign ''organization_id'' ''organizations'' ''id'' CASCADE,
       foreign ''team_id'' ''teams'' ''id'' SET_NULL],
     td_primary_key = [''id''], td_uniques = [(''uq_project_org_key'', [''organization_id'', ''key''])]\<rparr>"

definition projects_indexes :: "index_def list" where
  "projects_indexes = [
     index ''ix_project_org_team'' ''projects'' [''organization_id'', ''team_id'']]"

definition tasks_declared :: table_def where
  "tasks_declared = \<lparr>td_name = ''tasks'',
     td_columns = uuid_primary_key @ [
       col ''organization_id'' Uuid False,
       col ''project_id'' Uuid False,
       col ''parent_id'' Uuid True,
       col ''reporter_id'' Uuid False,
       col ''assignee_id'' Uuid True,
       col ''title'' (String 255) False,
       col ''description'' Text True,
       col ''status'' (Enum ''task_status_enum'' [''BACKLOG'', ''TODO'', ''IN_PROGRESS'', ''IN_REVIEW'', ''DONE'']) False,
       col ''priority'' (Enum ''task_priority_enum'' [''LOW'', ''MEDIUM'', ''HIGH'', ''URGENT'']) False,
       col ''due_date'' DateTime True,
       col ''version_id'' Integer False] @ timestamp_columns @ soft_delete_columns,
     td_foreign_keys = [
       foreign ''organization_id'' ''organizations'' ''id'' CASCADE,
       foreign ''project_id'' ''projects'' ''id'' CASCADE,
       foreign ''parent_id'' ''tasks'' ''id'' CASCADE,
       foreign ''reporter_id'' ''users'' ''id'' RESTRICT,
       foreign ''assignee_id'' ''users'' ''id'' SET_NULL],
     td_primary_key = [''id''], td_uniques = []\<rparr>"

definition tasks_indexes :: "index_def list" where
  "tasks_indexes = [
     index ''ix_task_org_project_status'' ''tasks'' [''organization_id'', ''project_id'', ''status''],
     index ''ix_task_org_assignee'' ''tasks'' [''organization_id'', ''assignee_id''],
     index ''ix_task_org_created'' ''tasks'' [''organization_id'', ''created_at''],
     index ''ix_tasks_is_deleted'' ''tasks'' [''is_deleted'']]"

definition comments_declared :: table_def where
  "comments_declared = \<lparr>td_name = ''comments'',
     td_columns = uuid_primary_key @ [
       col ''organization_id'' Uuid False,
       col ''task_id'' Uuid False,
       col ''author_id'' Uuid False,
       col ''content'' Text False,
       col ''is_edited'' Boolean False] @ timestamp_columns,
     td_foreign_keys = [
       foreign ''organization_id'' ''organizations'' ''id'' CASCADE,
       foreign ''task_id'' ''tasks'' ''id'' CASCADE,
       foreign ''author_id'' ''users'' ''id'' CASCADE],
     td_primary_key = [''id''], td_uniques = []\<rparr>"

definition comments_indexes :: "index_def list" where
  "comments_indexes = [
     index ''ix_comment_org_task'' ''comments'' [''organization_id'', ''task_id'']]"

definition attachments_declared :: table_def where
  "attachments_declared = \<lparr>td_name = ''attachments'',
     td_columns = uuid_primary_key @ [
       col ''organization_id'' Uuid False,
       col ''task_id'' Uuid False,
       col ''uploader_id'' Uuid False,
       col ''file_name'' (String 255) False,
       col ''file_size'' BigInteger False,
       col ''content_type'' (String 100) False,
       col ''s3_key'' (String 1024) False] @ timestamp_columns,
     td_foreign_keys = [
       foreign ''organization_id'' ''organizations'' ''id'' CASCADE,
       foreign ''task_id'' ''tasks'' ''id'' CASCADE,
       foreign ''uploader_id'' ''users'' ''id'' RESTRICT],
     td_primary_key = [''id''], td_uniques = []\<rparr>"

definition attachments_indexes :: "index_def list" where
  "attachments_indexes = [
     index ''ix_attachment_org_task'' ''attachments'' [''organization_id'', ''task_id'']]"

definition notifications_declared :: table_def where
  "notifications_declared = \<lparr>td_name = ''notifications'',
     td_columns = uuid_primary_key @ [
       col ''organization_id'' Uuid False,
       col ''user_id'' Uuid False,
       col ''actor_id'' Uuid True,
       col ''title'' (String 255) False,
       col ''body'' (String 1024) False,
       col ''event_type'' (Enum ''notification_type_enum'' [''TASK_ASSIGNED'', ''TASK_STATUS_CHANGED'', ''TASK_COMMENTED'', ''ORG_INVITATION'', ''ROLE_UPDATED'']) False,
       col ''is_read'' Boolean False,
       col ''read_at'' DateTime True,
       col ''resource_type'' (String 50) True,
       col ''resource_id'' Uuid True] @ timestamp_columns,
     td_foreign_keys = [
       foreign ''organization_id'' ''organizations'' ''id'' CASCADE,
       foreign ''user_id'' ''users'' ''id'' CASCADE,
       foreign ''actor_id'' ''users'' ''id'' SET_NULL],
     td_primary_key = [''id''], td_uniques = []\<rparr>"

definition notifications_indexes :: "index_def list" where
  "notifications_indexes = [
     index ''ix_notification_user_unread'' ''notifications'' [''organization_id'', ''user_id'', ''is_read'']]"

definition audit_logs_declared :: table_def where
  "audit_logs_declared = \<lparr>td_name = ''audit_logs'',
     td_columns = uuid_primary_key @ [
       col ''organization_id'' Uuid False,
       col ''actor_id'' Uuid True,
       col ''entity_type'' (String 50) False,
       col ''entity_id'' Uuid False,
       col ''action'' (Enum ''audit_action_enum'' [''CREATE'', ''UPDATE'', ''DELETE'', ''SOFT_DELETE'', ''RESTORE'']) False,
       col ''before_state'' JSONB True,
       col ''after_state'' JSONB True,
       col ''ip_address'' (String 45) True,
       col ''user_agent'' (String 512) True,
       col ''timestamp'' DateTime False],
     td_foreign_keys = [
       foreign ''organization_id'' ''organizations'' ''id'' CASCADE,
       foreign ''actor_id'' ''users'' ''id'' SET_NULL],
     td_primary_key = [''id''], td_uniques = []\<rparr>"

definition audit_logs_indexes :: "index_def list" where
  "audit_logs_indexes = [
     index ''ix_audit_org_entity'' ''audit_logs'' [''organization_id'', ''entity_type'', ''entity_id''],
     index ''ix_audit_org_timestamp'' ''audit_logs'' [''organization_id'', ''timestamp'']]"

definition metadata_tables :: "table_def list" where
  "metadata_tables = [
     organizations_declared,
     organization_members_declared,
     users_declared,
     teams_declared,
     team_members_declared,
     projects_declared,
     tasks_declared,
     comments_declared,
     attachments_declared,
     notifications_declared,
     audit_logs_declared]"

definition metadata_indexes :: "index_def list" where
  "metadata_indexes = organizations_indexes @
     organization_members_indexes @
     users_indexes @
     teams_indexes @
     team_members_indexes @
     projects_indexes @
     tasks_indexes @
     comments_indexes @
     attachments_indexes @
     notifications_indexes @
     audit_logs_indexes"

text \<open>
  Two tables agree when they have the same columns (name, type, nullability), keys and
  constraints, in whatever order; the server's default of a column is not compared, since the
  ORM gives the defaults itself.
\<close>

definition column_shape :: "column \<Rightarrow> pystr \<times> col_type \<times> bool" where
  "column_shape c = (col_name c, col_type c, col_nullable c)"

definition same_members :: "'a list \<Rightarrow> 'a list \<Rightarrow> bool" where
  "same_members xs ys \<longleftrightarrow> length xs = length ys \<and> list_all (\<lambda>x. List.member ys x) xs \<and> list_all (\<lambda>y. List.member xs y) ys"

definition same_table :: "table_def \<Rightarrow> table_def \<Rightarrow> bool" where
  "same_table t t' \<longleftrightarrow> td_name t = td_name t' \<and>
     same_members (map column_shape (td_columns t)) (map column_shape (td_columns t')) \<and>
     same_members (td_foreign_keys t) (td_foreign_keys t') \<and>
     td_primary_key t = td_primary_key t' \<and> same_members (td_uniques t) (td_uniques t')"

definition matches_models :: "schema_state \<Rightarrow> bool" where
  "matches_models s \<longleftrightarrow>
     length (sc_tables s) = length metadata_tables \<and>
     list_all (\<lambda>t. list_ex (same_table t) metadata_tables) (sc_tables s) \<and>
     list_all (\<lambda>t. list_ex (same_table t) (sc_tables s)) metadata_tables \<and>
     same_members (sc_indexes s) metadata_indexes"

section \<open>What the migrations build\<close>

text \<open>The schema after the first revision, spelled out.\<close>

definition core_schema :: schema_state where
  "core_schema = \<lparr>
     sc_tables = [organizations_table, users_table, audit_logs_table, notifications_table, organization_members_table, teams_table, projects_table, team_members_table, tasks_table, attachments_table, comments_table],
     sc_indexes = [
       unique_index ''ix_organizations_slug'' ''organizations'' [''slug''],
       unique_index ''ix_users_email'' ''users'' [''email''],
       index ''ix_audit_org_entity'' ''audit_logs'' [''organization_id'', ''entity_type'', ''entity_id''],
       index ''ix_audit_org_timestamp'' ''audit_logs'' [''organization_id'', ''timestamp''],
       index ''ix_notification_user_unread'' ''notifications'' [''organization_id'', ''user_id'', ''is_read''],
       index ''ix_org_member_lookup'' ''organization_members'' [''organization_id'', ''user_id''],
       index ''ix_team_org_id'' ''teams'' [''organization_id''],
       index ''ix_project_org_team'' ''projects'' [''organization_id'', ''team_id''],
       index ''ix_team_member_org'' ''team_members'' [''organization_id''],
       index ''ix_task_org_assignee'' ''tasks'' [''organization_id'', ''assignee_id''],
       index ''ix_task_org_created'' ''tasks'' [''organization_id'', ''created_at''],
       index ''ix_task_org_project_status'' ''tasks'' [''organization_id'', ''project_id'', ''status''],
       index ''ix_tasks_is_deleted'' ''tasks'' [''is_deleted''],
       index ''ix_attachment_org_task'' ''attachments'' [''organization_id'', ''task_id''],
       index ''ix_comment_org_task'' ''comments'' [''organization_id'', ''task_id'']],
     sc_types = enum_types audit_logs_table @ enum_types notifications_table @ enum_types organization_members_table @
       enum_types tasks_table,
     sc_occupied = []\<rparr>"

lemma core_upgrade_run: "run_ops core_upgrade empty_schema = Inr core_schema"
  by code_simp

text \<open>The second revision runs on a database in use: the server's default fills the new column.\<close>

definition head_tables :: "table_def list" where
  "head_tables = map (\<lambda>t. if td_name t = ''projects'' then t\<lparr>td_columns := td_columns t @ [version_id_column]\<rparr> else t)
     (sc_tables core_schema)"

lemma projects_found: "find (\<lambda>t. td_name t = ''projects'') (sc_tables core_schema) = Some projects_table"
  by code_simp

lemma version_column_new: "\<not> has_column projects_table ''version_id''"
  by code_simp

lemma occ_upgrade_run:
  "run_ops occ_upgrade (core_schema\<lparr>sc_occupied := occupied\<rparr>) =
     Inr (core_schema\<lparr>sc_occupied := occupied, sc_tables := head_tables\<rparr>)"
  using projects_found version_column_new
  by (simp add: occ_upgrade_def version_id_column_def head_tables_def)

lemma head_matches_models: "matches_models (core_schema\<lparr>sc_tables := head_tables\<rparr>)"
  by code_simp

lemma downgrade_run:
  "run_ops (occ_downgrade @ core_downgrade) (core_schema\<lparr>sc_tables := head_tables\<rparr>) =
     Inr (empty_schema\<lparr>sc_types := sc_types core_schema\<rparr>)"
  by code_simp

lemma occ_downgrade_run:
  "run_ops occ_downgrade (core_schema\<lparr>sc_tables := head_tables\<rparr>) = Inr core_schema"
  by code_simp

lemma upgrade_again: "run_ops core_upgrade (empty_schema\<lparr>sc_types := sc_types core_schema\<rparr>) = Inl DuplicateObject"
  by code_simp

end
