(* ===== verification/Deletion.thy ===== *)
theory Deletion
  imports Workers Migrations TableLaws
begin

text \<open>
  Deleting rows (\<open>BaseRepository.delete\<close>, and the DELETE statement of the sweeper) with the referential
  actions the models declare on their foreign keys: \<open>ON DELETE CASCADE\<close>, \<open>SET NULL\<close> and \<open>RESTRICT\<close>
  (\<open>app/models\<close>). The relationships of the models have \<open>passive_deletes=True\<close>, so the ORM leaves the rows
  it has not loaded to the database.
\<close>

section \<open>References\<close>

datatype table_name =
    UsersTable | OrganizationsTable | MembersTable | TeamsTable | TeamMembersTable | ProjectsTable | TasksTable
  | CommentsTable | AttachmentsTable | AuditLogsTable | NotificationsTable

fun sql_name :: "table_name \<Rightarrow> pystr" where
  "sql_name UsersTable = ''users''"
| "sql_name OrganizationsTable = ''organizations''"
| "sql_name MembersTable = ''organization_members''"
| "sql_name TeamsTable = ''teams''"
| "sql_name TeamMembersTable = ''team_members''"
| "sql_name ProjectsTable = ''projects''"
| "sql_name TasksTable = ''tasks''"
| "sql_name CommentsTable = ''comments''"
| "sql_name AttachmentsTable = ''attachments''"
| "sql_name AuditLogsTable = ''audit_logs''"
| "sql_name NotificationsTable = ''notifications''"

type_synonym row_ref = "table_name \<times> uuid"

text \<open>The foreign keys of a row: the column, the table it points to, its value, and what a DELETE there does.\<close>

type_synonym reference = "pystr \<times> table_name \<times> uuid option \<times> on_delete"

definition member_references :: "organization_member \<Rightarrow> reference list" where
  "member_references m = [
     (''organization_id'', OrganizationsTable, Some (m_organization_id m), CASCADE),
     (''user_id'', UsersTable, Some (m_user_id m), CASCADE)]"

definition team_references :: "team \<Rightarrow> reference list" where
  "team_references t = [(''organization_id'', OrganizationsTable, Some (tm_organization_id t), CASCADE)]"

definition team_member_references :: "team_member \<Rightarrow> reference list" where
  "team_member_references m = [
     (''organization_id'', OrganizationsTable, Some (tmm_organization_id m), CASCADE),
     (''team_id'', TeamsTable, Some (tmm_team_id m), CASCADE),
     (''user_id'', UsersTable, Some (tmm_user_id m), CASCADE)]"

definition project_references :: "project \<Rightarrow> reference list" where
  "project_references p = [
     (''organization_id'', OrganizationsTable, Some (p_organization_id p), CASCADE),
     (''team_id'', TeamsTable, p_team_id p, SET_NULL)]"

definition task_references :: "task \<Rightarrow> reference list" where
  "task_references t = [
     (''organization_id'', OrganizationsTable, Some (t_organization_id t), CASCADE),
     (''project_id'', ProjectsTable, Some (t_project_id t), CASCADE),
     (''parent_id'', TasksTable, t_parent_id t, CASCADE),
     (''reporter_id'', UsersTable, Some (t_reporter_id t), RESTRICT),
     (''assignee_id'', UsersTable, t_assignee_id t, SET_NULL)]"

definition comment_references :: "comment \<Rightarrow> reference list" where
  "comment_references c = [
     (''organization_id'', OrganizationsTable, Some (c_organization_id c), CASCADE),
     (''task_id'', TasksTable, Some (c_task_id c), CASCADE),
     (''author_id'', UsersTable, Some (c_author_id c), CASCADE)]"

definition attachment_references :: "attachment \<Rightarrow> reference list" where
  "attachment_references a = [
     (''organization_id'', OrganizationsTable, Some (a_organization_id a), CASCADE),
     (''task_id'', TasksTable, Some (a_task_id a), CASCADE),
     (''uploader_id'', UsersTable, Some (a_uploader_id a), RESTRICT)]"

definition audit_log_references :: "audit_log \<Rightarrow> reference list" where
  "audit_log_references l = [
     (''organization_id'', OrganizationsTable, Some (al_organization_id l), CASCADE),
     (''actor_id'', UsersTable, al_actor_id l, SET_NULL)]"

definition notification_references :: "notification \<Rightarrow> reference list" where
  "notification_references n = [
     (''organization_id'', OrganizationsTable, Some (n_organization_id n), CASCADE),
     (''user_id'', UsersTable, Some (n_user_id n), CASCADE),
     (''actor_id'', UsersTable, n_actor_id n, SET_NULL)]"

lemmas references_defs =
  member_references_def team_references_def team_member_references_def project_references_def task_references_def
  comment_references_def attachment_references_def audit_log_references_def notification_references_def

text \<open>They are the foreign keys the models declare, so those of the migrated schema.\<close>

definition declared_as :: "reference list \<Rightarrow> foreign_key list" where
  "declared_as rs = map (\<lambda>(column, target, value, action). foreign column (sql_name target) ''id'' action) rs"

lemma references_declared:
  "declared_as (member_references m) = td_foreign_keys organization_members_declared"
  "declared_as (team_references tm) = td_foreign_keys teams_declared"
  "declared_as (team_member_references tmm) = td_foreign_keys team_members_declared"
  "declared_as (project_references p) = td_foreign_keys projects_declared"
  "declared_as (task_references t) = td_foreign_keys tasks_declared"
  "declared_as (comment_references c) = td_foreign_keys comments_declared"
  "declared_as (attachment_references a) = td_foreign_keys attachments_declared"
  "declared_as (audit_log_references l) = td_foreign_keys audit_logs_declared"
  "declared_as (notification_references n) = td_foreign_keys notifications_declared"
  "[] = td_foreign_keys users_declared" "[] = td_foreign_keys organizations_declared"
  by (simp_all add: declared_as_def references_defs organization_members_declared_def teams_declared_def
      team_members_declared_def projects_declared_def tasks_declared_def comments_declared_def attachments_declared_def
      audit_logs_declared_def notifications_declared_def users_declared_def organizations_declared_def)

section \<open>The statement\<close>

text \<open>All references of a database: the row, the row it points to, and the action.\<close>

type_synonym link = "row_ref \<times> row_ref \<times> on_delete"

definition outgoing :: "table_name \<Rightarrow> ('r \<Rightarrow> uuid) \<Rightarrow> ('r \<Rightarrow> reference list) \<Rightarrow> 'r list \<Rightarrow> link list" where
  "outgoing T pk refs rows =
     concat (map (\<lambda>r. List.map_filter (\<lambda>(column, target, value, action).
       map_option (\<lambda>i. ((T, pk r), (target, i), action)) value) (refs r)) rows)"

definition links :: "database \<Rightarrow> link list" where
  "links d =
     outgoing MembersTable m_id member_references (tbl_organization_members d) @
     outgoing TeamsTable tm_id team_references (tbl_teams d) @
     outgoing TeamMembersTable tmm_id team_member_references (tbl_team_members d) @
     outgoing ProjectsTable p_id project_references (tbl_projects d) @
     outgoing TasksTable t_id task_references (tbl_tasks d) @
     outgoing CommentsTable c_id comment_references (tbl_comments d) @
     outgoing AttachmentsTable a_id attachment_references (tbl_attachments d) @
     outgoing AuditLogsTable al_id audit_log_references (tbl_audit_logs d) @
     outgoing NotificationsTable n_id notification_references (tbl_notifications d)"

definition cascade_links :: "database \<Rightarrow> (row_ref \<times> row_ref) list" where
  "cascade_links d = List.map_filter (\<lambda>(row, target, action). if action = CASCADE then Some (row, target) else None) (links d)"

text \<open>The cascade: round by round the rows that point to a row already gone, for as many rounds as there are references.\<close>

fun cascade :: "nat \<Rightarrow> (row_ref \<times> row_ref) list \<Rightarrow> row_ref list \<Rightarrow> row_ref list" where
  "cascade 0 es gone = gone"
| "cascade (Suc n) es gone =
     cascade n es (gone @ map fst (filter (\<lambda>(row, target). target \<in> set gone \<and> row \<notin> set gone) es))"

definition deleted_rows :: "row_ref list \<Rightarrow> database \<Rightarrow> row_ref list" where
  "deleted_rows roots d = cascade (length (cascade_links d)) (cascade_links d) roots"

text \<open>\<open>SET NULL\<close> on a nullable key that points to a deleted row.\<close>

definition set_null :: "row_ref set \<Rightarrow> table_name \<Rightarrow> uuid option \<Rightarrow> uuid option" where
  "set_null gone T v = (case v of None \<Rightarrow> None | Some i \<Rightarrow> if (T, i) \<in> gone then None else Some i)"

definition remove_rows :: "row_ref set \<Rightarrow> database \<Rightarrow> database" where
  "remove_rows gone d = \<lparr>
     tbl_users = filter (\<lambda>r. (UsersTable, u_id r) \<notin> gone) (tbl_users d),
     tbl_organizations = filter (\<lambda>r. (OrganizationsTable, o_id r) \<notin> gone) (tbl_organizations d),
     tbl_organization_members = filter (\<lambda>r. (MembersTable, m_id r) \<notin> gone) (tbl_organization_members d),
     tbl_teams = filter (\<lambda>r. (TeamsTable, tm_id r) \<notin> gone) (tbl_teams d),
     tbl_team_members = filter (\<lambda>r. (TeamMembersTable, tmm_id r) \<notin> gone) (tbl_team_members d),
     tbl_projects = map (\<lambda>r. r\<lparr>p_team_id := set_null gone TeamsTable (p_team_id r)\<rparr>)
       (filter (\<lambda>r. (ProjectsTable, p_id r) \<notin> gone) (tbl_projects d)),
     tbl_tasks = map (\<lambda>r. r\<lparr>t_assignee_id := set_null gone UsersTable (t_assignee_id r)\<rparr>)
       (filter (\<lambda>r. (TasksTable, t_id r) \<notin> gone) (tbl_tasks d)),
     tbl_comments = filter (\<lambda>r. (CommentsTable, c_id r) \<notin> gone) (tbl_comments d),
     tbl_attachments = filter (\<lambda>r. (AttachmentsTable, a_id r) \<notin> gone) (tbl_attachments d),
     tbl_audit_logs = map (\<lambda>r. r\<lparr>al_actor_id := set_null gone UsersTable (al_actor_id r)\<rparr>)
       (filter (\<lambda>r. (AuditLogsTable, al_id r) \<notin> gone) (tbl_audit_logs d)),
     tbl_notifications = map (\<lambda>r. r\<lparr>n_actor_id := set_null gone UsersTable (n_actor_id r)\<rparr>)
       (filter (\<lambda>r. (NotificationsTable, n_id r) \<notin> gone) (tbl_notifications d))\<rparr>"

text \<open>A reference with \<open>RESTRICT\<close> to a row that is to go fails the statement.\<close>

definition delete_rows :: "row_ref list \<Rightarrow> database \<Rightarrow> exn + database" where
  "delete_rows roots d =
     (let gone = set (deleted_rows roots d) in
      if list_ex (\<lambda>(row, target, action). action = RESTRICT \<and> target \<in> gone) (links d) then Inl IntegrityError
      else Inr (remove_rows gone d))"

text \<open>\<open>delete\<close> of an instance the session has loaded, and the flush.\<close>

definition base_delete :: "table_name \<Rightarrow> uuid \<Rightarrow> ('z, unit) tx" where
  "base_delete T i s =
     (case delete_rows [(T, i)] (work s) of
        Inl e \<Rightarrow> (Inl e, s)
      | Inr d \<Rightarrow> (Inr (), s\<lparr>work := d\<rparr>))"

section \<open>The cascade is a closure\<close>

lemma set_cascade:
  "set (cascade n es gone) = {x. \<exists>y \<in> set gone. \<exists>k \<le> n. (x, y) \<in> set es ^^ k}"
proof (induction n arbitrary: gone)
  case (Suc n)
  have round: "set (gone @ map fst (filter (\<lambda>(row, target). target \<in> set gone \<and> row \<notin> set gone) es)) =
      set gone \<union> {x. \<exists>y \<in> set gone. (x, y) \<in> set es}"
    by force
  have "(\<exists>y \<in> set gone \<union> {z. \<exists>y \<in> set gone. (z, y) \<in> set es}. \<exists>k \<le> n. (x, y) \<in> set es ^^ k) \<longleftrightarrow>
      (\<exists>y \<in> set gone. \<exists>k \<le> Suc n. (x, y) \<in> set es ^^ k)" for x
  proof
    assume "\<exists>y \<in> set gone \<union> {z. \<exists>y \<in> set gone. (z, y) \<in> set es}. \<exists>k \<le> n. (x, y) \<in> set es ^^ k"
    then obtain z k where z: "z \<in> set gone \<or> (\<exists>y \<in> set gone. (z, y) \<in> set es)" "k \<le> n" "(x, z) \<in> set es ^^ k" by blast
    then show "\<exists>y \<in> set gone. \<exists>k \<le> Suc n. (x, y) \<in> set es ^^ k"
    proof (elim disjE bexE)
      fix y assume "y \<in> set gone" "(z, y) \<in> set es"
      moreover from this z(3) have "(x, y) \<in> set es ^^ Suc k" by auto
      ultimately show ?thesis using z(2) Suc_le_mono by blast
    qed (use le_SucI in blast)
  next
    assume "\<exists>y \<in> set gone. \<exists>k \<le> Suc n. (x, y) \<in> set es ^^ k"
    then obtain y k where y: "y \<in> set gone" "k \<le> Suc n" "(x, y) \<in> set es ^^ k" by blast
    then show "\<exists>y \<in> set gone \<union> {z. \<exists>y \<in> set gone. (z, y) \<in> set es}. \<exists>k \<le> n. (x, y) \<in> set es ^^ k"
    proof (cases k)
      case 0
      with y show ?thesis by (intro bexI [of _ y] exI [of _ 0]) auto
    next
      case (Suc k')
      with y obtain z where "(x, z) \<in> set es ^^ k'" "(z, y) \<in> set es" "k' \<le> n" by auto
      with y(1) show ?thesis by blast
    qed
  qed
  then show ?case unfolding cascade.simps Suc.IH round by simp
qed auto

definition goes_with :: "row_ref list \<Rightarrow> database \<Rightarrow> row_ref set" where
  "goes_with roots d = {x. \<exists>y \<in> set roots. (x, y) \<in> (set (cascade_links d))\<^sup>*}"

lemma deleted_rows_closure: "set (deleted_rows roots d) = goes_with roots d"
proof -
  let ?es = "cascade_links d"
  have "(x, y) \<in> (set ?es)\<^sup>* \<longleftrightarrow> (\<exists>k \<le> length ?es. (x, y) \<in> set ?es ^^ k)" for x y
  proof
    assume "(x, y) \<in> (set ?es)\<^sup>*"
    then obtain k where "k \<le> card (set ?es)" "(x, y) \<in> set ?es ^^ k"
      by (auto simp: rtrancl_finite_eq_relpow)
    with card_length [of ?es] show "\<exists>k \<le> length ?es. (x, y) \<in> set ?es ^^ k" by (meson order_trans)
  qed (auto intro: relpow_imp_rtrancl)
  then show ?thesis unfolding deleted_rows_def set_cascade goes_with_def by blast
qed

section \<open>Referential integrity\<close>

text \<open>
  A set of rows a DELETE can take: with a row go those that reference it with \<open>CASCADE\<close>, and none that stays
  references it with \<open>RESTRICT\<close>.
\<close>

definition deletable :: "row_ref set \<Rightarrow> database \<Rightarrow> bool" where
  "deletable gone d \<longleftrightarrow>
     (\<forall>(row, target, action) \<in> set (links d). target \<in> gone \<longrightarrow> action = CASCADE \<and> row \<in> gone \<or> action = SET_NULL)"

lemma set_map_filter: "set (List.map_filter f xs) = {y. \<exists>x \<in> set xs. f x = Some y}"
  by (force simp: List.map_filter_def)

lemma cascade_links_iff: "(row, target) \<in> set (cascade_links d) \<longleftrightarrow> (row, target, CASCADE) \<in> set (links d)"
  by (auto simp: cascade_links_def set_map_filter split: if_splits intro!: bexI)

lemma goes_with_cascade:
  "(row, target, CASCADE) \<in> set (links d) \<Longrightarrow> target \<in> goes_with roots d \<Longrightarrow> row \<in> goes_with roots d"
  unfolding goes_with_def by (blast intro: converse_rtrancl_into_rtrancl [OF cascade_links_iff [THEN iffD2]])

lemma delete_rows_cases:
  "delete_rows roots d =
     (if \<exists>row target. (row, target, RESTRICT) \<in> set (links d) \<and> target \<in> goes_with roots d
      then Inl IntegrityError else Inr (remove_rows (goes_with roots d) d))"
  by (auto simp: delete_rows_def deleted_rows_closure Let_def list_ex_iff)

lemma delete_rows_deletable: "delete_rows roots d = Inr d' \<Longrightarrow> deletable (goes_with roots d) d"
  unfolding deletable_def
proof (intro ballI, clarify)
  fix T i T' i' action
  assume "delete_rows roots d = Inr d'" "((T, i), (T', i'), action) \<in> set (links d)" "(T', i') \<in> goes_with roots d"
    "action \<noteq> SET_NULL"
  then show "action = CASCADE \<and> (T, i) \<in> goes_with roots d"
    by (cases action) (auto simp: delete_rows_cases dest: goes_with_cascade split: if_splits)
qed

text \<open>What it means for the references of each table.\<close>

lemma ball_outgoing:
  "(\<forall>l \<in> set (outgoing T pk refs rows). P l) \<longleftrightarrow>
     (\<forall>r \<in> set rows. \<forall>(column, target, value, action) \<in> set (refs r). \<forall>i. value = Some i \<longrightarrow> P ((T, pk r), (target, i), action))"
  by (fastforce simp: outgoing_def set_map_filter)

lemma deletable_tables:
  "deletable gone d \<Longrightarrow> m \<in> set (tbl_organization_members d) \<Longrightarrow> (MembersTable, m_id m) \<notin> gone \<Longrightarrow>
     (OrganizationsTable, m_organization_id m) \<notin> gone \<and> (UsersTable, m_user_id m) \<notin> gone"
  "deletable gone d \<Longrightarrow> tm \<in> set (tbl_teams d) \<Longrightarrow> (TeamsTable, tm_id tm) \<notin> gone \<Longrightarrow>
     (OrganizationsTable, tm_organization_id tm) \<notin> gone"
  "deletable gone d \<Longrightarrow> tmm \<in> set (tbl_team_members d) \<Longrightarrow> (TeamMembersTable, tmm_id tmm) \<notin> gone \<Longrightarrow>
     (OrganizationsTable, tmm_organization_id tmm) \<notin> gone \<and> (TeamsTable, tmm_team_id tmm) \<notin> gone \<and>
     (UsersTable, tmm_user_id tmm) \<notin> gone"
  "deletable gone d \<Longrightarrow> p \<in> set (tbl_projects d) \<Longrightarrow> (ProjectsTable, p_id p) \<notin> gone \<Longrightarrow>
     (OrganizationsTable, p_organization_id p) \<notin> gone"
  "deletable gone d \<Longrightarrow> t \<in> set (tbl_tasks d) \<Longrightarrow> (TasksTable, t_id t) \<notin> gone \<Longrightarrow>
     (OrganizationsTable, t_organization_id t) \<notin> gone \<and> (ProjectsTable, t_project_id t) \<notin> gone \<and>
     (\<forall>i. t_parent_id t = Some i \<longrightarrow> (TasksTable, i) \<notin> gone) \<and> (UsersTable, t_reporter_id t) \<notin> gone"
  "deletable gone d \<Longrightarrow> c \<in> set (tbl_comments d) \<Longrightarrow> (CommentsTable, c_id c) \<notin> gone \<Longrightarrow>
     (OrganizationsTable, c_organization_id c) \<notin> gone \<and> (TasksTable, c_task_id c) \<notin> gone \<and> (UsersTable, c_author_id c) \<notin> gone"
  "deletable gone d \<Longrightarrow> a \<in> set (tbl_attachments d) \<Longrightarrow> (AttachmentsTable, a_id a) \<notin> gone \<Longrightarrow>
     (OrganizationsTable, a_organization_id a) \<notin> gone \<and> (TasksTable, a_task_id a) \<notin> gone \<and> (UsersTable, a_uploader_id a) \<notin> gone"
  "deletable gone d \<Longrightarrow> l \<in> set (tbl_audit_logs d) \<Longrightarrow> (AuditLogsTable, al_id l) \<notin> gone \<Longrightarrow>
     (OrganizationsTable, al_organization_id l) \<notin> gone"
  "deletable gone d \<Longrightarrow> n \<in> set (tbl_notifications d) \<Longrightarrow> (NotificationsTable, n_id n) \<notin> gone \<Longrightarrow>
     (OrganizationsTable, n_organization_id n) \<notin> gone \<and> (UsersTable, n_user_id n) \<notin> gone"
  unfolding deletable_def links_def set_append ball_Un ball_outgoing references_defs by fastforce+

text \<open>A table from which rows go, the keys of those that stay unchanged, keeps its constraints if what they reference stays.\<close>

lemma table_ok_remove:
  assumes ok: "table_ok M d" and rows: "rows_of M d' = map f (filter K (rows_of M d))"
    and pk: "\<And>r. pk_of M (f r) = pk_of M r" and fits: "\<And>r. fits_row M (f r) = fits_row M r"
    and keys: "\<And>r q. same_key M (f r) (f q) = same_key M r q"
    and refs: "\<And>r. r \<in> set (rows_of M d) \<Longrightarrow> K r \<Longrightarrow> refs_row M d r \<Longrightarrow> refs_row M d' (f r)"
  shows "table_ok M d'"
proof -
  have "distinct (map (pk_of M) (rows_of M d'))"
    using ok by (simp add: table_ok_def rows pk comp_def distinct_map_filter)
  moreover have "violation M d' r' = None" if r': "r' \<in> set (rows_of M d')" for r'
  proof -
    obtain r where r: "r \<in> set (rows_of M d)" "K r" "r' = f r" using r' by (auto simp: rows)
    then have "violation M d r = None" using ok by (simp add: table_ok_def)
    with r refs [OF r(1,2)] show ?thesis
      by (auto simp: violation_def fits pk keys rows split: if_splits)
  qed
  ultimately show ?thesis by (simp add: table_ok_def)
qed

lemma remove_key_sets:
  "user_ids (remove_rows gone d) = {i \<in> user_ids d. (UsersTable, i) \<notin> gone}"
  "organization_ids (remove_rows gone d) = {i \<in> organization_ids d. (OrganizationsTable, i) \<notin> gone}"
  "team_ids (remove_rows gone d) = {i \<in> team_ids d. (TeamsTable, i) \<notin> gone}"
  "project_ids (remove_rows gone d) = {i \<in> project_ids d. (ProjectsTable, i) \<notin> gone}"
  "task_ids (remove_rows gone d) = {i \<in> task_ids d. (TasksTable, i) \<notin> gone}"
  by (auto simp: key_set_defs remove_rows_def image_image)

lemma opt_ref_set_null: "opt_ref v ids \<Longrightarrow> opt_ref (set_null gone T v) {i \<in> ids. (T, i) \<notin> gone}"
  by (auto simp: opt_ref_def set_null_def split: option.splits)

lemma opt_ref_kept: "opt_ref v ids \<Longrightarrow> \<forall>i. v = Some i \<longrightarrow> (T, i) \<notin> gone \<Longrightarrow> opt_ref v {i \<in> ids. (T, i) \<notin> gone}"
  by (auto simp: opt_ref_def split: option.splits)

lemma remove_rows_wf:
  assumes wf: "db_wf d" and gone: "deletable gone d"
  shows "db_wf (remove_rows gone d)"
proof -
  note keep = deletable_tables [OF gone]
  note ok = wf_tables [OF wf]
  note same = table_ok_remove [where f = "\<lambda>r. r"]
  note simps = remove_rows_def [of gone d] table_defs
  show ?thesis
    unfolding db_wf_def
  proof (intro conjI)
    show "table_ok User (remove_rows gone d)" by (rule same [OF ok(1)]) (simp_all add: simps)
    show "table_ok Organization (remove_rows gone d)" by (rule same [OF ok(2)]) (simp_all add: simps)
    show "table_ok OrganizationMember (remove_rows gone d)"
      by (rule same [OF ok(3), where K = "\<lambda>m. (MembersTable, m_id m) \<notin> gone"])
        (simp add: remove_rows_def, simp_all add: table_defs remove_key_sets keep)
    show "table_ok Team (remove_rows gone d)"
      by (rule same [OF ok(4), where K = "\<lambda>m. (TeamsTable, tm_id m) \<notin> gone"])
        (simp add: remove_rows_def, simp_all add: table_defs remove_key_sets keep)
    show "table_ok TeamMember (remove_rows gone d)"
      by (rule same [OF ok(5), where K = "\<lambda>m. (TeamMembersTable, tmm_id m) \<notin> gone"])
        (simp add: remove_rows_def, simp_all add: table_defs remove_key_sets keep)
    show "table_ok Project (remove_rows gone d)"
      by (rule table_ok_remove [OF ok(6), where K = "\<lambda>m. (ProjectsTable, p_id m) \<notin> gone"
            and f = "\<lambda>r. r\<lparr>p_team_id := set_null gone TeamsTable (p_team_id r)\<rparr>"])
        (simp add: remove_rows_def, simp_all add: table_defs remove_key_sets keep opt_ref_set_null)
    show "table_ok Task (remove_rows gone d)"
      by (rule table_ok_remove [OF ok(7), where K = "\<lambda>m. (TasksTable, t_id m) \<notin> gone"
            and f = "\<lambda>r. r\<lparr>t_assignee_id := set_null gone UsersTable (t_assignee_id r)\<rparr>"])
        (simp add: remove_rows_def, simp_all add: table_defs remove_key_sets keep opt_ref_set_null opt_ref_kept)
    show "table_ok Comment (remove_rows gone d)"
      by (rule same [OF ok(8), where K = "\<lambda>m. (CommentsTable, c_id m) \<notin> gone"])
        (simp add: remove_rows_def, simp_all add: table_defs remove_key_sets keep)
    show "table_ok Attachment (remove_rows gone d)"
      by (rule same [OF ok(9), where K = "\<lambda>m. (AttachmentsTable, a_id m) \<notin> gone"])
        (simp add: remove_rows_def, simp_all add: table_defs remove_key_sets keep)
    show "table_ok AuditLog (remove_rows gone d)"
      by (rule table_ok_remove [OF ok(10), where K = "\<lambda>m. (AuditLogsTable, al_id m) \<notin> gone"
            and f = "\<lambda>r. r\<lparr>al_actor_id := set_null gone UsersTable (al_actor_id r)\<rparr>"])
        (simp add: remove_rows_def, simp_all add: table_defs remove_key_sets keep opt_ref_set_null)
    show "table_ok Notification (remove_rows gone d)"
      by (rule table_ok_remove [OF ok(11), where K = "\<lambda>m. (NotificationsTable, n_id m) \<notin> gone"
            and f = "\<lambda>r. r\<lparr>n_actor_id := set_null gone UsersTable (n_actor_id r)\<rparr>"])
        (simp add: remove_rows_def, simp_all add: table_defs remove_key_sets keep opt_ref_set_null)
  qed
qed

lemma delete_rows_wf: "db_wf d \<Longrightarrow> delete_rows roots d = Inr d' \<Longrightarrow> db_wf d'"
  using remove_rows_wf [OF _ delete_rows_deletable] by (auto simp: delete_rows_cases split: if_splits)

lemma base_delete_wf: "preserves session_wf (base_delete T i)"
  by (auto simp: preserves_def session_wf_def base_delete_def dest: delete_rows_wf split: sum.splits)

end
