(* ===== verification/Cascades.thy ===== *)
theory Cascades
  imports Deletion
begin

text \<open>
  What the declared referential actions do: the sweeper's DELETE, the deletion of an organization and the
  deletion of a user.
\<close>

section \<open>Cascading references\<close>

lemma in_outgoing:
  "(x, y, action) \<in> set (outgoing T pk refs rows) \<longleftrightarrow>
     (\<exists>r \<in> set rows. x = (T, pk r) \<and>
        list_ex (\<lambda>(column, target, value, act). act = action \<and> (\<exists>i. value = Some i \<and> y = (target, i))) (refs r))"
proof -
  have "(x, y, action) \<in> set (List.map_filter (\<lambda>(column, target, value, action).
        map_option (\<lambda>i. ((T, k), (target, i), action)) value) rs) \<longleftrightarrow>
      x = (T, k) \<and> list_ex (\<lambda>(column, target, value, act). act = action \<and> (\<exists>i. value = Some i \<and> y = (target, i))) rs" for k rs
    by (induction rs) (auto simp: List.map_filter_simps split: option.splits)
  then show ?thesis by (auto simp: outgoing_def)
qed

text \<open>The references along which rows go, table by table.\<close>

lemma cascade_outgoing:
  "(x, y, CASCADE) \<in> set (outgoing MembersTable m_id member_references ms) \<longleftrightarrow>
     (\<exists>m \<in> set ms. x = (MembersTable, m_id m) \<and> y \<in> {(OrganizationsTable, m_organization_id m), (UsersTable, m_user_id m)})"
  "(x, y, CASCADE) \<in> set (outgoing TeamsTable tm_id team_references ts) \<longleftrightarrow>
     (\<exists>t \<in> set ts. x = (TeamsTable, tm_id t) \<and> y = (OrganizationsTable, tm_organization_id t))"
  "(x, y, CASCADE) \<in> set (outgoing TeamMembersTable tmm_id team_member_references tms) \<longleftrightarrow>
     (\<exists>m \<in> set tms. x = (TeamMembersTable, tmm_id m) \<and>
        y \<in> {(OrganizationsTable, tmm_organization_id m), (TeamsTable, tmm_team_id m), (UsersTable, tmm_user_id m)})"
  "(x, y, CASCADE) \<in> set (outgoing ProjectsTable p_id project_references ps) \<longleftrightarrow>
     (\<exists>p \<in> set ps. x = (ProjectsTable, p_id p) \<and> y = (OrganizationsTable, p_organization_id p))"
  "(x, y, CASCADE) \<in> set (outgoing TasksTable t_id task_references ks) \<longleftrightarrow>
     (\<exists>t \<in> set ks. x = (TasksTable, t_id t) \<and>
        (y \<in> {(OrganizationsTable, t_organization_id t), (ProjectsTable, t_project_id t)} \<or>
         (\<exists>i. t_parent_id t = Some i \<and> y = (TasksTable, i))))"
  "(x, y, CASCADE) \<in> set (outgoing CommentsTable c_id comment_references cs) \<longleftrightarrow>
     (\<exists>c \<in> set cs. x = (CommentsTable, c_id c) \<and>
        y \<in> {(OrganizationsTable, c_organization_id c), (TasksTable, c_task_id c), (UsersTable, c_author_id c)})"
  "(x, y, CASCADE) \<in> set (outgoing AttachmentsTable a_id attachment_references as) \<longleftrightarrow>
     (\<exists>a \<in> set as. x = (AttachmentsTable, a_id a) \<and>
        y \<in> {(OrganizationsTable, a_organization_id a), (TasksTable, a_task_id a)})"
  "(x, y, CASCADE) \<in> set (outgoing AuditLogsTable al_id audit_log_references ls) \<longleftrightarrow>
     (\<exists>l \<in> set ls. x = (AuditLogsTable, al_id l) \<and> y = (OrganizationsTable, al_organization_id l))"
  "(x, y, CASCADE) \<in> set (outgoing NotificationsTable n_id notification_references ns) \<longleftrightarrow>
     (\<exists>n \<in> set ns. x = (NotificationsTable, n_id n) \<and>
        y \<in> {(OrganizationsTable, n_organization_id n), (UsersTable, n_user_id n)})"
  by (simp_all add: in_outgoing references_defs)

lemma restrict_outgoing:
  "(x, y, RESTRICT) \<in> set (outgoing MembersTable m_id member_references ms) \<longleftrightarrow> False"
  "(x, y, RESTRICT) \<in> set (outgoing TeamsTable tm_id team_references ts) \<longleftrightarrow> False"
  "(x, y, RESTRICT) \<in> set (outgoing TeamMembersTable tmm_id team_member_references tms) \<longleftrightarrow> False"
  "(x, y, RESTRICT) \<in> set (outgoing ProjectsTable p_id project_references ps) \<longleftrightarrow> False"
  "(x, y, RESTRICT) \<in> set (outgoing TasksTable t_id task_references ks) \<longleftrightarrow>
     (\<exists>t \<in> set ks. x = (TasksTable, t_id t) \<and> y = (UsersTable, t_reporter_id t))"
  "(x, y, RESTRICT) \<in> set (outgoing CommentsTable c_id comment_references cs) \<longleftrightarrow> False"
  "(x, y, RESTRICT) \<in> set (outgoing AttachmentsTable a_id attachment_references as) \<longleftrightarrow>
     (\<exists>a \<in> set as. x = (AttachmentsTable, a_id a) \<and> y = (UsersTable, a_uploader_id a))"
  "(x, y, RESTRICT) \<in> set (outgoing AuditLogsTable al_id audit_log_references ls) \<longleftrightarrow> False"
  "(x, y, RESTRICT) \<in> set (outgoing NotificationsTable n_id notification_references ns) \<longleftrightarrow> False"
  by (simp_all add: in_outgoing references_defs)

lemma cascade_link_cases:
  "(x, y) \<in> set (cascade_links d) \<longleftrightarrow>
     (\<exists>m \<in> set (tbl_organization_members d). x = (MembersTable, m_id m) \<and>
        y \<in> {(OrganizationsTable, m_organization_id m), (UsersTable, m_user_id m)}) \<or>
     (\<exists>t \<in> set (tbl_teams d). x = (TeamsTable, tm_id t) \<and> y = (OrganizationsTable, tm_organization_id t)) \<or>
     (\<exists>m \<in> set (tbl_team_members d). x = (TeamMembersTable, tmm_id m) \<and>
        y \<in> {(OrganizationsTable, tmm_organization_id m), (TeamsTable, tmm_team_id m), (UsersTable, tmm_user_id m)}) \<or>
     (\<exists>p \<in> set (tbl_projects d). x = (ProjectsTable, p_id p) \<and> y = (OrganizationsTable, p_organization_id p)) \<or>
     (\<exists>t \<in> set (tbl_tasks d). x = (TasksTable, t_id t) \<and>
        (y \<in> {(OrganizationsTable, t_organization_id t), (ProjectsTable, t_project_id t)} \<or>
         (\<exists>i. t_parent_id t = Some i \<and> y = (TasksTable, i)))) \<or>
     (\<exists>c \<in> set (tbl_comments d). x = (CommentsTable, c_id c) \<and>
        y \<in> {(OrganizationsTable, c_organization_id c), (TasksTable, c_task_id c), (UsersTable, c_author_id c)}) \<or>
     (\<exists>a \<in> set (tbl_attachments d). x = (AttachmentsTable, a_id a) \<and>
        y \<in> {(OrganizationsTable, a_organization_id a), (TasksTable, a_task_id a)}) \<or>
     (\<exists>l \<in> set (tbl_audit_logs d). x = (AuditLogsTable, al_id l) \<and> y = (OrganizationsTable, al_organization_id l)) \<or>
     (\<exists>n \<in> set (tbl_notifications d). x = (NotificationsTable, n_id n) \<and>
        y \<in> {(OrganizationsTable, n_organization_id n), (UsersTable, n_user_id n)})"
  by (simp only: cascade_links_iff links_def set_append Un_iff cascade_outgoing)

lemma restrict_link_cases:
  "(x, y, RESTRICT) \<in> set (links d) \<longleftrightarrow>
     (\<exists>t \<in> set (tbl_tasks d). x = (TasksTable, t_id t) \<and> y = (UsersTable, t_reporter_id t)) \<or>
     (\<exists>a \<in> set (tbl_attachments d). x = (AttachmentsTable, a_id a) \<and> y = (UsersTable, a_uploader_id a))"
  by (simp only: links_def set_append Un_iff restrict_outgoing simp_thms)

lemma child_link:
  "((TasksTable, j), y) \<in> set (cascade_links d) \<longleftrightarrow>
     (\<exists>t \<in> set (tbl_tasks d). t_id t = j \<and>
        (y = (OrganizationsTable, t_organization_id t) \<or> y = (ProjectsTable, t_project_id t) \<or>
         (\<exists>i. t_parent_id t = Some i \<and> y = (TasksTable, i))))"
  "((CommentsTable, j), y) \<in> set (cascade_links d) \<longleftrightarrow>
     (\<exists>c \<in> set (tbl_comments d). c_id c = j \<and>
        (y = (OrganizationsTable, c_organization_id c) \<or> y = (TasksTable, c_task_id c) \<or> y = (UsersTable, c_author_id c)))"
  "((AttachmentsTable, j), y) \<in> set (cascade_links d) \<longleftrightarrow>
     (\<exists>a \<in> set (tbl_attachments d). a_id a = j \<and>
        (y = (OrganizationsTable, a_organization_id a) \<or> y = (TasksTable, a_task_id a)))"
  by (auto simp: cascade_link_cases)

lemma goes_with_iff:
  "x \<in> goes_with roots d \<longleftrightarrow> x \<in> set roots \<or> (\<exists>y \<in> goes_with roots d. (x, y) \<in> set (cascade_links d))"
  unfolding goes_with_def by (blast elim: converse_rtranclE intro: converse_rtrancl_into_rtrancl)

lemma goes_with_induct [consumes 1, case_names root link]:
  assumes "x \<in> goes_with roots d" and "\<And>x. x \<in> set roots \<Longrightarrow> P x"
    and "\<And>x y. (x, y) \<in> set (cascade_links d) \<Longrightarrow> y \<in> goes_with roots d \<Longrightarrow> P y \<Longrightarrow> P x"
  shows "P x"
proof -
  obtain z where "z \<in> set roots" "(x, z) \<in> (set (cascade_links d))\<^sup>*" using assms(1) by (auto simp: goes_with_def)
  from this(2) show ?thesis
  proof (induction rule: converse_rtrancl_induct)
    case (step x y)
    then have "y \<in> goes_with roots d" using \<open>z \<in> set roots\<close> by (auto simp: goes_with_def)
    with step show ?case using assms(3) by blast
  qed (rule assms(2) [OF \<open>z \<in> set roots\<close>])
qed

text \<open>No user and no organization goes with another row.\<close>

lemma no_cascade_into: "((T, i), y) \<in> set (cascade_links d) \<Longrightarrow> T \<noteq> UsersTable \<and> T \<noteq> OrganizationsTable"
  unfolding cascade_link_cases by auto

lemma own_roots:
  "(UsersTable, i) \<in> goes_with roots d \<longleftrightarrow> (UsersTable, i) \<in> set roots"
  "(OrganizationsTable, i) \<in> goes_with roots d \<longleftrightarrow> (OrganizationsTable, i) \<in> set roots"
  by (subst goes_with_iff, use no_cascade_into in blast)+

section \<open>The sweep\<close>

definition sweep_roots :: "instant \<Rightarrow> database \<Rightarrow> row_ref list" where
  "sweep_roots cutoff_time d = map (\<lambda>t. (TasksTable, t_id t)) (filter (expired cutoff_time) (tbl_tasks d))"

lemma sweep_tables: "x \<in> goes_with (sweep_roots c d) d \<Longrightarrow> fst x \<in> {TasksTable, CommentsTable, AttachmentsTable}"
proof (induction rule: goes_with_induct)
  case (link x y)
  then show ?case unfolding cascade_link_cases by auto
qed (auto simp: sweep_roots_def)

lemma same_row: "table_ok M d \<Longrightarrow> r \<in> set (rows_of M d) \<Longrightarrow> q \<in> set (rows_of M d) \<Longrightarrow> pk_of M r = pk_of M q \<Longrightarrow> r = q"
  by (auto simp: table_ok_def distinct_map inj_on_def)

lemma sweep_task:
  assumes wf: "db_wf d" and "t \<in> set (tbl_tasks d)"
  shows "(TasksTable, t_id t) \<in> goes_with (sweep_roots c d) d \<longleftrightarrow> swept c (tbl_tasks d) t"
proof
  note unique = same_row [OF wf_tables(7) [OF wf], simplified]
  have "fst x = TasksTable \<longrightarrow> (\<forall>t \<in> set (tbl_tasks d). snd x = t_id t \<longrightarrow> swept c (tbl_tasks d) t)"
    if "x \<in> goes_with (sweep_roots c d) d" for x
    using that
  proof (induction rule: goes_with_induct)
    case (root x)
    show ?case
    proof (intro impI ballI)
      fix t assume t: "t \<in> set (tbl_tasks d)" "snd x = t_id t"
      obtain r where "r \<in> set (tbl_tasks d)" "expired c r" "t_id r = snd x" using root by (auto simp: sweep_roots_def)
      with t unique [of r t] have "expired c t" by simp
      then show "swept c (tbl_tasks d) t" by (auto simp: swept_def ancestor_def)
    qed
  next
    case (link x y)
    show ?case
    proof (intro impI ballI)
      fix t assume t: "fst x = TasksTable" "t \<in> set (tbl_tasks d)" "snd x = t_id t"
      then obtain r where r: "r \<in> set (tbl_tasks d)" "t_id r = t_id t"
        "y = (OrganizationsTable, t_organization_id r) \<or> y = (ProjectsTable, t_project_id r) \<or>
         (\<exists>i. t_parent_id r = Some i \<and> y = (TasksTable, i))"
        using link(1) child_link(1) [of "t_id t" y d] by (cases x) auto
      then obtain i where i: "t_parent_id t = Some i" "y = (TasksTable, i)"
        using sweep_tables [OF link(2)] unique [of r t] t(2) by auto
      have "opt_ref (t_parent_id t) (task_ids d)"
        using wf_tables(7) [OF wf] t(2) by (auto simp: table_ok_def violation_def table_defs split: if_splits)
      then have "find (\<lambda>q. t_id q = i) (tbl_tasks d) \<noteq> None"
        using i(1) by (auto simp: find_None_iff opt_ref_def task_ids_def)
      then obtain q where q: "find (\<lambda>q. t_id q = i) (tbl_tasks d) = Some q" by blast
      then have "q \<in> set (tbl_tasks d)" "t_id q = i" by (auto simp: find_Some_iff)
      with link(3) i(2) have "swept c (tbl_tasks d) q" by simp
      with q i(1) show "swept c (tbl_tasks d) t" by (intro swept_parent [of _ t q]) (simp_all add: parent_of_def)
    qed
  qed
  from this [of "(TasksTable, t_id t)"] assms(2)
  show "(TasksTable, t_id t) \<in> goes_with (sweep_roots c d) d \<Longrightarrow> swept c (tbl_tasks d) t" by simp
next
  have step_up: "(TasksTable, t_id r) \<in> goes_with (sweep_roots c d) d"
    if "r \<in> set (tbl_tasks d)" "parent_of (tbl_tasks d) r = Some q" "(TasksTable, t_id q) \<in> goes_with (sweep_roots c d) d" for r q
  proof -
    have "t_parent_id r = Some (t_id q)"
      using that(2) by (auto simp: parent_of_def find_Some_iff split: option.splits)
    with that(1) have "((TasksTable, t_id r), (TasksTable, t_id q)) \<in> set (cascade_links d)"
      unfolding cascade_link_cases by blast
    with that(3) show ?thesis by (subst goes_with_iff) blast
  qed
  assume "swept c (tbl_tasks d) t"
  then obtain q where "(\<lambda>t q. parent_of (tbl_tasks d) t = Some q)\<^sup>*\<^sup>* t q" "expired c q"
    by (auto simp: swept_def ancestor_def)
  then show "(TasksTable, t_id t) \<in> goes_with (sweep_roots c d) d"
    using assms(2)
  proof (induction rule: converse_rtranclp_induct)
    case base
    then show ?case by (subst goes_with_iff) (simp add: sweep_roots_def)
  next
    case (step r r')
    moreover have "r' \<in> set (tbl_tasks d)" using step(1) by (auto simp: parent_of_def find_Some_iff split: option.splits)
    ultimately show ?case using step_up by blast
  qed
qed

text \<open>A comment and an attachment go exactly with their task.\<close>

lemma sweep_children:
  assumes wf: "db_wf d"
  shows "cm \<in> set (tbl_comments d) \<Longrightarrow>
      (CommentsTable, c_id cm) \<in> goes_with (sweep_roots c d) d \<longleftrightarrow> (TasksTable, c_task_id cm) \<in> goes_with (sweep_roots c d) d"
    and "a \<in> set (tbl_attachments d) \<Longrightarrow>
      (AttachmentsTable, a_id a) \<in> goes_with (sweep_roots c d) d \<longleftrightarrow> (TasksTable, a_task_id a) \<in> goes_with (sweep_roots c d) d"
proof -
  let ?G = "goes_with (sweep_roots c d) d"
  have no: "(T, i) \<notin> ?G" if "T \<in> {OrganizationsTable, UsersTable}" for T i using sweep_tables [of "(T, i)" c d] that by auto
  have root: "(T, i) \<notin> set (sweep_roots c d)" if "T \<noteq> TasksTable" for T i using that by (auto simp: sweep_roots_def)
  note unique = same_row [OF wf_tables(8) [OF wf], simplified] same_row [OF wf_tables(9) [OF wf], simplified]
  show "(CommentsTable, c_id cm) \<in> ?G \<longleftrightarrow> (TasksTable, c_task_id cm) \<in> ?G" if cm: "cm \<in> set (tbl_comments d)"
  proof -
    have "(CommentsTable, c_id cm) \<in> ?G \<longleftrightarrow> (\<exists>y \<in> ?G. ((CommentsTable, c_id cm), y) \<in> set (cascade_links d))"
      using goes_with_iff root by blast
    also have "\<dots> \<longleftrightarrow> (TasksTable, c_task_id cm) \<in> ?G"
      using no unique(1) [of _ cm] cm unfolding child_link by blast
    finally show ?thesis .
  qed
  show "(AttachmentsTable, a_id a) \<in> ?G \<longleftrightarrow> (TasksTable, a_task_id a) \<in> ?G" if a: "a \<in> set (tbl_attachments d)"
  proof -
    have "(AttachmentsTable, a_id a) \<in> ?G \<longleftrightarrow> (\<exists>y \<in> ?G. ((AttachmentsTable, a_id a), y) \<in> set (cascade_links d))"
      using goes_with_iff root by blast
    also have "\<dots> \<longleftrightarrow> (TasksTable, a_task_id a) \<in> ?G"
      using no unique(2) [of _ a] a unfolding child_link by blast
    finally show ?thesis .
  qed
qed

text \<open>The sweep is the DELETE of the expired tasks, with what the declared actions take along.\<close>

lemma set_null_users: "(\<And>i. (T, i) \<notin> gone) \<Longrightarrow> set_null gone T v = v"
  by (simp add: set_null_def split: option.splits)

lemma delete_sweep:
  assumes wf: "db_wf d"
  shows "delete_rows (sweep_roots c d) d = Inr (purge c d)"
proof -
  let ?G = "goes_with (sweep_roots c d) d"
  have no: "(T, i) \<notin> ?G" if "T \<notin> {TasksTable, CommentsTable, AttachmentsTable}" for T i
    using sweep_tables [of "(T, i)" c d] that by auto
  have swept: "(TasksTable, i) \<in> ?G \<longleftrightarrow> i \<notin> task_ids (purge c d)" if i: "i \<in> task_ids d" for i
  proof -
    obtain t where t: "t \<in> set (tbl_tasks d)" "t_id t = i" using i by (auto simp: task_ids_def)
    have unique: "q = t" if "q \<in> set (tbl_tasks d)" "t_id q = i" for q
      using same_row [OF wf_tables(7) [OF wf], of q t] that t by simp
    have "i \<in> task_ids (purge c d) \<longleftrightarrow> (\<exists>q \<in> set (tbl_tasks d). t_id q = i \<and> \<not> swept c (tbl_tasks d) q)"
      by (auto simp: task_ids_def purge_tasks)
    also have "\<dots> \<longleftrightarrow> \<not> swept c (tbl_tasks d) t"
      using t unique by metis
    finally have "i \<in> task_ids (purge c d) \<longleftrightarrow> \<not> swept c (tbl_tasks d) t" .
    with t sweep_task [OF wf t(1)] show ?thesis by simp
  qed
  have tasks: "filter (\<lambda>t. (TasksTable, t_id t) \<notin> ?G) (tbl_tasks d) = tbl_tasks (purge c d)"
    unfolding purge_tasks by (rule filter_cong) (simp_all add: sweep_task [OF wf])
  have refs: "c_task_id cm \<in> task_ids d" if "cm \<in> set (tbl_comments d)" for cm
    using wf_tables(8) [OF wf] that by (auto simp: table_ok_def violation_def table_defs split: if_splits)
  have refs': "a_task_id a \<in> task_ids d" if "a \<in> set (tbl_attachments d)" for a
    using wf_tables(9) [OF wf] that by (auto simp: table_ok_def violation_def table_defs split: if_splits)
  have comments: "filter (\<lambda>cm. (CommentsTable, c_id cm) \<notin> ?G) (tbl_comments d) = tbl_comments (purge c d)"
    unfolding purge_comments by (rule filter_cong) (simp_all add: sweep_children(1) [OF wf] swept refs)
  have attachments: "filter (\<lambda>a. (AttachmentsTable, a_id a) \<notin> ?G) (tbl_attachments d) = tbl_attachments (purge c d)"
    unfolding purge_attachments by (rule filter_cong) (simp_all add: sweep_children(2) [OF wf] swept refs')
  have "remove_rows ?G d = purge c d"
    by (simp add: remove_rows_def tasks comments attachments no set_null_users)
  moreover have "\<not> (\<exists>x y. (x, y, RESTRICT) \<in> set (links d) \<and> y \<in> ?G)"
    using no by (auto simp: restrict_link_cases)
  ultimately show ?thesis by (simp add: delete_rows_cases)
qed

section \<open>The deletion of an organization\<close>

text \<open>Databases in which no row references a row of another tenant (but for users, who belong to none).\<close>

definition within_tenants :: "database \<Rightarrow> bool" where
  "within_tenants d \<longleftrightarrow>
     (\<forall>m \<in> set (tbl_team_members d). \<forall>t \<in> set (tbl_teams d). tm_id t = tmm_team_id m \<longrightarrow> tm_organization_id t = tmm_organization_id m) \<and>
     (\<forall>p \<in> set (tbl_projects d). \<forall>t \<in> set (tbl_teams d). p_team_id p = Some (tm_id t) \<longrightarrow> tm_organization_id t = p_organization_id p) \<and>
     (\<forall>t \<in> set (tbl_tasks d). \<forall>p \<in> set (tbl_projects d). p_id p = t_project_id t \<longrightarrow> p_organization_id p = t_organization_id t) \<and>
     (\<forall>t \<in> set (tbl_tasks d). \<forall>q \<in> set (tbl_tasks d). t_parent_id t = Some (t_id q) \<longrightarrow> t_organization_id q = t_organization_id t) \<and>
     (\<forall>c \<in> set (tbl_comments d). \<forall>t \<in> set (tbl_tasks d). t_id t = c_task_id c \<longrightarrow> t_organization_id t = c_organization_id c) \<and>
     (\<forall>a \<in> set (tbl_attachments d). \<forall>t \<in> set (tbl_tasks d). t_id t = a_task_id a \<longrightarrow> t_organization_id t = a_organization_id a)"

text \<open>The organization of the row a reference names.\<close>

fun org_of_ref :: "database \<Rightarrow> row_ref \<Rightarrow> uuid set" where
  "org_of_ref d (OrganizationsTable, i) = {i}"
| "org_of_ref d (UsersTable, i) = {}"
| "org_of_ref d (MembersTable, i) = {m_organization_id r | r. r \<in> set (tbl_organization_members d) \<and> m_id r = i}"
| "org_of_ref d (TeamsTable, i) = {tm_organization_id r | r. r \<in> set (tbl_teams d) \<and> tm_id r = i}"
| "org_of_ref d (TeamMembersTable, i) = {tmm_organization_id r | r. r \<in> set (tbl_team_members d) \<and> tmm_id r = i}"
| "org_of_ref d (ProjectsTable, i) = {p_organization_id r | r. r \<in> set (tbl_projects d) \<and> p_id r = i}"
| "org_of_ref d (TasksTable, i) = {t_organization_id r | r. r \<in> set (tbl_tasks d) \<and> t_id r = i}"
| "org_of_ref d (CommentsTable, i) = {c_organization_id r | r. r \<in> set (tbl_comments d) \<and> c_id r = i}"
| "org_of_ref d (AttachmentsTable, i) = {a_organization_id r | r. r \<in> set (tbl_attachments d) \<and> a_id r = i}"
| "org_of_ref d (AuditLogsTable, i) = {al_organization_id r | r. r \<in> set (tbl_audit_logs d) \<and> al_id r = i}"
| "org_of_ref d (NotificationsTable, i) = {n_organization_id r | r. r \<in> set (tbl_notifications d) \<and> n_id r = i}"

text \<open>A row that references another with \<open>CASCADE\<close> has its organization, in a database within tenants.\<close>

lemma one_org:
  assumes "db_wf d"
  shows "r \<in> set (tbl_organization_members d) \<Longrightarrow> org_of_ref d (MembersTable, m_id r) = {m_organization_id r}"
    and "tm \<in> set (tbl_teams d) \<Longrightarrow> org_of_ref d (TeamsTable, tm_id tm) = {tm_organization_id tm}"
    and "tmm \<in> set (tbl_team_members d) \<Longrightarrow> org_of_ref d (TeamMembersTable, tmm_id tmm) = {tmm_organization_id tmm}"
    and "p \<in> set (tbl_projects d) \<Longrightarrow> org_of_ref d (ProjectsTable, p_id p) = {p_organization_id p}"
    and "t \<in> set (tbl_tasks d) \<Longrightarrow> org_of_ref d (TasksTable, t_id t) = {t_organization_id t}"
    and "c \<in> set (tbl_comments d) \<Longrightarrow> org_of_ref d (CommentsTable, c_id c) = {c_organization_id c}"
    and "a \<in> set (tbl_attachments d) \<Longrightarrow> org_of_ref d (AttachmentsTable, a_id a) = {a_organization_id a}"
    and "l \<in> set (tbl_audit_logs d) \<Longrightarrow> org_of_ref d (AuditLogsTable, al_id l) = {al_organization_id l}"
    and "n \<in> set (tbl_notifications d) \<Longrightarrow> org_of_ref d (NotificationsTable, n_id n) = {n_organization_id n}"
proof -
  have one: "{f q | q. q \<in> set xs \<and> k q = k r} = {f r}"
    if "r \<in> set xs" "\<And>r q. r \<in> set xs \<Longrightarrow> q \<in> set xs \<Longrightarrow> k r = k q \<Longrightarrow> r = q" for f :: "'a \<Rightarrow> uuid" and k :: "'a \<Rightarrow> uuid" and xs r
    using that by auto
  note rows = same_row [OF wf_tables(3) [OF assms], simplified] same_row [OF wf_tables(4) [OF assms], simplified]
    same_row [OF wf_tables(5) [OF assms], simplified] same_row [OF wf_tables(6) [OF assms], simplified]
    same_row [OF wf_tables(7) [OF assms], simplified] same_row [OF wf_tables(8) [OF assms], simplified]
    same_row [OF wf_tables(9) [OF assms], simplified] same_row [OF wf_tables(10) [OF assms], simplified]
    same_row [OF wf_tables(11) [OF assms], simplified]
  show "r \<in> set (tbl_organization_members d) \<Longrightarrow> org_of_ref d (MembersTable, m_id r) = {m_organization_id r}"
    unfolding org_of_ref.simps by (rule one, assumption, rule rows(1))
  show "tm \<in> set (tbl_teams d) \<Longrightarrow> org_of_ref d (TeamsTable, tm_id tm) = {tm_organization_id tm}"
    unfolding org_of_ref.simps by (rule one, assumption, rule rows(2))
  show "tmm \<in> set (tbl_team_members d) \<Longrightarrow> org_of_ref d (TeamMembersTable, tmm_id tmm) = {tmm_organization_id tmm}"
    unfolding org_of_ref.simps by (rule one, assumption, rule rows(3))
  show "p \<in> set (tbl_projects d) \<Longrightarrow> org_of_ref d (ProjectsTable, p_id p) = {p_organization_id p}"
    unfolding org_of_ref.simps by (rule one, assumption, rule rows(4))
  show "t \<in> set (tbl_tasks d) \<Longrightarrow> org_of_ref d (TasksTable, t_id t) = {t_organization_id t}"
    unfolding org_of_ref.simps by (rule one, assumption, rule rows(5))
  show "c \<in> set (tbl_comments d) \<Longrightarrow> org_of_ref d (CommentsTable, c_id c) = {c_organization_id c}"
    unfolding org_of_ref.simps by (rule one, assumption, rule rows(6))
  show "a \<in> set (tbl_attachments d) \<Longrightarrow> org_of_ref d (AttachmentsTable, a_id a) = {a_organization_id a}"
    unfolding org_of_ref.simps by (rule one, assumption, rule rows(7))
  show "l \<in> set (tbl_audit_logs d) \<Longrightarrow> org_of_ref d (AuditLogsTable, al_id l) = {al_organization_id l}"
    unfolding org_of_ref.simps by (rule one, assumption, rule rows(8))
  show "n \<in> set (tbl_notifications d) \<Longrightarrow> org_of_ref d (NotificationsTable, n_id n) = {n_organization_id n}"
    unfolding org_of_ref.simps by (rule one, assumption, rule rows(9))
qed

lemma parent_org:
  assumes "within_tenants d"
  shows "m \<in> set (tbl_team_members d) \<Longrightarrow> org_of_ref d (TeamsTable, tmm_team_id m) \<subseteq> {tmm_organization_id m}"
    and "t \<in> set (tbl_tasks d) \<Longrightarrow> org_of_ref d (ProjectsTable, t_project_id t) \<subseteq> {t_organization_id t}"
    and "t \<in> set (tbl_tasks d) \<Longrightarrow> t_parent_id t = Some i \<Longrightarrow> org_of_ref d (TasksTable, i) \<subseteq> {t_organization_id t}"
    and "c \<in> set (tbl_comments d) \<Longrightarrow> org_of_ref d (TasksTable, c_task_id c) \<subseteq> {c_organization_id c}"
    and "a \<in> set (tbl_attachments d) \<Longrightarrow> org_of_ref d (TasksTable, a_task_id a) \<subseteq> {a_organization_id a}"
  using assms by (auto simp: within_tenants_def)

text \<open>A row that goes with a row of one organization is of that organization.\<close>

lemma cascade_org:
  assumes wf: "db_wf d" and within: "within_tenants d" and link: "(x, y) \<in> set (cascade_links d)"
  shows "\<exists>b. org_of_ref d x = {b} \<and> org_of_ref d y \<subseteq> {b}"
proof -
  note one = one_org [OF wf] and par = parent_org [OF within]
  have base: "org_of_ref d (OrganizationsTable, i) \<subseteq> {i}" "org_of_ref d (UsersTable, u) \<subseteq> {j}" for i u j by simp_all
  show ?thesis
    using link unfolding cascade_link_cases
  proof (elim disjE bexE conjE)
    fix m assume "m \<in> set (tbl_organization_members d)" "x = (MembersTable, m_id m)"
      "y \<in> {(OrganizationsTable, m_organization_id m), (UsersTable, m_user_id m)}"
    then show ?thesis using one(1) base by blast
  next
    fix t assume "t \<in> set (tbl_teams d)" "x = (TeamsTable, tm_id t)" "y = (OrganizationsTable, tm_organization_id t)"
    then show ?thesis using one(2) base by blast
  next
    fix m assume "m \<in> set (tbl_team_members d)" "x = (TeamMembersTable, tmm_id m)"
      "y \<in> {(OrganizationsTable, tmm_organization_id m), (TeamsTable, tmm_team_id m), (UsersTable, tmm_user_id m)}"
    then show ?thesis using one(3) par(1) base by blast
  next
    fix p assume "p \<in> set (tbl_projects d)" "x = (ProjectsTable, p_id p)" "y = (OrganizationsTable, p_organization_id p)"
    then show ?thesis using one(4) base by blast
  next
    fix t assume "t \<in> set (tbl_tasks d)" "x = (TasksTable, t_id t)"
      "y \<in> {(OrganizationsTable, t_organization_id t), (ProjectsTable, t_project_id t)}"
    then show ?thesis using one(5) par(2) base by blast
  next
    fix t assume "t \<in> set (tbl_tasks d)" "x = (TasksTable, t_id t)" "\<exists>i. t_parent_id t = Some i \<and> y = (TasksTable, i)"
    then show ?thesis using one(5) par(3) by blast
  next
    fix c assume "c \<in> set (tbl_comments d)" "x = (CommentsTable, c_id c)"
      "y \<in> {(OrganizationsTable, c_organization_id c), (TasksTable, c_task_id c), (UsersTable, c_author_id c)}"
    then show ?thesis using one(6) par(4) base by blast
  next
    fix a assume "a \<in> set (tbl_attachments d)" "x = (AttachmentsTable, a_id a)"
      "y \<in> {(OrganizationsTable, a_organization_id a), (TasksTable, a_task_id a)}"
    then show ?thesis using one(7) par(5) base by blast
  next
    fix l assume "l \<in> set (tbl_audit_logs d)" "x = (AuditLogsTable, al_id l)" "y = (OrganizationsTable, al_organization_id l)"
    then show ?thesis using one(8) base by blast
  next
    fix n assume "n \<in> set (tbl_notifications d)" "x = (NotificationsTable, n_id n)"
      "y \<in> {(OrganizationsTable, n_organization_id n), (UsersTable, n_user_id n)}"
    then show ?thesis using one(9) base by blast
  qed
qed

lemma organization_rows:
  assumes "db_wf d" and "within_tenants d" and "x \<in> goes_with [(OrganizationsTable, b)] d"
  shows "org_of_ref d x = {b}"
  using assms(3)
proof (induction rule: goes_with_induct)
  case (link x y)
  with cascade_org [OF assms(1,2) link(1)] show ?case by auto
qed simp

lemma organization_gone:
  "(OrganizationsTable, i) \<in> goes_with [(OrganizationsTable, b)] d \<longleftrightarrow> i = b"
  "(UsersTable, i) \<notin> goes_with [(OrganizationsTable, b)] d"
  by (simp_all add: own_roots)

text \<open>
  The deletion succeeds, leaves nothing of the tenant and no user touched; where no row references a row of
  another tenant it leaves the other tenants as they were.
\<close>

lemma delete_organization:
  fixes b :: uuid
  assumes wf: "db_wf d"
  shows "\<exists>d'. delete_rows [(OrganizationsTable, b)] d = Inr d' \<and> db_wf d' \<and> tbl_users d' = tbl_users d \<and>
    tenant_view b d' = ([], [], [], [], [], [], [], [], [], []) \<and>
    (within_tenants d \<longrightarrow> (\<forall>c. c \<noteq> b \<longrightarrow> tenant_view c d' = tenant_view c d))"
proof -
  let ?G = "goes_with [(OrganizationsTable, b)] d"
  let ?d = "remove_rows ?G d"
  have delete: "delete_rows [(OrganizationsTable, b)] d = Inr ?d"
    by (auto simp: delete_rows_cases restrict_link_cases organization_gone)
  note gone = deletable_tables [OF delete_rows_deletable [OF delete]]
  have null: "set_null ?G UsersTable v = v" for v by (rule set_null_users) (rule organization_gone)
  have users: "tbl_users ?d = tbl_users d" by (simp add: remove_rows_def organization_gone)
  have "tenant_view b ?d = ([], [], [], [], [], [], [], [], [], [])"
    by (auto simp: tenant_view_def org_rows_def remove_rows_def filter_empty_conv organization_gone dest: gone)
  moreover have "tenant_view c ?d = tenant_view c d" if within: "within_tenants d" and c: "c \<noteq> b" for c
  proof -
    note rows = organization_rows [OF wf within]
    have keep: "x \<notin> ?G" if "org_of_ref d x = {c}" for x using rows [of x b] that c by auto
    have team: "set_null ?G TeamsTable (p_team_id p) = p_team_id p"
      if p: "p \<in> set (tbl_projects d)" "p_organization_id p = c" for p
    proof (cases "p_team_id p")
      case (Some i)
      have "(TeamsTable, i) \<notin> ?G"
      proof
        assume i: "(TeamsTable, i) \<in> ?G"
        from rows [OF i] have "b \<in> org_of_ref d (TeamsTable, i)" by blast
        then obtain t where "t \<in> set (tbl_teams d)" "tm_id t = i" "tm_organization_id t = b" by auto
        with within p Some c show False by (auto simp: within_tenants_def)
      qed
      with Some show ?thesis by (simp add: set_null_def)
    qed (simp add: set_null_def)
    note one = one_org [OF wf]
    have projects: "filter (\<lambda>r. p_organization_id r = c) (tbl_projects ?d) = filter (\<lambda>r. p_organization_id r = c) (tbl_projects d)"
    proof -
      have "filter (\<lambda>r. p_organization_id r = c) (tbl_projects ?d) =
        map (\<lambda>r. r\<lparr>p_team_id := set_null ?G TeamsTable (p_team_id r)\<rparr>) (filter (\<lambda>r. p_organization_id r = c) (tbl_projects d))"
        by (simp add: remove_rows_def filter_map comp_def) (rule arg_cong [where f = "map _"], rule filter_cong, use keep one(4) in auto)
      also have "\<dots> = filter (\<lambda>r. p_organization_id r = c) (tbl_projects d)"
        by (rule map_idI) (simp add: team)
      finally show ?thesis .
    qed
    show ?thesis
      unfolding tenant_view_def org_rows_def rows_of_tables org_of_tables projects
      by (simp add: remove_rows_def null filter_map comp_def)
        (intro conjI; rule filter_cong [OF refl]; use keep one c organization_gone(1) in auto)
  qed
  ultimately show ?thesis using delete delete_rows_wf [OF wf delete] users by blast
qed

section \<open>The deletion of a user\<close>

lemma user_gone:
  assumes wf: "db_wf d"
  shows "(OrganizationsTable, i) \<notin> goes_with [(UsersTable, u)] d"
    and "(UsersTable, i) \<in> goes_with [(UsersTable, u)] d \<longleftrightarrow> i = u"
    and "(T, i) \<in> goes_with [(UsersTable, u)] d \<Longrightarrow> T \<in> {UsersTable, MembersTable, TeamMembersTable, CommentsTable, NotificationsTable}"
proof -
  show "(OrganizationsTable, i) \<notin> goes_with [(UsersTable, u)] d" "(UsersTable, i) \<in> goes_with [(UsersTable, u)] d \<longleftrightarrow> i = u"
    by (simp_all add: own_roots)
  have "fst x \<in> {UsersTable, MembersTable, TeamMembersTable, CommentsTable, NotificationsTable}"
    if "x \<in> goes_with [(UsersTable, u)] d" for x
    using that
  proof (induction rule: goes_with_induct)
    case (link x y)
    then have "y \<noteq> (OrganizationsTable, j)" for j by (auto simp: own_roots)
    with link show ?case unfolding cascade_link_cases by auto
  qed simp
  from this [of "(T, i)"] show "(T, i) \<in> goes_with [(UsersTable, u)] d \<Longrightarrow>
      T \<in> {UsersTable, MembersTable, TeamMembersTable, CommentsTable, NotificationsTable}" by simp
qed

text \<open>The rows that reference the user with \<open>CASCADE\<close>, and nothing else, go with it.\<close>

lemma user_children:
  assumes wf: "db_wf d"
  shows "m \<in> set (tbl_organization_members d) \<Longrightarrow>
      (MembersTable, m_id m) \<in> goes_with [(UsersTable, u)] d \<longleftrightarrow> m_user_id m = u"
    and "tmm \<in> set (tbl_team_members d) \<Longrightarrow>
      (TeamMembersTable, tmm_id tmm) \<in> goes_with [(UsersTable, u)] d \<longleftrightarrow> tmm_user_id tmm = u"
    and "c \<in> set (tbl_comments d) \<Longrightarrow> (CommentsTable, c_id c) \<in> goes_with [(UsersTable, u)] d \<longleftrightarrow> c_author_id c = u"
    and "n \<in> set (tbl_notifications d) \<Longrightarrow>
      (NotificationsTable, n_id n) \<in> goes_with [(UsersTable, u)] d \<longleftrightarrow> n_user_id n = u"
proof -
  let ?G = "goes_with [(UsersTable, u)] d"
  have G: "y \<in> ?G \<Longrightarrow> fst y \<noteq> UsersTable \<Longrightarrow> fst y \<in> {MembersTable, TeamMembersTable, CommentsTable, NotificationsTable}" for y
    using user_gone(3) [OF wf, of "fst y" "snd y" u] by simp
  have iff: "x \<in> ?G \<longleftrightarrow> (\<exists>y \<in> ?G. (x, y) \<in> set (cascade_links d))" if "fst x \<noteq> UsersTable" for x
    by (subst goes_with_iff) (use that in auto)
  have user: "(UsersTable, i) \<in> ?G \<longleftrightarrow> i = u" for i by (simp add: own_roots)
  have no: "(OrganizationsTable, i) \<notin> ?G" "(TasksTable, i) \<notin> ?G" "(TeamsTable, i) \<notin> ?G" for i using G by force+
  show "(MembersTable, m_id m) \<in> ?G \<longleftrightarrow> m_user_id m = u" if m: "m \<in> set (tbl_organization_members d)"
  proof -
    have "q = m" if "q \<in> set (tbl_organization_members d)" "m_id q = m_id m" for q
      using same_row [OF wf_tables(3) [OF wf], of q m] that m by simp
    then have "(\<exists>y \<in> ?G. ((MembersTable, m_id m), y) \<in> set (cascade_links d)) \<longleftrightarrow> m_user_id m = u"
      unfolding cascade_link_cases using m no user by auto
    then show ?thesis using iff by simp
  qed
  show "(TeamMembersTable, tmm_id tmm) \<in> ?G \<longleftrightarrow> tmm_user_id tmm = u" if m: "tmm \<in> set (tbl_team_members d)"
  proof -
    have "q = tmm" if "q \<in> set (tbl_team_members d)" "tmm_id q = tmm_id tmm" for q
      using same_row [OF wf_tables(5) [OF wf], of q tmm] that m by simp
    then have "(\<exists>y \<in> ?G. ((TeamMembersTable, tmm_id tmm), y) \<in> set (cascade_links d)) \<longleftrightarrow> tmm_user_id tmm = u"
      unfolding cascade_link_cases using m no user by auto
    then show ?thesis using iff by simp
  qed
  show "(CommentsTable, c_id c) \<in> ?G \<longleftrightarrow> c_author_id c = u" if m: "c \<in> set (tbl_comments d)"
  proof -
    have "q = c" if "q \<in> set (tbl_comments d)" "c_id q = c_id c" for q
      using same_row [OF wf_tables(8) [OF wf], of q c] that m by simp
    then have "(\<exists>y \<in> ?G. ((CommentsTable, c_id c), y) \<in> set (cascade_links d)) \<longleftrightarrow> c_author_id c = u"
      unfolding cascade_link_cases using m no user by auto
    then show ?thesis using iff by simp
  qed
  show "(NotificationsTable, n_id n) \<in> ?G \<longleftrightarrow> n_user_id n = u" if m: "n \<in> set (tbl_notifications d)"
  proof -
    have "q = n" if "q \<in> set (tbl_notifications d)" "n_id q = n_id n" for q
      using same_row [OF wf_tables(11) [OF wf], of q n] that m by simp
    then have "(\<exists>y \<in> ?G. ((NotificationsTable, n_id n), y) \<in> set (cascade_links d)) \<longleftrightarrow> n_user_id n = u"
      unfolding cascade_link_cases using m no user by auto
    then show ?thesis using iff by simp
  qed
qed

text \<open>A user who has reported a task or uploaded an attachment, in whatever tenant, cannot be deleted.\<close>

definition unassigned :: "uuid \<Rightarrow> uuid option \<Rightarrow> uuid option" where
  "unassigned u v = (if v = Some u then None else v)"

lemma delete_user:
  assumes wf: "db_wf d"
  shows "delete_rows [(UsersTable, u)] d =
    (if (\<exists>t \<in> set (tbl_tasks d). t_reporter_id t = u) \<or> (\<exists>a \<in> set (tbl_attachments d). a_uploader_id a = u)
     then Inl IntegrityError
     else Inr (d\<lparr>
       tbl_users := filter (\<lambda>r. u_id r \<noteq> u) (tbl_users d),
       tbl_organization_members := filter (\<lambda>m. m_user_id m \<noteq> u) (tbl_organization_members d),
       tbl_team_members := filter (\<lambda>m. tmm_user_id m \<noteq> u) (tbl_team_members d),
       tbl_tasks := map (\<lambda>t. t\<lparr>t_assignee_id := unassigned u (t_assignee_id t)\<rparr>) (tbl_tasks d),
       tbl_comments := filter (\<lambda>c. c_author_id c \<noteq> u) (tbl_comments d),
       tbl_audit_logs := map (\<lambda>l. l\<lparr>al_actor_id := unassigned u (al_actor_id l)\<rparr>) (tbl_audit_logs d),
       tbl_notifications := map (\<lambda>n. n\<lparr>n_actor_id := unassigned u (n_actor_id n)\<rparr>)
         (filter (\<lambda>n. n_user_id n \<noteq> u) (tbl_notifications d))\<rparr>))"
proof -
  let ?G = "goes_with [(UsersTable, u)] d"
  note gone = user_gone(3) [OF wf, of _ _ u]
  have no: "(OrganizationsTable, i) \<notin> ?G" "(TeamsTable, i) \<notin> ?G" "(ProjectsTable, i) \<notin> ?G" "(TasksTable, i) \<notin> ?G"
    "(AttachmentsTable, i) \<notin> ?G" "(AuditLogsTable, i) \<notin> ?G" for i using gone by force+
  have user: "(UsersTable, i) \<in> ?G \<longleftrightarrow> i = u" for i by (simp add: own_roots)
  have null: "set_null ?G UsersTable v = unassigned u v" "set_null ?G TeamsTable w = w" for v w
    by (simp_all add: set_null_def unassigned_def user no split: option.splits)
  note children = user_children [OF wf, where u = u]
  have "(\<exists>x y. (x, y, RESTRICT) \<in> set (links d) \<and> y \<in> ?G) \<longleftrightarrow>
      (\<exists>t \<in> set (tbl_tasks d). t_reporter_id t = u) \<or> (\<exists>a \<in> set (tbl_attachments d). a_uploader_id a = u)"
    unfolding restrict_link_cases using user by blast
  then show ?thesis
    by (simp add: delete_rows_cases remove_rows_def user no null children cong: filter_cong)
qed

end
