(* ===== verification/Service.thy ===== *)
theory Service
  imports Disclosure Collaboration Cascades
begin

text \<open>
  The properties of the service as a whole: its invariants at every moment of every run, the isolation
  of tenants over runs, what runs never take back, and the routes of its calls. A platform made of
  the concrete instances of the outside world shows that the hypotheses can hold.
\<close>

section \<open>A platform\<close>

definition sample_platform :: "store platform" where
  "sample_platform = \<lparr>pf_jwt = plain_jwt, pf_hasher = plain_hasher, pf_redis = memory_cache,
     pf_project_schema = plain_project_schema, pf_s3 = sample_s3, pf_bucket = ''saas-attachments'',
     pf_decimal = (\<lambda>n. ''1.0''), pf_fromisoformat = (\<lambda>t. None),
     pf_order_members = (\<lambda>rs. rs), pf_order_teams = (\<lambda>rs. rs), pf_order_team_members = rev,
     pf_order_projects = rev, pf_order_tasks = (\<lambda>rs. rs), pf_order_comments = (\<lambda>rs. rs),
     pf_order_attachments = (\<lambda>rs. rs), pf_order_audit_logs = rev\<rparr>"

text \<open>A day in the life: a task is created and patched, the worker sweeps.\<close>

definition sample_events :: "store platform_event list" where
  "sample_events =
     [Call (Tenant sample_access 10 (PostTask sample_stamp sample_audit sample_create)),
      Call (Tenant sample_access 10 (DeleteTask 1500 1500 5000))]"

lemma sample_jobs_simps [simp]:
  "committed sample_jobs = sample_db" "work sample_jobs = sample_db"
  by (simp_all add: sample_jobs_def session.defs app_state.defs)

section \<open>Invariants of runs\<close>

text \<open>
  C2. Nothing the service does can break the database: unique keys, foreign keys and column sizes of all
  tables hold at every moment of every run of calls, sweeps and changes of the environment, whatever the
  calls return or raise.
\<close>

theorem database_stays_well_formed:
  assumes "session_wf s"
  shows "db_wf (committed (run P es s)) \<and> db_wf (work (run P es s))"
  using run_wf [OF assms] by (simp add: session_wf_def)

lemma database_stays_well_formed_witness:
  "db_wf (committed (run sample_platform (sample_events @ [Sweep 30]) sample_jobs))"
  using database_stays_well_formed [of sample_jobs sample_platform "sample_events @ [Sweep 30]"]
  by (simp add: session_wf_def)







text \<open>
  C5. What a run never takes back: users, memberships with their roles, teams, team members and audit
  entries that are committed stay as they were written, ahead of all later ones, through sweeps too;
  without a sweep no organization, project or task goes either.
\<close>

theorem history_is_kept:
  assumes "work s = committed s"
  shows "appended (committed s) (committed (run P es s)) \<and>
    (set es \<inter> range Sweep = {} \<longrightarrow> grows (committed s) (committed (run P es s)))"
proof -
  have s: "keeps_history (committed s) s" using assms by (simp add: keeps_history_def)
  then have "keeps_history (without_tasks (committed s)) s" by (simp add: keeps_history_def extends_without_tasks)
  from run_sweeps [OF this, of P es] have "appended (committed s) (committed (run P es s))"
    by (simp add: keeps_history_def extends_def appended_def without_tasks_def)
  with run_history [OF s, of es P] show ?thesis by (simp add: keeps_history_def extends_def)
qed

lemma history_is_kept_witness:
  "appended sample_db (committed (run sample_platform (sample_events @ [Sweep 30]) sample_jobs)) \<and>
   grows sample_db (committed (run sample_platform sample_events sample_jobs))"
proof -
  have "set sample_events \<inter> range Sweep = {}" by (auto simp: sample_events_def)
  with history_is_kept [of sample_jobs sample_platform sample_events]
    history_is_kept [of sample_jobs sample_platform "sample_events @ [Sweep 30]"]
  show ?thesis by simp
qed

section \<open>Routes\<close>

text \<open>
  C39. Every call reaches its endpoint: the route table resolves the method and URL of any call, whatever
  identifiers are in it, to the route of that call's endpoint and to no other; a call that returns is
  answered with that route's status, a call that raises with the status of its exception.
\<close>

theorem calls_are_routed:
  assumes "path_laws matches"
  shows "resolve matches (rt_method (call_route c)) (call_url c) = Some (call_route c) \<and>
    rt_endpoint (call_route c) = fst (call_endpoint c) \<and>
    an_status (fst (serve_call P q c s)) =
      (case fst (perform P c s) of Inr _ \<Rightarrow> rt_status (call_route c) | Inl e \<Rightarrow> exn_status e) \<and>
    snd (serve_call P q c s) = snd (perform P c s)"
proof -
  have "an_status (serve_request q (Inr a)) = an_status a" for a
    by (simp add: serve_request_def dispatch_def call_next_def)
  then show ?thesis
    using call_resolves [OF assms, of c] serve_request_failed [of q]
    by (cases "perform P c s"; cases "fst (perform P c s)") (simp_all add: serve_call_def split: prod.splits)
qed

lemma calls_are_routed_witness:
  "resolve (list_all2 segment_accepts) GET [''api'', ''v1'', ''tasks'', uuid_str 7] =
     Some (call_route (Tenant sample_access 10 (GetTask 7)))"
proof -
  have "path_laws (list_all2 segment_accepts)" by (simp add: path_laws_def)
  from conjunct1 [OF calls_are_routed [OF this, of "Tenant sample_access 10 (GetTask 7)"]] show ?thesis
    by (simp add: call_url_def call_route_def endpoint_route_def routes_defs)
qed

section \<open>Roles\<close>

text \<open>The role matrix: the least role each call needs in the organization it names.\<close>

fun call_min_role :: "tenant_call \<Rightarrow> org_role" where
  "call_min_role (PatchOrganization now payload) = ADMIN"
| "call_min_role (PostInvite st payload) = ADMIN"
| "call_min_role (GetAuditLogs filters page page_size) = ADMIN"
| "call_min_role (PostTeam st payload) = MANAGER"
| "call_min_role (PostTeamMember st team_id user_id) = MANAGER"
| "call_min_role (PostProject st ast payload) = MANAGER"
| "call_min_role (PatchProject now ast project_id payload) = MANAGER"
| "call_min_role (PostTask st ast payload) = MEMBER"
| "call_min_role (PatchTask now ast task_id payload) = MEMBER"
| "call_min_role (DeleteTask db_now now task_id) = MEMBER"
| "call_min_role (PostComment st task_id payload) = MEMBER"
| "call_min_role (PatchComment now task_id comment_id payload) = MEMBER"
| "call_min_role (PostUploadUrl task_id payload) = MEMBER"
| "call_min_role (PostAttachment st task_id payload) = MEMBER"
| "call_min_role c = VIEWER"

lemma request_refused:
  "fst (authorize J r token org (s\<lparr>work := committed s\<rparr>)) = Inl e \<Longrightarrow>
     answered f (request J r token org handler) s = (Inl e, opened s)"
  by (simp add: answered_def bindE_def request_cases)

lemma tenant_request_refused:
  assumes "fst (authorize (pf_jwt P) (call_min_role c) token org (s\<lparr>work := committed s\<rparr>)) = Inl e"
  shows "tenant_request P token org c s = (Inl e, opened s)"
proof -
  note endpoints = get_current_organization_def patch_current_organization_def get_organization_members_def
    post_member_invite_def post_team_def get_teams_def get_team_def post_team_member_def post_project_def
    list_projects_def get_project_def patch_project_def post_task_def list_tasks_def list_tasks_feed_def get_task_def
    patch_task_def delete_task_def post_comment_def get_comments_def patch_comment_def post_upload_url_def
    post_attachment_def get_attachments_def query_audit_logs_def
  show ?thesis using assms by (cases c) (simp_all add: endpoints request_refused)
qed

text \<open>
  C8. The role matrix is enforced: a call in the name of an organization runs only for a member of it
  whose role is at least the one the matrix demands; any other is refused with the error of the
  dependency chain, and neither the database, nor Redis, nor the published events, nor the job
  queue have changed.
\<close>

theorem roles_bound_calls:
  assumes "db_wf (committed s)"
  shows "(case fst (authorize (pf_jwt P) (call_min_role c) token org (s\<lparr>work := committed s\<rparr>)) of
      Inl e \<Rightarrow> perform P (Tenant token org c) s = (Inl e, opened s)
    | Inr ctx \<Rightarrow> ctx_organization_id ctx = org \<and>
        (\<exists>m. membership org (u_id (ctx_user ctx)) (committed s) = Some m \<and> call_min_role c \<le> m_role m)) \<and>
    committed (opened s) = committed s \<and> redis (opened s) = redis s \<and> published (opened s) = published s \<and>
    job_queue (opened s) = job_queue s"
proof (cases "fst (authorize (pf_jwt P) (call_min_role c) token org (s\<lparr>work := committed s\<rparr>))")
  case (Inl e)
  then have "perform P (Tenant token org c) s = (Inl e, opened s)"
    by (simp add: answered_def bindE_def tenant_request_refused)
  with Inl show ?thesis by (simp add: opened_def)
next
  case (Inr ctx)
  with authorize_ok [of "s\<lparr>work := committed s\<rparr>" "pf_jwt P" "call_min_role c" token org ctx] assms show ?thesis
    by (auto simp: opened_def)
qed

lemma roles_bound_calls_witness:
  "perform sample_platform (Tenant sample_access 20 (PostInvite sample_stamp \<lparr>mi_email = ''bob@b.io'', mi_role = OWNER\<rparr>)) sample_jobs =
     (Inl (HTTPException 403 ''You are not a member of the requested organization.'' []), opened sample_jobs)"
proof -
  have "fst (authorize plain_jwt ADMIN sample_access 20 (sample_jobs\<lparr>work := sample_db\<rparr>)) =
      Inl (HTTPException 403 ''You are not a member of the requested organization.'' [])"
    by (simp add: authorize_def bindE_def sample_access_def get_current_user_issued [OF plain_jwt_laws] expiry_second_def require_role_def get_membership_eq some_or_raise_def sample_jobs_def session.defs app_state.defs sample_rows membership_def)
  with roles_bound_calls [where s = sample_jobs and P = sample_platform and token = sample_access and org = 20
      and c = "PostInvite sample_stamp \<lparr>mi_email = ''bob@b.io'', mi_role = OWNER\<rparr>"]
  show ?thesis by (simp add: sample_platform_def)
qed

section \<open>The sweeper's DELETE\<close>

text \<open>
  C33. The sweeper does what its DELETE does under the foreign keys the models declare: the rows it removes are
  the expired tasks and all rows that reach one of them along references with ON DELETE CASCADE, no
  reference with RESTRICT stops it, and no key is set to NULL.
\<close>

theorem sweep_is_declared_delete:
  assumes "db_wf (committed s)" and "commit_fault s = None"
    and "cutoff = clock s 0 - n * 86400 * usec_per_sec"
    and "cleanup_soft_deleted_tasks_job n s = (r, s')"
  shows "delete_rows (map (\<lambda>t. (TasksTable, t_id t)) (filter (expired cutoff) (tbl_tasks (committed s)))) (committed s) =
      Inr (committed s') \<and>
    committed s' = remove_rows {x. \<exists>t \<in> set (tbl_tasks (committed s)). expired cutoff t \<and>
        (x, (TasksTable, t_id t)) \<in> (set (cascade_links (committed s)))\<^sup>*} (committed s) \<and>
    tbl_projects (committed s') = tbl_projects (committed s) \<and> tbl_audit_logs (committed s') = tbl_audit_logs (committed s)"
proof -
  let ?d = "committed s"
  have run: "committed s' = purge cutoff ?d" using assms(2,4) by (auto simp: cleanup_eq Let_def assms(3))
  moreover have "tbl_projects (committed s') = tbl_projects ?d \<and> tbl_audit_logs (committed s') = tbl_audit_logs ?d"
    by (simp add: run)
  moreover have delete: "delete_rows (sweep_roots cutoff ?d) ?d = Inr (purge cutoff ?d)" by (rule delete_sweep [OF assms(1)])
  moreover have "purge cutoff ?d = remove_rows (goes_with (sweep_roots cutoff ?d) ?d) ?d"
    using delete by (auto simp: delete_rows_cases split: if_splits)
  moreover have "goes_with (sweep_roots cutoff ?d) ?d = {x. \<exists>t \<in> set (tbl_tasks ?d). expired cutoff t \<and>
      (x, (TasksTable, t_id t)) \<in> (set (cascade_links ?d))\<^sup>*}"
    by (auto simp: goes_with_def sweep_roots_def)
  ultimately show ?thesis unfolding sweep_roots_def by metis
qed

lemma sweep_is_declared_delete_witness:
  "\<exists>r s'. cleanup_soft_deleted_tasks_job 0 (sample_state\<lparr>committed := sample_doomed\<rparr>) = (r, s') \<and>
     delete_rows [(TasksTable, 5000)] sample_doomed = Inr (committed s')"
proof -
  let ?s = "sample_state\<lparr>committed := sample_doomed\<rparr>"
  obtain r s' where run: "cleanup_soft_deleted_tasks_job 0 ?s = (r, s')" by force
  have "db_wf (committed ?s)" "commit_fault ?s = None" by (simp_all add: sample_doomed_wf)
  from sweep_is_declared_delete [OF this refl run] run show ?thesis
    by (simp add: sample_doomed_def sample_task_def expired_def)
qed

end
