(* ===== verification/Upgrades.thy ===== *)
theory Upgrades
  imports Migrations
begin

text \<open>
  Running the migrations (\<open>alembic/env.py\<close>): the revisions as the linked list their files make, and the
  upgrade to the head, which runs what a database still lacks in one transaction. Which revision a database
  is at is Alembic's own record, kept with the schema.
\<close>

section \<open>Revisions\<close>

record revision =
  rv_revision :: pystr
  rv_down_revision :: "pystr option"
  rv_upgrade :: "op list"
  rv_downgrade :: "op list"

definition core_revision :: revision where
  "core_revision = \<lparr>rv_revision = ''745e36ac4031'', rv_down_revision = None,
     rv_upgrade = core_upgrade, rv_downgrade = core_downgrade\<rparr>"

definition occ_revision :: revision where
  "occ_revision = \<lparr>rv_revision = ''84d61c534314'', rv_down_revision = Some ''745e36ac4031'',
     rv_upgrade = occ_upgrade, rv_downgrade = occ_downgrade\<rparr>"

definition script_directory :: "revision list" where
  "script_directory = [core_revision, occ_revision]"

text \<open>What lies between a revision and the head: each revision names the one before it.\<close>

fun upgrade_path :: "nat \<Rightarrow> revision list \<Rightarrow> pystr option \<Rightarrow> revision list" where
  "upgrade_path 0 rs current = []"
| "upgrade_path (Suc n) rs current =
     (case find (\<lambda>r. rv_down_revision r = current) rs of
        None \<Rightarrow> []
      | Some r \<Rightarrow> r # upgrade_path n rs (Some (rv_revision r)))"

definition pending :: "pystr option \<Rightarrow> revision list" where
  "pending current = upgrade_path (length script_directory) script_directory current"

definition pending_ops :: "pystr option \<Rightarrow> op list" where
  "pending_ops current = concat (map rv_upgrade (pending current))"

type_synonym migrated = "pystr option \<times> schema_state"

text \<open>Online: one transaction around all pending revisions, so that a failing statement leaves nothing.\<close>

fun run_migrations_online :: "migrated \<Rightarrow> (ddl_error + unit) \<times> migrated" where
  "run_migrations_online (current, s) =
     (case run_ops (pending_ops current) s of
        Inl e \<Rightarrow> (Inl e, (current, s))
      | Inr s' \<Rightarrow> (Inr (), (if pending current = [] then current else Some (rv_revision (last (pending current))), s')))"

text \<open>Offline: the statements are written out, and no database is touched.\<close>

definition run_migrations_offline :: "pystr option \<Rightarrow> op list" where
  "run_migrations_offline current = pending_ops current"

section \<open>What they do\<close>

lemma pending_simps:
  "pending None = [core_revision, occ_revision]"
  "pending (Some ''745e36ac4031'') = [occ_revision]"
  "pending (Some ''84d61c534314'') = []"
  by code_simp+

lemma pending_ops_simps:
  "pending_ops None = core_upgrade @ occ_upgrade"
  "pending_ops (Some ''745e36ac4031'') = occ_upgrade"
  "pending_ops (Some ''84d61c534314'') = []"
  by (simp_all add: pending_ops_def pending_simps core_revision_def occ_revision_def)

lemma online_from_nothing:
  "run_migrations_online (None, empty_schema) = (Inr (), (Some ''84d61c534314'', core_schema\<lparr>sc_tables := head_tables\<rparr>))"
proof -
  have "run_ops (core_upgrade @ occ_upgrade) empty_schema = run_ops occ_upgrade (core_schema\<lparr>sc_occupied := []\<rparr>)"
    unfolding run_ops_append core_upgrade_run by (simp add: core_schema_def)
  then show ?thesis
    using occ_upgrade_run [of "[]"]
    by (simp add: pending_ops_simps pending_simps occ_revision_def) (simp add: core_schema_def)
qed

lemma online_from_core:
  "run_migrations_online (Some ''745e36ac4031'', core_schema\<lparr>sc_occupied := occupied\<rparr>) =
     (Inr (), (Some ''84d61c534314'', core_schema\<lparr>sc_occupied := occupied, sc_tables := head_tables\<rparr>))"
  by (simp add: pending_ops_simps pending_simps occ_revision_def occ_upgrade_run)

lemma online_at_head: "run_migrations_online (Some ''84d61c534314'', s) = (Inr (), (Some ''84d61c534314'', s))"
  by (simp add: pending_ops_simps pending_simps)

lemma online_atomic: "run_migrations_online m = (Inl e, m') \<Longrightarrow> m' = m"
  by (cases m) (auto split: sum.splits)

text \<open>The script of an offline run does to a database what an online run does.\<close>

lemma offline_script:
  "fst (run_migrations_online (current, s)) = map_sum id (\<lambda>_. ()) (run_ops (run_migrations_offline current) s)"
  by (auto simp: run_migrations_offline_def split: sum.splits)

end
