(* ===== verification/Deployment.thy ===== *)
theory Deployment
  imports Sample AuthApi Ops Upgrades
begin

text \<open>
  Properties of the service as it is deployed: throttled logins, logout, the tracing of requests and
  the schema migrations.
\<close>

section \<open>Authentication endpoints\<close>

text \<open>
  C23. Guessing passwords is throttled: of the login attempts of one client address, in time order,
  at most 5 of any 60 seconds reach the password check, whatever they send; every other attempt is
  answered 429 before the database is asked.
\<close>

theorem login_throttled:
  fixes s :: "('r, 'z) app_state_scheme"
  assumes "redis_zset_laws R" and "db_wf (committed s)" and "\<not> redis_down s"
    and "\<forall>t. zset_at R t (rate_key h ''/api/v1/auth/login'') (redis s) = []"
    and "sorted (map (fst \<circ> fst) xs)" and "\<forall>x \<in> set xs. 0 \<le> fst (fst x)" and "members_apart fmt (map fst xs)"
  shows "length (filter (\<lambda>(((t', perf), payload), r). \<not> throttled r \<and> t - 60 * usec_per_sec < t' \<and> t' \<le> t)
    (zip xs (attempts R fmt H J h xs s))) \<le> 5"
proof -
  let ?hits = "map fst xs" and ?L = login_rate_limiter
  let ?served = "map (\<lambda>r. \<not> throttled r) (attempts R fmt H J h xs s)"
  have "window_holds R fmt (rl_window ?L) (rate_key h login_path) [] (redis s)"
    using assms(4) by (simp add: window_holds_def zset_laws(2) [OF assms(1)] login_path_def)
  then have "serve R fmt ?L h login_path ?hits s = window_spec ?L [] ?hits"
    by (rule serve_spec [OF assms(1), rotated]) (use assms in \<open>auto simp: login_rate_limiter_def\<close>)
  then have served: "?served = window_spec ?L [] ?hits"
    by (simp add: attempts_serve [OF assms(2,3)])
  have "int (passed_in (rl_window ?L) t ?hits ?served) \<le> rl_limit ?L"
    unfolding served by (rule passed_in_bound) (use assms(5) in \<open>simp_all add: login_rate_limiter_def\<close>)
  moreover have "passed_in (rl_window ?L) t ?hits ?served =
      length (filter (\<lambda>(((t', perf), payload), r). \<not> throttled r \<and> t - 60 * usec_per_sec < t' \<and> t' \<le> t)
        (zip xs (attempts R fmt H J h xs s)))"
    by (simp add: passed_in_def in_window_def login_rate_limiter_def zip_map1 zip_map2 filter_map comp_def split_def)
  ultimately show ?thesis by (simp add: login_rate_limiter_def)
qed

definition sample_guess :: attempt where
  "sample_guess = ((1000, 1), \<lparr>ul_email = ''ann@a.io'', ul_password = ''guess''\<rparr>)"

lemma login_throttled_witness:
  "length (filter (\<lambda>(((t', perf), payload), r). \<not> throttled r \<and> 2000 - 60 * usec_per_sec < t' \<and> t' \<le> 2000)
    (zip [sample_guess] (attempts memory_redis py_str_int plain_hasher plain_jwt None [sample_guess] sample_state))) \<le> 5"
  by (rule login_throttled [OF memory_redis_zset_laws])
    (simp_all add: sample_guess_def members_apart_def memory_redis_def store_zset_def live_def)

text \<open>
  C24. Logout revokes when it can and never fails: the answer is the same whatever happens; when Redis
  answers, a valid refresh token is refused from then on (up to its last second); when Redis does
  not, or the token is an access token, nothing is revoked and nobody is told.
\<close>

theorem logout_revokes:
  fixes s s2 :: "('r, 'z) app_state_scheme"
  assumes "jwt_laws J" and "redis_string_laws R" and "i \<le> clock s 0" and "representable e"
    and "clock s 0 < expiry_second e" and "clock s 1 \<le> expiry_second e - usec_per_sec"
    and "post_logout R J (issued J u jti ty e i) s = (r, s1)"
    and "redis s2 = redis s1" and "\<not> redis_down s2" and "steady (clock s2)" and "i \<le> clock s2 0"
    and "clock s 1 \<le> clock s2 1" and "clock s2 1 \<le> expiry_second e - usec_per_sec"
  shows "r = Inr () \<and>
    (if redis_down s \<or> ty \<noteq> ''refresh'' then redis s1 = redis s
     else fst (refresh_tokens R J (issued J u jti ty e i) s2) = Inl refresh_revoked)"
proof -
  obtain n where out: "post_logout R J (issued J u jti ty e i) s =
    (Inr (), (advance n s)\<lparr>work := committed s, redis :=
       if expiry_second e \<le> clock s 0 \<or> ty \<noteq> ''refresh'' \<or> redis_down s then redis s
       else revoked_store R jti (clock s 1) e (redis s)\<rparr>)"
    using post_logout_issued [OF assms(1,3,4)] by metis
  have r: "r = Inr ()" "redis s1 = (if ty \<noteq> ''refresh'' \<or> redis_down s then redis s else revoked_store R jti (clock s 1) e (redis s))"
    using assms(5,7) out by (auto simp: advance_def)
  show ?thesis
  proof (cases "redis_down s \<or> ty \<noteq> ''refresh''")
    case False
    have "clock s2 1 < clock s 1 + int_seconds (expiry_second e - clock s 1) * usec_per_sec"
      using int_seconds_bounds [of "expiry_second e - clock s 1"] assms(6,13) by simp
    then have "revoked_at R (uuid_str jti) (clock s2 1) (redis s2)"
      using revoked_store_until [OF assms(2,12,6)] assms(8) r(2) False by simp
    moreover have "clock s2 0 < expiry_second e"
      using assms(10,13) unfolding steady_def by (smt (verit) zero_le_one)
    ultimately show ?thesis
      using refresh_tokens_issued [OF assms(1,11,4)] assms(9) r(1) False by simp
  qed (use r in auto)
qed

lemma logout_revokes_witness:
  "fst (refresh_tokens memory_redis plain_jwt (sample_refresh 600000000)
     (snd (post_logout memory_redis plain_jwt (sample_refresh 600000000) sample_state))) = Inl refresh_revoked"
proof -
  obtain n where n: "n \<le> 2" and out: "post_logout memory_redis plain_jwt (sample_refresh 600000000) sample_state =
    (Inr (), (advance n sample_state)\<lparr>work := sample_db, redis := revoked_store memory_redis 78 1001 600000000 (\<lambda>_. None)\<rparr>)"
    using post_logout_issued [OF plain_jwt_laws, of 0 sample_state 600000000 memory_redis 1 78 "''refresh''"]
    by (auto simp: sample_refresh_def representable_def expiry_second_def)
  let ?s1 = "(advance n sample_state)\<lparr>work := sample_db, redis := revoked_store memory_redis 78 1001 600000000 (\<lambda>_. None)\<rparr>"
  have run: "post_logout memory_redis plain_jwt (issued plain_jwt 1 78 ''refresh'' 600000000 0) sample_state = (Inr (), ?s1)"
    using out by (simp add: sample_refresh_def)
  have "(Inr () :: exn + unit) = Inr () \<and> (if redis_down sample_state \<or> ''refresh'' \<noteq> ''refresh'' then redis ?s1 = redis sample_state
     else fst (refresh_tokens memory_redis plain_jwt (issued plain_jwt 1 78 ''refresh'' 600000000 0) ?s1) = Inl refresh_revoked)"
    by (rule logout_revokes [OF plain_jwt_laws memory_redis_string_laws _ _ _ _ run refl])
      (use n in \<open>simp_all add: representable_def expiry_second_def advance_def steady_def\<close>)
  then show ?thesis by (simp add: run sample_refresh_def)
qed

section \<open>Tracing\<close>



section \<open>Migrations\<close>

text \<open>
  The migrations build what the models declare: on an empty database both revisions run, the second
  one also when the tables it meets hold rows, and the resulting tables, columns, keys,
  constraints and indexes are those of the model classes.
\<close>

lemma migrations_build_models:
  "\<exists>core head. run_ops core_upgrade empty_schema = Inr core \<and>
     run_ops occ_upgrade (core\<lparr>sc_occupied := occupied\<rparr>) = Inr head \<and> matches_models head"
proof -
  have "matches_models (core_schema\<lparr>sc_occupied := occupied, sc_tables := head_tables\<rparr>) \<longleftrightarrow>
      matches_models (core_schema\<lparr>sc_tables := head_tables\<rparr>)"
    by (simp add: matches_models_def)
  then show ?thesis
    using core_upgrade_run occ_upgrade_run [of occupied] head_matches_models by auto
qed


text \<open>
  A downgrade does not undo the upgrade: both downgrades run and leave no table and no index, but
  the five enumeration types of the first revision stay, so that it cannot be applied again; the
  second revision alone is undone exactly.
\<close>

lemma downgrade_leaves_types:
  "\<exists>core head base. run_ops core_upgrade empty_schema = Inr core \<and> run_ops occ_upgrade core = Inr head \<and>
     run_ops occ_downgrade head = Inr core \<and>
     run_ops (occ_downgrade @ core_downgrade) head = Inr base \<and>
     sc_tables base = [] \<and> sc_indexes base = [] \<and>
     map fst (sc_types base) = [''audit_action_enum'', ''notification_type_enum'', ''org_role_enum'',
       ''task_status_enum'', ''task_priority_enum''] \<and>
     run_ops core_upgrade base = Inl DuplicateObject"
proof -
  have occ: "run_ops occ_upgrade core_schema = Inr (core_schema\<lparr>sc_tables := head_tables\<rparr>)"
  proof -
    have "core_schema\<lparr>sc_occupied := []\<rparr> = core_schema" by (simp add: core_schema_def)
    moreover from this have "core_schema\<lparr>sc_occupied := [], sc_tables := head_tables\<rparr> = core_schema\<lparr>sc_tables := head_tables\<rparr>"
      by (metis (no_types, lifting))
    ultimately show ?thesis using occ_upgrade_run [of "[]"] by simp
  qed
  have types: "map fst (sc_types core_schema) = [''audit_action_enum'', ''notification_type_enum'', ''org_role_enum'',
       ''task_status_enum'', ''task_priority_enum'']"
    by (simp add: core_schema_def enum_types_def audit_logs_table_def notifications_table_def organization_members_table_def
        tasks_table_def col_def List.map_filter_simps)
  show ?thesis
    by (rule exI [of _ core_schema], rule exI [of _ "core_schema\<lparr>sc_tables := head_tables\<rparr>"],
        rule exI [of _ "empty_schema\<lparr>sc_types := sc_types core_schema\<rparr>"])
      (simp add: core_upgrade_run occ occ_downgrade_run downgrade_run upgrade_again types, simp add: empty_schema_def)
qed

end
