(* ===== verification/Startup.thy ===== *)
theory Startup
  imports Ops Organizations Workers
begin

text \<open>
  Settings and startup: the defaults of \<open>AppSettings\<close> (\<open>app/core/config.py\<close>; an environment variable
  of the same name replaces a default), what the parts of the service take from them (the engine's pool
  in \<open>app/core/database.py\<close>, the storage client in \<open>app/services/storage.py\<close>, the Redis of the job queue
  in \<open>app/services/queue.py\<close> and of the worker in \<open>app/workers/arq_app.py\<close>, the documentation URLs and the
  CORS policy in \<open>app/main.py\<close>, the log format in \<open>app/core/logging.py\<close>, the metrics in
  \<open>app/core/telemetry.py\<close>), and the startup sequence of \<open>lifespan\<close>.
\<close>

section \<open>Settings\<close>

datatype environment = Development | Testing | Production

record app_settings =
  as_ENVIRONMENT :: environment
  as_PROJECT_NAME :: pystr
  as_API_V1_STR :: pystr
  as_LOG_LEVEL :: pystr
  as_SECRET_KEY :: pystr
  as_ALLOWED_ORIGINS :: "pystr list"
  as_POSTGRES_SERVER :: pystr
  as_POSTGRES_PORT :: int
  as_POSTGRES_USER :: pystr
  as_POSTGRES_PASSWORD :: pystr
  as_POSTGRES_DB :: pystr
  as_DATABASE_POOL_SIZE :: int
  as_DATABASE_MAX_OVERFLOW :: int
  as_DATABASE_POOL_TIMEOUT :: int
  as_DATABASE_POOL_RECYCLE :: int
  as_REDIS_HOST :: pystr
  as_REDIS_PORT :: int
  as_REDIS_DB :: int
  as_REDIS_PASSWORD :: "pystr option"
  as_S3_ENDPOINT_URL :: "pystr option"
  as_S3_ACCESS_KEY :: pystr
  as_S3_SECRET_KEY :: pystr
  as_S3_BUCKET_NAME :: pystr
  as_S3_REGION_NAME :: pystr

definition default_settings :: app_settings where
  "default_settings = \<lparr>as_ENVIRONMENT = Development, as_PROJECT_NAME = ''MultiTenantSaaS Platform Engine'',
     as_API_V1_STR = ''/api/v1'', as_LOG_LEVEL = ''INFO'',
     as_SECRET_KEY = ''09d25e094faa6ca2556c818166b7a9563b93f7099f6f0f4caa6cf63b88e8d3e7'',
     as_ALLOWED_ORIGINS = [''http://localhost:3000''],
     as_POSTGRES_SERVER = ''localhost'', as_POSTGRES_PORT = 5432, as_POSTGRES_USER = ''postgres_user'',
     as_POSTGRES_PASSWORD = ''postgres_password'', as_POSTGRES_DB = ''multi_tenant_saas_dev'',
     as_DATABASE_POOL_SIZE = 20, as_DATABASE_MAX_OVERFLOW = 10, as_DATABASE_POOL_TIMEOUT = 30,
     as_DATABASE_POOL_RECYCLE = 1800,
     as_REDIS_HOST = ''localhost'', as_REDIS_PORT = 6379, as_REDIS_DB = 0, as_REDIS_PASSWORD = None,
     as_S3_ENDPOINT_URL = Some ''http://localhost:9000'', as_S3_ACCESS_KEY = ''minioadmin'',
     as_S3_SECRET_KEY = ''minioadminpassword'', as_S3_BUCKET_NAME = ''saas-attachments'',
     as_S3_REGION_NAME = ''us-east-1''\<rparr>"

section \<open>What the parts take from the settings\<close>

record engine_kwargs =
  ek_pool_size :: int
  ek_max_overflow :: int
  ek_pool_timeout :: int
  ek_pool_recycle :: int
  ek_pool_pre_ping :: bool

definition engine_kwargs_of :: "app_settings \<Rightarrow> engine_kwargs" where
  "engine_kwargs_of s = \<lparr>ek_pool_size = as_DATABASE_POOL_SIZE s, ek_max_overflow = as_DATABASE_MAX_OVERFLOW s,
     ek_pool_timeout = as_DATABASE_POOL_TIMEOUT s, ek_pool_recycle = as_DATABASE_POOL_RECYCLE s,
     ek_pool_pre_ping = True\<rparr>"

record storage_service =
  ss_bucket :: pystr
  ss_endpoint_url :: "pystr option"
  ss_access_key :: pystr
  ss_secret_key :: pystr
  ss_region :: pystr

definition S3StorageService :: "app_settings \<Rightarrow> storage_service" where
  "S3StorageService s = \<lparr>ss_bucket = as_S3_BUCKET_NAME s, ss_endpoint_url = as_S3_ENDPOINT_URL s,
     ss_access_key = as_S3_ACCESS_KEY s, ss_secret_key = as_S3_SECRET_KEY s, ss_region = as_S3_REGION_NAME s\<rparr>"

record redis_settings =
  rs_host :: pystr
  rs_port :: int
  rs_database :: int
  rs_password :: "pystr option"

text \<open>\<open>JobQueueService.get_pool\<close>: the pool is created at its first use and kept; \<open>None\<close> when that raises.\<close>

definition get_pool :: "(redis_settings \<Rightarrow> 'p option) \<Rightarrow> app_settings \<Rightarrow> 'p option \<Rightarrow> 'p option" where
  "get_pool create_pool s pool =
     (case pool of
        Some p \<Rightarrow> Some p
      | None \<Rightarrow> create_pool \<lparr>rs_host = as_REDIS_HOST s, rs_port = as_REDIS_PORT s, rs_database = as_REDIS_DB s,
                  rs_password = as_REDIS_PASSWORD s\<rparr>)"

record cron_job =
  cj_function :: pystr
  cj_hour :: nat
  cj_minute :: nat

record worker_settings =
  ws_functions :: "pystr list"
  ws_cron_jobs :: "cron_job list"
  ws_redis_settings :: redis_settings
  ws_max_jobs :: int
  ws_job_timeout :: int
  ws_max_tries :: int
  ws_retry_delay :: int

definition WorkerSettings :: "app_settings \<Rightarrow> worker_settings" where
  "WorkerSettings s = \<lparr>ws_functions = [''send_invitation_email'', ''send_task_notification'', ''cleanup_soft_deleted_tasks_job''],
     ws_cron_jobs = [\<lparr>cj_function = ''app.workers.tasks.cleanup_soft_deleted_tasks_job'', cj_hour = 3, cj_minute = 0\<rparr>],
     ws_redis_settings = \<lparr>rs_host = as_REDIS_HOST s, rs_port = as_REDIS_PORT s, rs_database = as_REDIS_DB s,
       rs_password = as_REDIS_PASSWORD s\<rparr>,
     ws_max_jobs = 20, ws_job_timeout = 60, ws_max_tries = 3, ws_retry_delay = 5\<rparr>"

text \<open>The worker listens where the service enqueues.\<close>

lemma queue_reaches_worker: "get_pool create_pool s None = create_pool (ws_redis_settings (WorkerSettings s))"
  by (simp add: get_pool_def WorkerSettings_def)

text \<open>The parts of a URL, as \<open>MultiHostUrl.build\<close> gets them.\<close>

record host_url =
  hu_scheme :: pystr
  hu_username :: "pystr option"
  hu_password :: "pystr option"
  hu_host :: pystr
  hu_port :: int
  hu_path :: pystr

definition SQLALCHEMY_DATABASE_URI :: "app_settings \<Rightarrow> host_url" where
  "SQLALCHEMY_DATABASE_URI s = \<lparr>hu_scheme = ''postgresql+asyncpg'', hu_username = Some (as_POSTGRES_USER s),
     hu_password = Some (as_POSTGRES_PASSWORD s), hu_host = as_POSTGRES_SERVER s, hu_port = as_POSTGRES_PORT s,
     hu_path = as_POSTGRES_DB s\<rparr>"

definition REDIS_URI :: "app_settings \<Rightarrow> host_url" where
  "REDIS_URI s = \<lparr>hu_scheme = ''redis'', hu_username = None, hu_password = as_REDIS_PASSWORD s,
     hu_host = as_REDIS_HOST s, hu_port = as_REDIS_PORT s, hu_path = py_str_int (as_REDIS_DB s)\<rparr>"

text \<open>The clients of \<open>app/core/redis.py\<close> and of the hub reach the Redis the job queue and the worker use.\<close>

lemma one_redis:
  "hu_host (REDIS_URI s) = rs_host (ws_redis_settings (WorkerSettings s)) \<and>
   hu_port (REDIS_URI s) = rs_port (ws_redis_settings (WorkerSettings s)) \<and>
   hu_path (REDIS_URI s) = py_str_int (rs_database (ws_redis_settings (WorkerSettings s))) \<and>
   hu_password (REDIS_URI s) = rs_password (ws_redis_settings (WorkerSettings s))"
  by (simp add: REDIS_URI_def WorkerSettings_def)

record cors_policy =
  cp_allow_origins :: "pystr list"
  cp_allow_credentials :: bool
  cp_allow_methods :: "pystr list"
  cp_allow_headers :: "pystr list"

definition cors_policy_of :: "app_settings \<Rightarrow> cors_policy" where
  "cors_policy_of s = \<lparr>cp_allow_origins = as_ALLOWED_ORIGINS s, cp_allow_credentials = True,
     cp_allow_methods = [''*''], cp_allow_headers = [''*'']\<rparr>"

section \<open>Logs and metrics\<close>

text \<open>An event of the log: its keys and values.\<close>

type_synonym event_dict = "(pystr \<times> json) list"

definition drop_color_message_key :: "event_dict \<Rightarrow> event_dict" where
  "drop_color_message_key event_dict = AList.delete ''color_message'' event_dict"

lemma drop_color_message_key_spec:
  "map_of (drop_color_message_key e) = (map_of e)(''color_message'' := None)"
  by (simp add: drop_color_message_key_def AList.delete_conv')

datatype renderer = JSONRenderer | ConsoleRenderer

text \<open>
  \<open>setup_logging\<close>: the renderer of the environment, the level of the root logger, and the processors an
  event of the service passes; the events of the libraries' loggers pass the same ones but for the last.
\<close>

record logging_config =
  lc_renderer :: renderer
  lc_root_level :: pystr
  lc_foreign_pre_chain :: "pystr list"
  lc_processors :: "pystr list"
  lc_propagated :: "pystr list"

definition shared_processors :: "pystr list" where
  "shared_processors = [''merge_contextvars'', ''add_logger_name'', ''add_log_level'', ''PositionalArgumentsFormatter'',
     ''TimeStamper'', ''StackInfoRenderer'', ''format_exc_info'', ''drop_color_message_key'']"

definition setup_logging :: "app_settings \<Rightarrow> logging_config" where
  "setup_logging s =
     \<lparr>lc_renderer = if as_ENVIRONMENT s = Production then JSONRenderer else ConsoleRenderer,
      lc_root_level = as_LOG_LEVEL s,
      lc_foreign_pre_chain = shared_processors,
      lc_processors = shared_processors @ [''wrap_for_formatter''],
      lc_propagated = [''uvicorn'', ''uvicorn.error'', ''uvicorn.access'', ''asyncpg'', ''sqlalchemy.engine'']\<rparr>"

text \<open>The metrics endpoint counts every route but the probes and itself.\<close>

record instrumentator =
  in_should_group_status_codes :: bool
  in_should_ignore_untemplated :: bool
  in_should_respect_env_var :: bool
  in_excluded_handlers :: "pystr list"

definition setup_telemetry :: instrumentator where
  "setup_telemetry = \<lparr>in_should_group_status_codes = False, in_should_ignore_untemplated = True,
     in_should_respect_env_var = False, in_excluded_handlers = [''/metrics'', ''/healthz'', ''/readyz'']\<rparr>"

text \<open>\<open>delete_object\<close>: one command to the storage of the settings, whose exceptions it lets through.\<close>

definition delete_object :: "(pystr \<Rightarrow> pystr \<Rightarrow> 's \<Rightarrow> (exn + unit) \<times> 's) \<Rightarrow> storage_service \<Rightarrow> pystr \<Rightarrow> 's \<Rightarrow> (exn + unit) \<times> 's" where
  "delete_object s3_delete_object S file_key s = s3_delete_object (ss_bucket S) file_key s"

text \<open>The three documentation URLs, absent in production.\<close>

record application_urls =
  au_openapi_url :: "pystr option"
  au_docs_url :: "pystr option"
  au_redoc_url :: "pystr option"

definition create_application_urls :: "app_settings \<Rightarrow> application_urls" where
  "create_application_urls s =
     \<lparr>au_openapi_url = if as_ENVIRONMENT s \<noteq> Production then Some (as_API_V1_STR s @ ''/openapi.json'') else None,
      au_docs_url = if as_ENVIRONMENT s \<noteq> Production then Some (as_API_V1_STR s @ ''/docs'') else None,
      au_redoc_url = if as_ENVIRONMENT s \<noteq> Production then Some (as_API_V1_STR s @ ''/redoc'') else None\<rparr>"

section \<open>Startup\<close>

text \<open>
  \<open>lifespan\<close> up to its \<open>yield\<close>: whether the service starts (\<open>False\<close>: the exception of the database check is
  raised again), the events it logs, and what is left of the bucket.
\<close>

definition lifespan :: "probes \<Rightarrow> bool \<times> pystr list \<times> bool" where
  "lifespan p =
     (case health_check (pr_select_1 p) of
        None \<Rightarrow> (False, [''server_startup_sequence_initiated'', ''database_initialization_failed''], pr_bucket p)
      | Some is_healthy \<Rightarrow>
          (case ensure_bucket_exists (pr_connects p) (pr_head p) (pr_create p) (pr_bucket p) of
             (verified, bucket) \<Rightarrow>
               (True,
                [''server_startup_sequence_initiated'', ''database_connectivity_verified'',
                 if verified \<noteq> None then ''storage_bucket_verified'' else ''storage_bucket_init_warning''],
                bucket)))"

lemma lifespan_starts: "fst (lifespan p) \<longleftrightarrow> pr_select_1 p \<noteq> None"
  by (auto simp: lifespan_def health_check_def split: option.splits prod.splits)

lemma lifespan_bucket:
  "snd (snd (lifespan p)) \<longleftrightarrow>
     pr_bucket p \<or> (pr_select_1 p \<noteq> None \<and> pr_connects p \<and> pr_head p = S3ClientError \<and> pr_create p = S3Ok)"
  by (auto simp: lifespan_def health_check_def ensure_bucket_exists_def split: option.splits s3_answer.splits)

lemma ready_starts: "fst (readiness_check p) = 200 \<Longrightarrow> fst (lifespan p)"
  by (simp add: readiness_ready lifespan_starts)

end
