(* ===== verification/Rotation.thy ===== *)
theory Rotation
  imports AuthService
begin

text \<open>
  Refreshes that overlap (\<open>AuthService.refresh_tokens\<close>, \<open>app/services/auth.py\<close>). The service asks the
  revocation list and loads the user, then revokes the token and issues a new pair; other requests run
  in between. \<open>rot_step\<close> interleaves the two parts of clients that present one token.
\<close>

definition refresh_check ::
  "'r redis_api \<Rightarrow> jwt_api \<Rightarrow> pystr \<Rightarrow> ('r, 'z, claims \<times> claim \<times> user) app" where
  "refresh_check R J refresh_token =
     bindE (decode_jwt_token J refresh_token) (\<lambda>decoded.
     bindE (some_or_raise decoded refresh_invalid) (\<lambda>payload.
     bindE (raise_if (map_of payload ''type'' \<noteq> Some (CStr ''refresh'')) refresh_wrong_type) (\<lambda>_.
     bindE (liftE (claim_at payload ''jti'')) (\<lambda>jti.
     bindE (is_token_revoked R (claim_text jti)) (\<lambda>revoked.
     bindE (raise_if revoked refresh_revoked) (\<lambda>_.
     bindE (liftE (claim_at payload ''sub'')) (\<lambda>sub.
     bindE (liftE (uuid_of_claim sub)) (\<lambda>user_id.
     bindE (base_get_by_id User user_id) (\<lambda>found.
     bindE (some_or_raise found refresh_inactive) (\<lambda>user.
     bindE (raise_if (\<not> u_is_active user) refresh_inactive) (\<lambda>_.
     returnE (payload, jti, user))))))))))))"

definition refresh_rotate :: "'r redis_api \<Rightarrow> jwt_api \<Rightarrow> claims \<times> claim \<times> user \<Rightarrow> ('r, 'z, token_response) app" where
  "refresh_rotate R J admitted =
     (case admitted of (payload, jti, user) \<Rightarrow>
        bindE (liftE (claim_at payload ''exp'')) (\<lambda>e.
        bindE (liftE (fromtimestamp e)) (\<lambda>exp_timestamp.
        bindE (revoke_token R (claim_text jti) exp_timestamp) (\<lambda>_.
        generate_token_pair J (u_id user)))))"

text \<open>One part after the other is the service operation.\<close>

lemma refresh_tokens_parts: "refresh_tokens R J tok = bindE (refresh_check R J tok) (refresh_rotate R J)"
  by (simp add: refresh_tokens_def refresh_check_def refresh_rotate_def bindE_assoc bindE_returnE)

section \<open>Overlapping clients\<close>

datatype rot_phase =
    NoClient
  | Presented
  | Admitted "claims \<times> claim \<times> user"
  | Rotated token_response
  | Refused exn

text \<open>The state of all, and where each client is. A session of a refresh only reads.\<close>

inductive rot_step ::
  "'r redis_api \<Rightarrow> jwt_api \<Rightarrow> pystr \<Rightarrow> ('r, 'z) app_state_scheme \<times> (nat \<Rightarrow> rot_phase) \<Rightarrow>
     ('r, 'z) app_state_scheme \<times> (nat \<Rightarrow> rot_phase) \<Rightarrow> bool" for R J tok where
  rot_admitted: "ph i = Presented \<Longrightarrow> refresh_check R J tok s = (Inr c, s') \<Longrightarrow> rot_step R J tok (s, ph) (s', ph(i := Admitted c))"
| rot_refused: "ph i = Presented \<Longrightarrow> refresh_check R J tok s = (Inl e, s') \<Longrightarrow> rot_step R J tok (s, ph) (s', ph(i := Refused e))"
| rot_rotated: "ph i = Admitted c \<Longrightarrow> refresh_rotate R J c s = (Inr pair, s') \<Longrightarrow> rot_step R J tok (s, ph) (s', ph(i := Rotated pair))"
| rot_failed: "ph i = Admitted c \<Longrightarrow> refresh_rotate R J c s = (Inl e, s') \<Longrightarrow> rot_step R J tok (s, ph) (s', ph(i := Refused e))"

definition rot_init :: "nat \<Rightarrow> nat \<Rightarrow> rot_phase" where
  "rot_init n i = (if i < n then Presented else NoClient)"

definition rot_reachable ::
  "'r redis_api \<Rightarrow> jwt_api \<Rightarrow> pystr \<Rightarrow> nat \<Rightarrow> ('r, 'z) app_state_scheme \<Rightarrow> ('r, 'z) app_state_scheme \<times> (nat \<Rightarrow> rot_phase) \<Rightarrow> bool" where
  "rot_reachable R J tok n s w \<longleftrightarrow> (rot_step R J tok)\<^sup>*\<^sup>* (s, rot_init n) w"

section \<open>A token this service issued\<close>

text \<open>What an admitted client is admitted with, and that it can then rotate whatever the list says by then.\<close>

definition issued_payload :: "uuid \<Rightarrow> uuid \<Rightarrow> instant \<Rightarrow> instant \<Rightarrow> claims" where
  "issued_payload u jti e i =
     [(''sub'', CStr (uuid_str u)), (''jti'', CStr (uuid_str jti)), (''type'', CStr ''refresh''),
      (''exp'', CInt (e div usec_per_sec)), (''iat'', CInt (i div usec_per_sec))]"

lemma refresh_check_issued:
  assumes "jwt_laws J" and "i \<le> clock s 0" and "clock s 0 < expiry_second e" and "\<not> redis_down s"
    and "\<not> revoked_at R (uuid_str jti) (clock s 1) (redis s)"
    and "find (\<lambda>r. u_id r = u) (tbl_users (work s)) = Some usr" and "u_is_active usr"
  shows "refresh_check R J (issued J u jti ''refresh'' e i) s =
    (Inr (issued_payload u jti e i, CStr (uuid_str jti), usr), advance 2 s)"
  using assms
  by (simp add: refresh_check_def decode_jwt_token_def datetime_now_def exec_simps decode_issued claim_at_def
      uuid_text_roundtrip base_get_by_id_def is_token_revoked_eq advance_def issued_payload_def eval_nat_numeral)

lemma refresh_rotate_issued:
  assumes "representable e" and "\<not> redis_down s"
  shows "refresh_rotate R J (issued_payload u jti e i, CStr (uuid_str jti), usr) s =
    generate_token_pair J (u_id usr) ((advance 1 s)\<lparr>redis := revoked_store R jti (clock s 0) e (redis s)\<rparr>)"
  using assms
  by (simp add: refresh_rotate_def exec_simps claim_at_def revoke_token_eq advance_def representable_def
      revoked_store_def expiry_second_def issued_payload_def Let_def)

lemma rot_reachable_step: "rot_reachable R J tok n s w \<Longrightarrow> rot_step R J tok w w' \<Longrightarrow> rot_reachable R J tok n s w'"
  unfolding rot_reachable_def by (rule rtranclp.rtrancl_into_rtrancl)

text \<open>Clients that are all admitted before the first of them rotates all rotate.\<close>

lemma all_admitted:
  assumes "jwt_laws J" and "steady (clock s)" and "i \<le> clock s 0" and "clock s (2 * n) < expiry_second e"
    and "\<not> redis_down s" and "\<forall>t. \<not> revoked_at R (uuid_str jti) t (redis s)"
    and "find (\<lambda>r. u_id r = u) (tbl_users (work s)) = Some usr" and "u_is_active usr" and "k \<le> n"
  shows "rot_reachable R J (issued J u jti ''refresh'' e i) n s
    (advance (2 * k) s, \<lambda>j. if j < k then Admitted (issued_payload u jti e i, CStr (uuid_str jti), usr) else rot_init n j)"
  using assms(9)
proof (induction k)
  case 0
  have "(advance 0 s, \<lambda>j. rot_init n j) = (s, rot_init n)" by (simp add: advance_def)
  then show ?case by (simp add: rot_reachable_def)
next
  case (Suc k)
  let ?c = "(issued_payload u jti e i, CStr (uuid_str jti), usr)"
  let ?s = "advance (2 * k) s" and ?ph = "\<lambda>j. if j < k then Admitted ?c else rot_init n j"
  have "clock s 0 \<le> clock s (2 * k)" "clock s (2 * k) \<le> clock s (2 * n)"
    using assms(2) Suc.prems by (simp_all add: steady_def)
  then have "refresh_check R J (issued J u jti ''refresh'' e i) ?s = (Inr ?c, advance 2 ?s)"
    by (intro refresh_check_issued) (use assms in \<open>simp_all add: advance_def\<close>)
  moreover have "?ph k = Presented" using Suc.prems by (simp add: rot_init_def)
  ultimately have "rot_step R J (issued J u jti ''refresh'' e i) (?s, ?ph) (advance 2 ?s, ?ph(k := Admitted ?c))"
    by (rule rot_admitted [rotated])
  with Suc have "rot_reachable R J (issued J u jti ''refresh'' e i) n s (advance 2 ?s, ?ph(k := Admitted ?c))"
    by (auto intro: rot_reachable_step)
  moreover have "?ph(k := Admitted ?c) = (\<lambda>j. if j < Suc k then Admitted ?c else rot_init n j)" by (auto simp: less_Suc_eq)
  moreover have "advance 2 ?s = advance (2 * Suc k) s" by (simp add: advance_def add_ac)
  ultimately show ?case by simp
qed

lemma all_rotate:
  assumes "rot_reachable R J tok n s (s1, ph)" and "\<forall>j < n. ph j = Admitted (issued_payload u jti e i, CStr (uuid_str jti), usr)"
    and "\<not> redis_down s1" and "representable e" and "k \<le> n"
  shows "\<exists>s2 ph. rot_reachable R J tok n s (s2, ph) \<and> \<not> redis_down s2 \<and> (\<forall>j < k. \<exists>pair. ph j = Rotated pair) \<and>
    (\<forall>j. k \<le> j \<and> j < n \<longrightarrow> ph j = Admitted (issued_payload u jti e i, CStr (uuid_str jti), usr))"
  using assms(5)
proof (induction k)
  case 0
  then show ?case using assms(1-3) by auto
next
  case (Suc k)
  then obtain s2 ph where w: "rot_reachable R J tok n s (s2, ph)" "\<not> redis_down s2" "\<forall>j < k. \<exists>pair. ph j = Rotated pair"
    "\<forall>j. k \<le> j \<and> j < n \<longrightarrow> ph j = Admitted (issued_payload u jti e i, CStr (uuid_str jti), usr)" by auto
  obtain pair s3 where g: "refresh_rotate R J (issued_payload u jti e i, CStr (uuid_str jti), usr) s2 = (Inr pair, s3)" "\<not> redis_down s3"
    using w(2) by (simp add: refresh_rotate_issued [OF assms(4)] generate_token_pair_eq advance_def)
  have "ph k = Admitted (issued_payload u jti e i, CStr (uuid_str jti), usr)" using w(4) Suc.prems by simp
  from rot_rotated [where ph = ph and i = k, OF this g(1)] w(1)
  have "rot_reachable R J tok n s (s3, ph(k := Rotated pair))" by (blast intro: rot_reachable_step)
  moreover have "\<forall>j < Suc k. \<exists>pair'. (ph(k := Rotated pair)) j = Rotated pair'" using w(3) by (auto simp: less_Suc_eq)
  moreover have "\<forall>j. Suc k \<le> j \<and> j < n \<longrightarrow>
      (ph(k := Rotated pair)) j = Admitted (issued_payload u jti e i, CStr (uuid_str jti), usr)" using w(4) by simp
  ultimately show ?case using g(2) by blast
qed

lemma overlapping_refreshes:
  assumes "jwt_laws J" and "steady (clock s)" and "i \<le> clock s 0" and "clock s (2 * n) < expiry_second e"
    and "\<not> redis_down s" and "\<forall>t. \<not> revoked_at R (uuid_str jti) t (redis s)"
    and "find (\<lambda>r. u_id r = u) (tbl_users (work s)) = Some usr" and "u_is_active usr" and "representable e"
  shows "\<exists>s' ph. rot_reachable R J (issued J u jti ''refresh'' e i) n s (s', ph) \<and> (\<forall>j < n. \<exists>pair. ph j = Rotated pair)"
proof -
  note r = all_admitted [OF assms(1-8) order_refl]
  have "\<not> redis_down (advance (2 * n) s)" using assms(5) by (simp add: advance_def)
  from all_rotate [OF r _ this assms(9) order_refl, of u jti i usr] show ?thesis by auto
qed

end
