(* ===== verification/Keyspace.thy ===== *)
theory Keyspace
  imports Cache
begin

text \<open>
  Batch invalidation (\<open>CacheService.delete_pattern\<close>, \<open>app/core/cache.py\<close>): a loop over the pages of
  \<open>SCAN\<close> that ends only when Redis answers the cursor 0. That it ends rests on what Redis promises of a
  full iteration; without the promise the loop has no result.
\<close>

section \<open>SCAN\<close>

text \<open>
  \<open>SCAN cursor MATCH pattern COUNT n\<close> answers the next cursor and a page of keys, \<open>DEL\<close> removes keys;
  \<open>ks_matches\<close> is Redis's glob matching.
\<close>

record 'r keyspace_api =
  ks_scan :: "instant \<Rightarrow> nat \<Rightarrow> pystr \<Rightarrow> nat \<Rightarrow> 'r \<Rightarrow> nat \<times> pystr list"
  ks_exists :: "instant \<Rightarrow> pystr \<Rightarrow> 'r \<Rightarrow> bool"
  ks_delete :: "instant \<Rightarrow> pystr list \<Rightarrow> 'r \<Rightarrow> 'r"
  ks_matches :: "pystr \<Rightarrow> pystr \<Rightarrow> bool"

text \<open>
  What Redis documents: a page holds matching keys only; an iteration has passed more of the key space with
  every page (\<open>passed\<close>), comes to its end (\<open>left\<close>), and answers every key that is there when it
  passes; keys do not come into existence by waiting; \<open>DEL\<close> removes exactly the keys it is given.
\<close>

definition keyspace_laws :: "'r keyspace_api \<Rightarrow> (nat \<Rightarrow> pystr set) \<Rightarrow> (nat \<Rightarrow> nat) \<Rightarrow> bool" where
  "keyspace_laws K passed left \<longleftrightarrow>
     passed 0 = {} \<and>
     (\<forall>t c pat n r c' keys. ks_scan K t c pat n r = (c', keys) \<longrightarrow>
        (\<forall>k \<in> set keys. ks_matches K pat k) \<and>
        (\<forall>k. ks_exists K t k r \<and> ks_matches K pat k \<and> k \<notin> passed c \<and> (c' = 0 \<or> k \<in> passed c') \<longrightarrow> k \<in> set keys) \<and>
        (c' \<noteq> 0 \<longrightarrow> left c' < left c)) \<and>
     (\<forall>t t' k r. t \<le> t' \<longrightarrow> ks_exists K t' k r \<longrightarrow> ks_exists K t k r) \<and>
     (\<forall>t t' keys k r. ks_exists K t' k (ks_delete K t keys r) \<longleftrightarrow> k \<notin> set keys \<and> ks_exists K t' k r)"

section \<open>The loop\<close>

text \<open>One round: the page at the cursor is read and its keys are deleted; the result is the next cursor.\<close>

definition delete_page :: "'r keyspace_api \<Rightarrow> pystr \<Rightarrow> nat \<Rightarrow> ('r, 'z, nat) app" where
  "delete_page K pattern cursor =
     bindE server_time (\<lambda>now.
     bindE (redis_ask (ks_scan K now cursor pattern 100)) (\<lambda>(cursor, keys).
     bindE (if keys \<noteq> [] then bindE server_time (\<lambda>now. redis_do (ks_delete K now keys)) else returnE ()) (\<lambda>_.
     returnE cursor)))"

partial_function (option) delete_pages ::
  "'r keyspace_api \<Rightarrow> pystr \<Rightarrow> nat \<Rightarrow> ('r, 'z) app_state_scheme \<Rightarrow> ((exn + unit) \<times> ('r, 'z) app_state_scheme) option" where
  "delete_pages K pattern cursor s =
     (case delete_page K pattern cursor s of
        (Inl e, s') \<Rightarrow> Some (Inl e, s')
      | (Inr cursor', s') \<Rightarrow> if cursor' = 0 then Some (Inr (), s') else delete_pages K pattern cursor' s')"

definition delete_pattern ::
  "'r keyspace_api \<Rightarrow> pystr \<Rightarrow> ('r, 'z) app_state_scheme \<Rightarrow> ((exn + unit) \<times> ('r, 'z) app_state_scheme) option" where
  "delete_pattern K pattern s = map_option (\<lambda>(_, s'). (Inr (), s')) (delete_pages K pattern 0 s)"

section \<open>It ends and removes what matches\<close>

text \<open>The keys that are gone from a store, for everyone who looks from \<open>t\<close> on.\<close>

definition gone :: "'r keyspace_api \<Rightarrow> instant \<Rightarrow> pystr \<Rightarrow> 'r \<Rightarrow> bool" where
  "gone K t k r \<longleftrightarrow> (\<forall>t' \<ge> t. \<not> ks_exists K t' k r)"

definition others_kept :: "'r keyspace_api \<Rightarrow> pystr \<Rightarrow> 'r \<Rightarrow> 'r \<Rightarrow> bool" where
  "others_kept K pattern r r' \<longleftrightarrow> (\<forall>t k. \<not> ks_matches K pattern k \<longrightarrow> ks_exists K t k r' = ks_exists K t k r)"

lemma delete_page_eq:
  assumes "\<not> redis_down s" and "ks_scan K (clock s 0) cursor pattern 100 (redis s) = (c', keys)"
  shows "delete_page K pattern cursor s =
    (Inr c', if keys = [] then s\<lparr>clock := \<lambda>n. clock s (n + 1)\<rparr>
             else s\<lparr>clock := \<lambda>n. clock s (n + 2), redis := ks_delete K (clock s 1) keys (redis s)\<rparr>)"
  using assms by (simp add: delete_page_def server_time_def app_defs exec_simps)

text \<open>One round, in terms of what is gone.\<close>

lemma delete_page_round:
  assumes laws: "keyspace_laws K passed left" and up: "\<not> redis_down s" and steady: "steady (clock s)"
    and before: "\<And>k. ks_matches K pattern k \<Longrightarrow> k \<in> passed cursor \<Longrightarrow> gone K (clock s 0) k (redis s)"
  shows "\<exists>c' s'. delete_page K pattern cursor s = (Inr c', s') \<and> \<not> redis_down s' \<and> steady (clock s') \<and>
    clock s 0 \<le> clock s' 0 \<and> committed s' = committed s \<and> work s' = work s \<and>
    others_kept K pattern (redis s) (redis s') \<and> (c' \<noteq> 0 \<longrightarrow> left c' < left cursor) \<and>
    (\<forall>k. ks_matches K pattern k \<longrightarrow> k \<in> passed cursor \<or> c' = 0 \<or> k \<in> passed c' \<longrightarrow> gone K (clock s' 0) k (redis s'))"
proof -
  obtain c' keys where scan: "ks_scan K (clock s 0) cursor pattern 100 (redis s) = (c', keys)" by fastforce
  note page = delete_page_eq [OF up scan]
  define s' where "s' = snd (delete_page K pattern cursor s)"
  have keys: "\<And>k. k \<in> set keys \<Longrightarrow> ks_matches K pattern k" and less: "c' \<noteq> 0 \<Longrightarrow> left c' < left cursor"
    and all: "\<And>k. ks_exists K (clock s 0) k (redis s) \<Longrightarrow> ks_matches K pattern k \<Longrightarrow> k \<notin> passed cursor \<Longrightarrow>
      c' = 0 \<or> k \<in> passed c' \<Longrightarrow> k \<in> set keys"
    using laws scan unfolding keyspace_laws_def by blast+
  have stay: "\<And>t t' k r. t \<le> t' \<Longrightarrow> ks_exists K t' k r \<Longrightarrow> ks_exists K t k r"
    and del: "\<And>t t' k r. ks_exists K t' k (ks_delete K t keys r) \<longleftrightarrow> k \<notin> set keys \<and> ks_exists K t' k r"
    using laws unfolding keyspace_laws_def by blast+
  have exists': "ks_exists K t k (redis s') \<longleftrightarrow> k \<notin> set keys \<and> ks_exists K t k (redis s)" for t k
    by (simp add: s'_def page del)
  have later: "clock s 0 \<le> clock s' 0" using steady by (simp add: s'_def page steady_def)
  have gone: "gone K (clock s' 0) k (redis s')"
    if k: "ks_matches K pattern k" "k \<in> passed cursor \<or> c' = 0 \<or> k \<in> passed c'" for k
    unfolding gone_def
  proof (intro allI impI notI)
    fix t assume t: "clock s' 0 \<le> t" and "ks_exists K t k (redis s')"
    then have "k \<notin> set keys" and "ks_exists K (clock s 0) k (redis s)"
      using exists' stay [of "clock s 0" t] later by auto
    moreover from this before [OF k(1)] have "k \<notin> passed cursor" by (auto simp: gone_def)
    ultimately show False using all [OF _ k(1)] k(2) by blast
  qed
  have "others_kept K pattern (redis s) (redis s')" using keys by (auto simp: others_kept_def exists')
  moreover have "\<not> redis_down s' \<and> steady (clock s') \<and> committed s' = committed s \<and> work s' = work s"
    using up steady by (simp add: s'_def page steady_def)
  moreover have "delete_page K pattern cursor s = (Inr c', s')" by (simp add: s'_def page)
  ultimately show ?thesis using later less gone by blast
qed

lemma delete_pages_end:
  assumes laws: "keyspace_laws K passed left" and "\<not> redis_down s" and "steady (clock s)"
    and "\<And>k. ks_matches K pattern k \<Longrightarrow> k \<in> passed cursor \<Longrightarrow> gone K (clock s 0) k (redis s)"
  shows "\<exists>s'. delete_pages K pattern cursor s = Some (Inr (), s') \<and> committed s' = committed s \<and> work s' = work s \<and>
    others_kept K pattern (redis s) (redis s') \<and>
    (\<forall>k. ks_matches K pattern k \<longrightarrow> gone K (clock s' 0) k (redis s'))"
  using assms(2-)
proof (induction "left cursor" arbitrary: cursor s rule: less_induct)
  case less
  obtain c' s1 where page: "delete_page K pattern cursor s = (Inr c', s1)" and up: "\<not> redis_down s1"
    and steady: "steady (clock s1)" and same: "committed s1 = committed s" "work s1 = work s"
    and kept: "others_kept K pattern (redis s) (redis s1)" and smaller: "c' \<noteq> 0 \<Longrightarrow> left c' < left cursor"
    and gone: "\<And>k. ks_matches K pattern k \<Longrightarrow> k \<in> passed cursor \<or> c' = 0 \<or> k \<in> passed c' \<Longrightarrow> gone K (clock s1 0) k (redis s1)"
    using delete_page_round [OF laws less.prems] by blast
  show ?case
  proof (cases "c' = 0")
    case True
    with page same kept gone show ?thesis by (simp add: delete_pages.simps)
  next
    case False
    obtain s' where "delete_pages K pattern c' s1 = Some (Inr (), s')" "committed s' = committed s1" "work s' = work s1"
      "others_kept K pattern (redis s1) (redis s')" "\<And>k. ks_matches K pattern k \<Longrightarrow> gone K (clock s' 0) k (redis s')"
      using less.hyps [OF smaller [OF False] up steady] gone by blast
    with page same kept False show ?thesis by (simp add: delete_pages.simps [of K pattern cursor] others_kept_def)
  qed
qed

text \<open>
  On a Redis that keeps its promise \<open>delete_pattern\<close> returns, the matching keys are gone and the others are
  as they were; on one that is down it returns too, and nothing has changed.
\<close>

lemma delete_pattern_ends:
  assumes "keyspace_laws K passed left" and "steady (clock s)"
  shows "\<exists>s'. delete_pattern K pattern s = Some (Inr (), s') \<and> committed s' = committed s \<and> work s' = work s \<and>
    (if redis_down s then redis s' = redis s
     else others_kept K pattern (redis s) (redis s') \<and>
       (\<forall>k. ks_matches K pattern k \<longrightarrow> gone K (clock s' 0) k (redis s')))"
proof (cases "redis_down s")
  case True
  then show ?thesis
    by (simp add: delete_pattern_def delete_pages.simps [of K pattern 0] delete_page_def server_time_def app_defs exec_simps)
next
  case False
  have "passed 0 = {}" using assms(1) by (simp add: keyspace_laws_def)
  with delete_pages_end [OF assms(1) False assms(2), of pattern 0] False show ?thesis
    by (auto simp: delete_pattern_def)
qed

section \<open>A key space that keeps the promise\<close>

text \<open>Keys in four buckets by their length, one bucket a page.\<close>

definition bucket :: "pystr \<Rightarrow> nat" where
  "bucket k = length k mod 4"

definition bucket_keyspace :: "(pystr \<Rightarrow> pystr \<Rightarrow> bool) \<Rightarrow> pystr list keyspace_api" where
  "bucket_keyspace matches =
     \<lparr>ks_scan = \<lambda>t c pat n r. (if 3 \<le> c then 0 else Suc c, filter (\<lambda>k. matches pat k \<and> bucket k = c) r),
      ks_exists = \<lambda>t k r. k \<in> set r,
      ks_delete = \<lambda>t keys r. filter (\<lambda>k. k \<notin> set keys) r,
      ks_matches = matches\<rparr>"

lemma bucket_keyspace_laws:
  "keyspace_laws (bucket_keyspace matches) (\<lambda>c. {k. bucket k < c}) (\<lambda>c. 4 - c)"
proof -
  have "bucket k = c" if "\<not> bucket k < c" and "bucket k < Suc c \<or> 3 \<le> c" for k c
  proof -
    have "bucket k < 4" by (simp add: bucket_def)
    with that show ?thesis by linarith
  qed
  then show ?thesis
    by (auto simp: keyspace_laws_def bucket_keyspace_def split: if_splits)
qed

end
