(* ===== verification/Spec2Isabelle.thy ===== *)
theory Spec2Isabelle
  imports Service Deployment Startup Rotation Keyspace
begin

text \<open>
  A verification development for the multi-tenant task management service under \<open>src/app\<close>
  (FastAPI, SQLAlchemy on PostgreSQL, Redis, S3, arq) and its migrations under \<open>src/alembic\<close>.

  \<^bold>\<open>The program.\<close> A request passes the request middleware, the rate limiter of its route, and the dependency
  chain (session, bearer token, organization header, minimum role); its handler calls a service or a
  repository inside one database session, publishes events to the WebSocket rooms through Redis,
  reads or deletes cache entries, presigns URLs, enqueues jobs, and answers a schema object; an exception
  becomes an RFC 7807 problem. A worker runs the jobs and sweeps deleted tasks. WebSocket clients
  join the room of a project; one listener task per room forwards the events of its Redis channel.

  \<^bold>\<open>How code is represented.\<close> Code that reads and writes a state and may raise is a function from the state to
  \<open>exn + 'a\<close> and the state afterwards (\<open>exec\<close>, \<open>tx\<close>, \<open>app\<close>), composed by \<open>bindE\<close>; every raise and early return is
  a branch. The state is a record: \<open>session\<close> (the committed database, the transaction's view of it, whether
  the next COMMIT fails), extended by \<open>app_state\<close> (Redis, its outages, the coming readings of the clock and of
  \<open>uuid4\<close>, the published events) and by \<open>job_state\<close> (the job queue). A table is the list of its rows; a model class is
  a descriptor with its keys, column sizes and foreign keys, so that a statement that breaks a
  constraint raises and changes nothing. Python's integers are \<open>int\<close>, UUIDs 128-bit words, times microseconds since the
  epoch, texts lists of ASCII characters. Each definition is named after the function or class it
  translates where Isabelle allows it.

  \<^bold>\<open>The theories\<close>, in the order of the code's layers:
  \<^item> \<open>Prelude\<close>: executions, what they preserve, lists. \<open>PyText\<close>: \<open>str.strip\<close>, \<open>lower\<close>, UUID texts. \<open>Faults\<close>: the exceptions
    and their handlers (\<open>core/exceptions.py\<close>, \<open>core/middleware.py\<close>).
  \<^item> \<open>Models\<close>, \<open>Tables\<close>, \<open>TableLaws\<close>: the rows, descriptors and laws of the eleven tables (\<open>models/\<close>); the locales \<open>table_model\<close> and
    \<open>tenant_table\<close> are interpreted on every one of them.
  \<^item> \<open>Session\<close>, \<open>Repository\<close>: statements, commit, rollback, the unit of work and the generic repositories
    (\<open>core/database.py\<close>, \<open>services/base.py\<close>, \<open>repositories/base.py\<close>), with their atomicity, isolation and invariants.
  \<^item> \<open>Deletion\<close>, \<open>Cascades\<close>: DELETE with the referential actions of the declared foreign keys, as a closure over the references
    of all tables (\<open>BaseRepository.delete\<close>), and what deleting expired tasks, an organization or a user comes to.
  \<^item> \<open>Keyset\<close>, \<open>Base64\<close>, \<open>Calendar\<close>, \<open>JsonText\<close>, \<open>Cursor\<close>: keyset pagination as an interface (\<open>keyset_feed\<close>, \<open>cursor_codec\<close>, \<open>cursor_feed\<close>) and
    the cursors of \<open>core/pagination.py\<close>, with the parts of Python's \<open>base64\<close>, \<open>datetime\<close> and \<open>json\<close> they use.
  \<^item> \<open>AuditTrail\<close>, \<open>TaskRepo\<close>, \<open>TaskService\<close>, \<open>ProjectService\<close>: the task and project repositories and services.
  \<^item> \<open>AppState\<close>, \<open>Tokens\<close>, \<open>Accounts\<close>, \<open>AuthService\<close>, \<open>RateLimit\<close>, \<open>AuthApi\<close>: Redis, tokens and passwords, the dependency chain
    (\<open>api/deps.py\<close>), registration, login, rotation, logout, the sliding window, the authentication endpoints.
  \<^item> \<open>Events\<close>, \<open>Hub\<close>, \<open>Realtime\<close>: publication, the rooms and their listeners as a step relation, and the
    admission to the stream (\<open>websockets/hub.py\<close>, \<open>endpoints/ws.py\<close>).
  \<^item> \<open>TaskApi\<close>, \<open>FeedApi\<close>, \<open>Comments\<close>, \<open>Cache\<close>, \<open>Keyspace\<close>, \<open>ProjectApi\<close>, \<open>Teams\<close>, \<open>Organizations\<close>, \<open>Attachments\<close>, \<open>AuditQuery\<close>, \<open>Workers\<close>: the
    endpoints with the services, repositories and schemas under them, the cache, the storage URLs and the jobs.
  \<^item> \<open>Occ\<close>, \<open>Rotation\<close>: status updates and project updates as interleaved statements of concurrent transactions under READ
    COMMITTED with row locks (step relations, reachable states, invariants by rule induction), and overlapping token rotations.
  \<^item> \<open>Ops\<close>, \<open>Startup\<close>, \<open>Migrations\<close>, \<open>Upgrades\<close>: the request middleware, the probes, settings and startup, the schema
    migrations as data and their run (\<open>alembic/env.py\<close>).
  \<^item> \<open>Routing\<close>, \<open>Platform\<close>, \<open>History\<close>, \<open>Runs\<close>: the route table, all endpoints behind one function, and runs of
    the service: any sequence of calls, sweeps and changes of the environment. \<open>Answers\<close>, \<open>Disclosure\<close>: whose rows an
    answer shows, and whose rows the cache can hold.
  \<^item> \<open>Sample\<close>, \<open>Collaboration\<close>, \<open>Deployment\<close>, \<open>Service\<close> and this theory: sample data, and the properties C1 to C40 with
    their instances on it.

  \<^bold>\<open>What the lemmas show.\<close> Per component: \<open>_eq\<close> lemmas give an operation's result on every branch, \<open>_wf\<close> lemmas that it keeps
  keys, foreign keys and column sizes, \<open>_keeps_tenant\<close> lemmas that it leaves other tenants alone, \<open>_history\<close> lemmas
  what it never takes back. On these rest the properties: atomic writes, invariants of whole runs,
  tenant isolation in writing and reading, exact role-based access, the optimistic concurrency of tasks (at most one winner,
  exactly one, and refinement of the service by its interleaved statements), complete pagination, token rotation,
  the rate limiter as a refinement of a sliding window, cache coherence and its race, ordered
  delivery of events, and migrations that build the declared schema. Some properties
  state what the code does against its intent; they are listed as findings in the manifest.

  \<^bold>\<open>Parameters and their laws.\<close> PyJWT, argon2, Redis, the S3 presigner, the pydantic (de)serialisation of cached objects and the path
  matching of the framework are parameters; the laws used of them (\<open>jwt_laws\<close>, \<open>hasher_laws\<close>, \<open>redis_string_laws\<close>,
  \<open>redis_zset_laws\<close>, \<open>cache_laws\<close>, \<open>zset_key_laws\<close>, \<open>schema_laws\<close>, \<open>keeps_organization\<close>, \<open>path_laws\<close>) are hypotheses of the properties that need them, each shown to hold of a concrete
  instance. The order in which PostgreSQL returns rows without ORDER BY is a parameter \<open>scan\<close> with the law
  \<open>row_order\<close>. Fresh identifiers and clock readings are streams in the state or stamps in the arguments; a clash
  of identifiers is a constraint violation, not assumed away.

  \<^bold>\<open>Bounds and fuel.\<close> A cascade follows a task's parents for as many steps as the table has rows, which reaches every
  ancestor (\<open>short_climb\<close>, \<open>cascades_iff\<close>); a general cascade runs as many rounds as there are references, which is the closure
  (\<open>deleted_rows_closure\<close>). A walk along cursors has as fuel a number of pages above the number
  of rows, and is proved to end before. The loop of \<open>delete_pattern\<close> is a \<open>partial_function\<close>; it returns on what Redis promises of SCAN
  (\<open>keyspace_laws\<close>). Interleavings are unbounded in length and in the number of clients.
  Column sizes, \<open>int4\<close> and \<open>int8\<close> columns are checked by the statements.

  \<^bold>\<open>Not modelled.\<close> Logging and metrics (\<open>core/logging.py\<close>, \<open>core/telemetry.py\<close>) only configure libraries; the
  configuration is in \<open>Startup\<close>, log lines and metrics are not. The framework's parsing and validation
  of request bodies is its own: the schemas' constraints are predicates (\<open>valid_\<close>) and the calls carry parsed payloads. Runs
  interleave whole requests; interleaved statements are modelled for the updates whose
  correctness rests on them (\<open>Occ\<close>, and the cache race). Deadlocks, lost connections
  in mid-statement and non-ASCII text are outside the model.
\<close>

section \<open>Transactions and invariants\<close>

text \<open>
  The outcome of an atomic operation on a session: an exception leaves the committed database
  as it was and nothing pending, a result has everything written committed.
\<close>

definition all_or_nothing :: "'z session_scheme \<Rightarrow> (exn + 'a) \<times> 'z session_scheme \<Rightarrow> bool" where
  "all_or_nothing s out \<longleftrightarrow>
     (case out of
        (Inl _, s') \<Rightarrow> committed s' = committed s \<and> work s' = committed s
      | (Inr _, s') \<Rightarrow> committed s' = work s')"

lemma atomic_transaction:
  assumes "\<And>d. preserves (\<lambda>s. committed s = d) body"
  shows "all_or_nothing s (transaction body s)"
proof -
  have "committed (snd (body s)) = committed s"
    using assms [of "committed s"] by (auto dest: preservesD)
  then show ?thesis
    by (auto simp: all_or_nothing_def transaction_cases rollback_def split: prod.splits sum.splits option.splits)
qed

lemmas no_commit_intros =
  preserve_intros no_commit_insert_row no_commit_update_where no_commit_flush_dirty session_frame_committed

text \<open>
  C1. Every service operation that writes is atomic: when it raises, the committed database is
  the one before the call and nothing stays pending; when it returns, everything it wrote is
  committed.
\<close>

theorem service_writes_atomic:
  "all_or_nothing s (create_task st ast org p r ttl desc prio a s) \<and>
   all_or_nothing s (update_task_status_occ now ast org tid actor ns v s) \<and>
   all_or_nothing s (create_project st ast org pc pa s) \<and>
   all_or_nothing s (update_project now ast org pid pu pa s) \<and>
   all_or_nothing s (add_comment st org tid me cp s) \<and>
   all_or_nothing s (update_comment now org cid me role cp s) \<and>
   all_or_nothing s (create_team st org tp s) \<and>
   all_or_nothing s (add_member st org tmid u s) \<and>
   all_or_nothing s2 (register H J salt rq s2)"
  unfolding create_task_def update_task_status_occ_def create_project_def update_project_def add_comment_def
    update_comment_def create_team_def add_member_def register_def Let_def
  by (intro conjI; rule atomic_transaction; intro no_commit_intros)

section \<open>Tenants\<close>

text \<open>
  C6. Reads are isolated and exact: a request for a task answers it exactly when the caller is
  admitted to the organization and the task is that organization's and not deleted.
\<close>

theorem get_task_exact:
  assumes "db_wf (committed s)"
  shows "fst (get_task J token org tid s) = Inr r \<longleftrightarrow>
    (\<exists>ctx. fst (authorize J VIEWER token org (s\<lparr>work := committed s\<rparr>)) = Inr ctx) \<and>
    (\<exists>t \<in> set (tbl_tasks (committed s)).
       t_id t = tid \<and> t_organization_id t = org \<and> \<not> t_is_deleted t \<and> r = task_response t)"
proof (cases "fst (authorize J VIEWER token org (s\<lparr>work := committed s\<rparr>))")
  case (Inl e)
  then show ?thesis by (simp add: get_task_def request_cases)
next
  case (Inr ctx)
  then have "ctx_organization_id ctx = org"
    using authorize_ok [of "s\<lparr>work := committed s\<rparr>" J VIEWER token org ctx] assms by simp
  moreover have "(\<exists>t \<in> set (tbl_tasks (committed s)).
       t_id t = tid \<and> t_organization_id t = org \<and> \<not> t_is_deleted t \<and> r = task_response t) \<longleftrightarrow>
      (\<exists>t. visible_task org tid (committed s) = Some t \<and> r = task_response t)"
    using visible_task_iff [OF assms] by auto
  ultimately show ?thesis
    using Inr assms
    by (cases "visible_task org tid (committed s)") (auto simp: get_task_def request_cases get_task_handler_eq)
qed

lemma get_task_exact_witness:
  "fst (get_task plain_jwt sample_access 10 5000 sample_state) = Inr (task_response (sample_task 5000 10 1000 1))"
  by (subst get_task_exact) (simp_all add: sample_task_def)

text \<open>
  C7. Role-based access: with a token this service issued, a caller is admitted to an
  organization for a minimum role exactly when the token is an access token that has not
  expired, its user exists and is active, and the user is a member whose role is at least the
  minimum in the hierarchy owner, admin, manager, member, viewer.
\<close>

theorem authorize_exact:
  assumes "jwt_laws J" and "i \<le> clock s 0" and "db_wf (work s)"
  shows "(\<exists>ctx. fst (authorize J min_role (issued J u jti ty e i) org s) = Inr ctx) \<longleftrightarrow>
    clock s 0 < expiry_second e \<and> ty = ''access'' \<and>
    (\<exists>r \<in> set (tbl_users (work s)). u_id r = u \<and> u_is_active r) \<and>
    (\<exists>m \<in> set (tbl_organization_members (work s)).
       m_organization_id m = org \<and> m_user_id m = u \<and> min_role \<le> m_role m)"
proof -
  let ?s = "s\<lparr>clock := \<lambda>n. clock s (Suc n)\<rparr>"
  have user: "find (\<lambda>r. u_id r = u) (tbl_users (work s)) = Some r \<longleftrightarrow> r \<in> set (tbl_users (work s)) \<and> u_id r = u" for r
    using users_tbl.base_get_by_id_Some [OF assms(3), of u r] by (simp add: base_get_by_id_def getsE_def)
  note member = membership_iff [OF assms(3), of org u]
  have role: "(\<exists>ctx. fst (require_role min_role r org ?s) = Inr ctx) \<longleftrightarrow>
      (\<exists>m. membership org (u_id r) (work s) = Some m \<and> min_role \<le> m_role m)" for r
    using assms(3) by (auto simp: require_role_def get_membership_eq exec_simps less_eq_org_role_def split: option.splits)
  show ?thesis
  proof (cases "clock s 0 < expiry_second e \<and> ty = ''access''")
    case False
    then show ?thesis by (auto simp: authorize_def bindE_def get_current_user_issued [OF assms(1,2)])
  next
    case True
    have users: "(\<exists>r \<in> set (tbl_users (work s)). u_id r = u \<and> u_is_active r) \<longleftrightarrow>
        (\<exists>r. find (\<lambda>r. u_id r = u) (tbl_users (work s)) = Some r \<and> u_is_active r)"
      using user by auto
    have members: "(\<exists>m \<in> set (tbl_organization_members (work s)).
        m_organization_id m = org \<and> m_user_id m = u \<and> min_role \<le> m_role m) \<longleftrightarrow>
        (\<exists>m. membership org u (work s) = Some m \<and> min_role \<le> m_role m)"
      using member by auto
    show ?thesis
    proof (cases "find (\<lambda>r. u_id r = u) (tbl_users (work s))")
      case None
      then show ?thesis
        unfolding users by (simp add: authorize_def bindE_def get_current_user_issued [OF assms(1,2)])
    next
      case (Some a)
      then have "u_id a = u" using user by blast
      with Some True show ?thesis
        unfolding users members
        by (cases "u_is_active a") (simp_all add: authorize_def bindE_def get_current_user_issued [OF assms(1,2)] role)
    qed
  qed
qed

lemma authorize_exact_witness:
  "(\<exists>ctx. fst (authorize plain_jwt MEMBER (issued plain_jwt 1 77 ''access'' 900000000 0) 10 sample_state) = Inr ctx)"
  by (subst authorize_exact [OF plain_jwt_laws])
    (simp_all add: expiry_second_def sample_user_def sample_member_def)

text \<open>
  Who is not a member gets nothing: any request of an authenticated user to an organization
  it does not belong to answers 403 without running the handler, changing the committed
  database or publishing an event.
\<close>

lemma non_member_refused:
  assumes "db_wf (committed s)" and "fst (get_current_user J token (s\<lparr>work := committed s\<rparr>)) = Inr u"
    and "membership org (u_id u) (committed s) = None"
  shows "request J r token org handler s =
      (Inl (HTTPException 403 ''You are not a member of the requested organization.'' []), opened s) \<and>
    committed (opened s) = committed s \<and> published (opened s) = published s"
proof -
  obtain s1 where s1: "get_current_user J token (s\<lparr>work := committed s\<rparr>) = (Inr u, s1)"
    using assms(2) by (metis prod.collapse)
  then have "work s1 = committed s"
    using get_current_user_state [of J token "s\<lparr>work := committed s\<rparr>"] by simp
  with assms s1 have "fst (authorize J r token org (s\<lparr>work := committed s\<rparr>)) =
      Inl (HTTPException 403 ''You are not a member of the requested organization.'' [])"
    by (simp add: authorize_def bindE_def require_role_def get_membership_eq some_or_raise_def)
  then show ?thesis by (simp add: request_cases)
qed

lemma non_member_refused_witness:
  "request plain_jwt VIEWER sample_access 20 (get_task_handler 6000) sample_state =
     (Inl (HTTPException 403 ''You are not a member of the requested organization.'' []), opened sample_state)"
  using non_member_refused [of sample_state plain_jwt sample_access "sample_user 1 ''ann@a.io''" 20 VIEWER "get_task_handler 6000"]
  by simp

section \<open>Optimistic concurrency control\<close>

lemma task_id_unique:
  "db_wf d \<Longrightarrow> t \<in> set (tbl_tasks d) \<Longrightarrow> t' \<in> set (tbl_tasks d) \<Longrightarrow> t_id t = t_id t' \<Longrightarrow> t = t'"
  using distinct_key_unique [OF tasks_tbl.pk_distinct, of d t t'] by simp

text \<open>
  C9. The status update on every branch: an unknown or deleted task is a 404, a stale version a
  409, both without effect; otherwise the task gets the new status and the next version, and
  exactly one audit row records both states, committed together.
\<close>

theorem status_update_spec:
  fixes s :: "'z session_scheme"
  assumes "db_wf (work s)" and "commit_fault s = None" and "fits_int4 (v + 1)"
    and "as_id ast \<notin> al_id ` set (tbl_audit_logs (work s))" and "actor \<in> user_ids (work s)"
  shows "update_task_status_occ now ast org tid actor ns v s =
    (case visible_task org tid (work s) of
       None \<Rightarrow> (Inl (EntityNotFoundException ''Task'' (uuid_str tid)), rollback s)
     | Some t \<Rightarrow>
         if t_version_id t \<noteq> v then (Inl (occ_conflict tid v), rollback s)
         else (let t' = t\<lparr>t_status := ns, t_version_id := v + 1, t_updated_at := now\<rparr>;
                   a = new_audit ast org (Some actor) ''Task'' tid AUDIT_UPDATE (Some (occ_state t)) (Some (occ_state t'));
                   d = (work s)\<lparr>tbl_tasks := replace_task t' (tbl_tasks (work s)),
                                tbl_audit_logs := tbl_audit_logs (work s) @ [a]\<rparr>
               in (Inr t', s\<lparr>work := d, committed := d\<rparr>)))"
proof (cases "visible_task org tid (work s)")
  case (Some t)
  note t = visible_task_Some [OF Some]
  have "t_version_id t = v \<Longrightarrow> occ_tasks now org tid ns v (tbl_tasks (work s)) =
      replace_task (t\<lparr>t_status := ns, t_version_id := v + 1, t_updated_at := now\<rparr>) (tbl_tasks (work s))"
    using t by (auto simp: occ_tasks_def replace_task_def occ_match_def occ_values_def
        dest: task_id_unique [OF assms(1), of _ t])
  with Some show ?thesis
    using assms by (simp add: update_task_status_occ_eq occ_values_def Let_def)
qed (use assms in \<open>simp add: update_task_status_occ_eq\<close>)

lemma status_update_spec_witness:
  "fst (update_task_status_occ 7 sample_audit 10 5000 1 DONE 1 sample_session) =
     Inr ((sample_task 5000 10 1000 1)\<lparr>t_status := DONE, t_version_id := 2, t_updated_at := 7\<rparr>)"
  by (subst status_update_spec) (simp_all add: fits_int4_def sample_task_def Let_def)

text \<open>
  C10. Of any number of concurrent status updates of a task, in any interleaving of their
  statements, at most one commits for each version the clients expected.
\<close>

theorem at_most_one_winner:
  assumes "occ_reachable q n d w" and "db_wf d" and "w_phase w i = Done t" and "w_phase w j = Done t'"
    and "oc_task (q i) = oc_task (q j)" and "oc_expected (q i) = oc_expected (q j)"
  shows "i = j"
  using assms by (rule occ_winners_apart)

lemma at_most_one_winner_witness:
  "\<exists>w. occ_reachable sample_requests 2 sample_db w \<and> {j. \<exists>t. w_phase w j = Done t} = {0}"
proof -
  obtain w where w: "occ_reachable sample_requests 2 sample_db w" "w_phase w 0 = Done sample_won"
    using sample_race by blast
  then have "{j. \<exists>t. w_phase w j = Done t} = {0}"
    using at_most_one_winner [OF w(1) sample_wf w(2)] by (auto simp: sample_requests_def)
  with w show ?thesis by blast
qed

text \<open>
  C11. When several clients race on the current version of a task and all have finished, with no
  COMMIT failing, exactly one of them has succeeded.
\<close>

theorem exactly_one_winner:
  assumes "occ_reachable q n d w" and "db_wf d"
    and "\<forall>i. oc_org (q i) = org \<and> oc_task (q i) = tid \<and> oc_expected (q i) = t_version_id t0"
    and "visible_task org tid d = Some t0" and "fits_int4 (t_version_id t0 + 1)" and "0 < n"
    and "\<forall>i < n. finished (w_phase w i) \<and> w_phase w i \<noteq> Failed DatabaseError"
  shows "\<exists>!i. i < n \<and> (\<exists>t. w_phase w i = Done t)"
  by (rule occ_one_winner [OF assms(1-4) refl assms(5-7)])

lemma exactly_one_winner_witness:
  "\<exists>w. occ_reachable sample_requests 2 sample_db w \<and> (\<exists>!i. i < 2 \<and> (\<exists>t. w_phase w i = Done t))"
proof -
  obtain w where w: "occ_reachable sample_requests 2 sample_db w" "w_phase w 0 = Done sample_won"
    "w_phase w 1 = Failed (occ_conflict 5000 1)"
    using sample_race by blast
  have "\<forall>i < 2. finished (w_phase w i) \<and> w_phase w i \<noteq> Failed DatabaseError"
    using w(2,3) by (simp add: less_2_cases_iff all_conj_distrib imp_disjL finished_def occ_conflict_not_database)
  then have "\<exists>!i. i < 2 \<and> (\<exists>t. w_phase w i = Done t)"
    by (intro exactly_one_winner [OF w(1) sample_wf, of 10 5000 "sample_task 5000 10 1000 1"])
      (simp_all add: sample_requests_def fits_int4_def sample_task_def)
  with w show ?thesis by blast
qed



definition phase_of :: "exn + task \<Rightarrow> occ_phase" where
  "phase_of r = (case r of Inl e \<Rightarrow> Failed e | Inr t \<Rightarrow> Done t)"

text \<open>
  C13. The interleaved statements refine the service: a client that runs alone can always run to
  its end, and leaves the database and the outcome of \<open>update_task_status_occ\<close>.
\<close>

theorem lone_client_is_service:
  fixes s :: "'z session_scheme"
  assumes "db_wf (work s)" and "committed s = work s" and "commit_fault s = None" and "fits_int4 (v + 1)"
    and "as_id ast \<notin> al_id ` set (tbl_audit_logs (work s))" and "actor \<in> user_ids (work s)"
  shows "\<exists>w. occ_reachable (\<lambda>_. \<lparr>oc_org = org, oc_task = tid, oc_actor = actor, oc_status = ns, oc_expected = v,
        oc_now = now, oc_audit = ast\<rparr>) 1 (committed s) w \<and>
    w_phase w 0 = phase_of (fst (update_task_status_occ now ast org tid actor ns v s)) \<and>
    w_db w = committed (snd (update_task_status_occ now ast org tid actor ns v s))"
proof -
  define r where "r = \<lparr>oc_org = org, oc_task = tid, oc_actor = actor, oc_status = ns, oc_expected = v,
        oc_now = now, oc_audit = ast\<rparr>"
  have r: "oc_org r = org" "oc_task r = tid" "oc_expected r = v" by (simp_all add: r_def)
  note eq = update_task_status_occ_eq [OF assms(1,3,4,5,6), of now org tid ns]
  let ?Q = "\<lambda>w. occ_reachable (\<lambda>_. r) 1 (committed s) w \<and>
      w_phase w 0 = phase_of (fst (update_task_status_occ now ast org tid actor ns v s)) \<and>
      w_db w = committed (snd (update_task_status_occ now ast org tid actor ns v s))"
  have "\<exists>w. ?Q w"
  proof (cases "visible_task org tid (work s)")
    case None
    then have "?Q (set_phase 0 (Failed (EntityNotFoundException ''Task'' (uuid_str tid))) (occ_init 1 (committed s)))"
      using run_missing [of 0 1 "\<lambda>_. r" "committed s"] assms(2) r
      by (simp add: eq phase_of_def rollback_def occ_init_def)
    then show ?thesis by blast
  next
    case (Some t)
    show ?thesis
    proof (cases "t_version_id t = v")
      case False
      then have "?Q (set_phase 0 (Failed (occ_conflict tid v)) (set_phase 0 (Checked (occ_state t)) (occ_init 1 (committed s))))"
        using run_stale [of "committed s" 0 1 "\<lambda>_. r" t] assms(1,2) r Some
        by (simp add: eq phase_of_def rollback_def occ_init_def)
      then show ?thesis by blast
    next
      case True
      then obtain w where "occ_reachable (\<lambda>_. r) 1 (committed s) w" "w_phase w 0 = Done (occ_row r t)"
          "w_db w = occ_commit r (occ_state t) (occ_row r t) (committed s)"
        using run_commit [of "committed s" 0 1 "\<lambda>_. r" t] assms(1,2,4) r Some by auto
      moreover have "occ_row r t = touch Task now (occ_values ns v t)" by (simp add: occ_row_def r_def)
      ultimately have "?Q w"
        using Some True occ_commit_sequential [OF assms(1) Some True, of actor ns now ast] assms(2)
        by (simp add: eq phase_of_def Let_def r_def)
      then show ?thesis by blast
    qed
  qed
  then show ?thesis by (simp add: r_def)
qed

lemma lone_client_is_service_witness:
  "\<exists>w. occ_reachable (\<lambda>_. \<lparr>oc_org = 10, oc_task = 5000, oc_actor = 1, oc_status = DONE, oc_expected = 1,
        oc_now = 7, oc_audit = sample_audit\<rparr>) 1 sample_db w \<and>
    w_phase w 0 = phase_of (fst (update_task_status_occ 7 sample_audit 10 5000 1 DONE 1 sample_session)) \<and>
    w_db w = committed (snd (update_task_status_occ 7 sample_audit 10 5000 1 DONE 1 sample_session))"
  using lone_client_is_service [of sample_session 1 sample_audit 1 10 5000 DONE 7] by (simp add: fits_int4_def)

section \<open>Projects\<close>



text \<open>
  C15. The project update on every branch, for a payload the schema admits: 404 for a project the
  tenant does not have, 409 for another version, else the given fields, the next version and one
  audit row with both states.
\<close>

theorem update_project_spec:
  assumes "db_wf (work s)" and "commit_fault s = None" and "valid_project_update u"
    and "opt_ref (pu_team_id u) (team_ids (work s))" and "fits_int4 (pu_expected_version u + 1)"
    and "as_id ast \<notin> al_id ` set (tbl_audit_logs (work s))" and "opt_ref actor (user_ids (work s))"
  shows "update_project now ast org pid u actor s =
    (case visible_project org pid (work s) of
       None \<Rightarrow> (Inl (EntityNotFoundException ''Project'' (uuid_str pid)), rollback s)
     | Some p \<Rightarrow>
         if p_version_id p \<noteq> pu_expected_version u
         then (Inl (project_conflict pid (pu_expected_version u) (p_version_id p)), rollback s)
         else (let p' = p\<lparr>p_name := (case pu_name u of Some n \<Rightarrow> py_strip n | None \<Rightarrow> p_name p),
                          p_description := (case pu_description u of Some x \<Rightarrow> Some x | None \<Rightarrow> p_description p),
                          p_team_id := (case pu_team_id u of Some x \<Rightarrow> Some x | None \<Rightarrow> p_team_id p),
                          p_is_archived := (case pu_is_archived u of Some x \<Rightarrow> x | None \<Rightarrow> p_is_archived p),
                          p_version_id := pu_expected_version u + 1, p_updated_at := now\<rparr>;
                   a = new_audit ast org actor ''Project'' pid AUDIT_UPDATE (Some (project_state p)) (Some (project_state p'));
                   d = (work s)\<lparr>tbl_projects := replace_project p' (tbl_projects (work s)),
                                tbl_audit_logs := tbl_audit_logs (work s) @ [a]\<rparr>
               in (Inr p', s\<lparr>work := d, committed := d\<rparr>)))"
proof -
  have name: "case pu_name u of None \<Rightarrow> True | Some n \<Rightarrow> length n \<le> 100"
    using assms(3) by (auto simp: valid_project_update_def length_between_def split: option.splits)
  have "updated_project now u p = p\<lparr>p_name := (case pu_name u of Some n \<Rightarrow> py_strip n | None \<Rightarrow> p_name p),
      p_description := (case pu_description u of Some x \<Rightarrow> Some x | None \<Rightarrow> p_description p),
      p_team_id := (case pu_team_id u of Some x \<Rightarrow> Some x | None \<Rightarrow> p_team_id p),
      p_is_archived := (case pu_is_archived u of Some x \<Rightarrow> x | None \<Rightarrow> p_is_archived p),
      p_version_id := pu_expected_version u + 1, p_updated_at := now\<rparr>"
    if "p_version_id p = pu_expected_version u" for p
    using that by (simp add: updated_project_def apply_project_update_def Let_def split: option.splits)
  then show ?thesis
    unfolding update_project_eq [OF assms(1,2) name assms(4-7)]
    by (simp add: Let_def split: option.splits)
qed

lemma update_project_spec_witness:
  "fst (update_project 7 sample_audit 10 1000 (sample_rename ''Gemini'') None sample_session) =
     Inr ((sample_project 1000 10 ''APL'')\<lparr>p_name := ''Gemini'', p_version_id := 2, p_updated_at := 7\<rparr>)"
  by (subst update_project_spec)
    (simp_all add: sample_rename_def valid_project_update_def length_between_def fits_int4_def opt_ref_def
      sample_project_def Let_def)

text \<open>
  Creating a project on every branch: the key is upper-cased and stripped, a key the tenant
  already has is a 409 without effect, else one project and one audit row are committed.
\<close>

lemma create_project_spec:
  assumes "db_wf (work s)" and "commit_fault s = None" and "valid_project_create u"
    and "org \<in> organization_ids (work s)" and "opt_ref (pc_team_id u) (team_ids (work s))"
    and "st_id st \<notin> project_ids (work s)"
    and "as_id ast \<notin> al_id ` set (tbl_audit_logs (work s))" and "opt_ref actor (user_ids (work s))"
  shows "create_project st ast org u actor s =
    (if \<exists>p \<in> set (tbl_projects (work s)). p_organization_id p = org \<and> p_key p = py_strip (py_upper (pc_key u))
     then (Inl (key_conflict (clean_key (pc_key u))), rollback s)
     else (let p = \<lparr>p_id = st_id st, p_organization_id = org, p_team_id = pc_team_id u,
                     p_name = py_strip (pc_name u), p_key = py_strip (py_upper (pc_key u)),
                     p_description = pc_description u, p_is_archived = False, p_version_id = 1,
                     p_created_at = st_created_at st, p_updated_at = st_updated_at st\<rparr>;
               a = new_audit ast org actor ''Project'' (st_id st) AUDIT_CREATE None
                     (Some (JObj [(''name'', JStr (p_name p)), (''key'', JStr (p_key p))]));
               d = (work s)\<lparr>tbl_projects := tbl_projects (work s) @ [p],
                            tbl_audit_logs := tbl_audit_logs (work s) @ [a]\<rparr>
           in (Inr p, s\<lparr>work := d, committed := d\<rparr>)))"
proof -
  have "project_with_key org (clean_key (pc_key u)) (work s) \<noteq> None \<longleftrightarrow>
      (\<exists>p \<in> set (tbl_projects (work s)). p_organization_id p = org \<and> p_key p = py_strip (py_upper (pc_key u)))"
    by (auto simp: project_with_key_def find_None_iff clean_key_def)
  then show ?thesis
    by (simp add: create_project_eq [OF assms] new_project_def clean_key_def Let_def)
qed

lemma create_project_spec_witness:
  "fst (create_project sample_stamp sample_audit 10 sample_project_create None sample_session) =
     Inr \<lparr>p_id = 8000, p_organization_id = 10, p_team_id = None, p_name = ''Zeus'', p_key = ''ZEU'',
       p_description = None, p_is_archived = False, p_version_id = 1, p_created_at = 5, p_updated_at = 5\<rparr>"
  by (subst create_project_spec)
    (simp_all add: sample_payloads valid_project_create_def length_between_def opt_ref_def sample_project_def Let_def)

section \<open>Task requests\<close>

text \<open>
  C16. A deletion is soft and lasting: after a successful DELETE every row is still stored under
  its id, no request of the tenant gets the task any more, and a second deletion is a 404; a
  DELETE that fails leaves the committed database as it was.
\<close>

theorem delete_task_spec:
  assumes "session_wf s"
  shows "case delete_task J db_now now token org tid s of
      (Inl _, s') \<Rightarrow> committed s' = committed s
    | (Inr _, s') \<Rightarrow>
        map t_id (tbl_tasks (committed s')) = map t_id (tbl_tasks (committed s)) \<and>
        (\<forall>ctx. ctx_organization_id ctx = org \<longrightarrow>
           fst (get_task_handler tid ctx (opened s')) = Inl (task_not_found tid) \<and>
           fst (delete_task_handler db_now' now' tid ctx (opened s')) = Inl (task_not_found tid))"
proof (cases "delete_task J db_now now token org tid s")
  case (Pair res s')
  have wf: "db_wf (committed s)" using assms by (simp add: session_wf_def)
  have "preserves session_wf (delete_task J db_now now token org tid)"
    unfolding delete_task_def by (intro preserve_intros)
  then have "session_wf (snd (delete_task J db_now now token org tid s))" using assms by (rule preservesD)
  then have wf': "db_wf (committed s')" using Pair by (simp add: session_wf_def)
  show ?thesis
  proof (cases res)
    case (Inl e)
    then show ?thesis
      using Pair wf
      by (auto simp: delete_task_def request_cases delete_task_handler_eq broadcast_to_room_def rollback_def Let_def
          split: sum.splits prod.splits option.splits if_splits)
  next
    case (Inr u)
    then have hidden: "visible_task org tid (committed s') = None"
      using delete_task_hidden [OF wf] Pair by simp
    obtain ctx s1 where h: "delete_task_handler db_now now tid ctx (opened s) = (Inr (), s1)" "s' = rollback s1"
      using request_ok [OF wf] Pair Inr by (fastforce simp: delete_task_def)
    then have "map t_id (tbl_tasks (committed s')) = map t_id (tbl_tasks (committed s))"
      using wf
      by (auto simp: delete_task_handler_eq broadcast_to_room_def rollback_def Let_def delete_in_def deleted_task_def
          split: option.splits if_splits)
    with hidden show ?thesis
      using Pair Inr wf' by (simp add: get_task_handler_eq delete_task_handler_eq)
  qed
qed

lemma delete_task_spec_witness:
  "case delete_task plain_jwt 7 7 sample_access 10 5000 sample_state of
      (Inl _, s') \<Rightarrow> committed s' = sample_db
    | (Inr _, s') \<Rightarrow> map t_id (tbl_tasks (committed s')) = [5000, 6000] \<and>
        fst (get_task_handler 5000 sample_ctx (opened s')) = Inl (task_not_found 5000)"
  using delete_task_spec [where s = sample_state and J = plain_jwt and token = sample_access and org = 10 and tid = 5000
      and db_now = 7 and now = 7 and db_now' = 0 and now' = 0]
  by (simp add: sample_task_def split: prod.splits sum.splits)

text \<open>
  The field update on every branch, for a payload without a status the schema admits: 404
  for a task the tenant does not see, 409 for another version, else the given fields and the next
  version are committed and the event goes to the room of the task's project.
\<close>

lemma patch_fields_spec:
  assumes "db_wf (work s)" and "tu_status u = None" and "valid_task_update u"
    and "fits_int4 (tu_expected_version u + 1)" and "opt_ref (tu_assignee_id u) (user_ids (work s))"
    and "commit_fault s = None" and "\<not> redis_down s"
  shows "update_task_handler now ast tid u ctx s =
    (case visible_task (ctx_organization_id ctx) tid (work s) of
       None \<Rightarrow> (Inl (task_not_found tid), s)
     | Some t \<Rightarrow>
         if t_version_id t \<noteq> tu_expected_version u
         then (Inl (EntityConflictException ''Task was modified by another concurrent transaction.''), s)
         else (let t' = (apply_task_update u t)\<lparr>t_updated_at := now\<rparr>;
                   d = (work s)\<lparr>tbl_tasks := replace_task t' (tbl_tasks (work s))\<rparr>
               in (Inr (task_response t'),
                   s\<lparr>work := d, committed := d, published := published s @
                     [(channel_name (t_project_id t), json_dumps (JObj [(''event'', JStr ''TASK_UPDATED''),
                        (''data'', JObj [(''task_id'', JStr (uuid_str tid)), (''title'', JStr (t_title t')),
                           (''priority'', JStr (task_priority_value (t_priority t'))),
                           (''version_id'', JInt (t_version_id t'))])]))]\<rparr>)))"
  unfolding update_task_handler_fields [OF assms(1-5)]
  using assms(6,7)
  by (auto simp: bindE_def broadcast_to_room_def returnE_def updated_task_def Let_def split: option.splits)

lemma patch_fields_spec_witness:
  "fst (update_task_handler 7 sample_audit 5000 sample_patch sample_ctx sample_state) =
     Inr (task_response ((sample_task 5000 10 1000 1)\<lparr>t_title := ''Fix logout'', t_priority := URGENT,
       t_assignee_id := Some 2, t_version_id := 2, t_updated_at := 7\<rparr>))"
  by (subst patch_fields_spec)
    (simp_all add: sample_patch_def valid_task_update_def fits_int4_def opt_ref_def sample_task_def
      apply_task_update_def Let_def)

text \<open>
  The search filter finds text: a search without LIKE wildcards matches exactly the tasks
  whose title or description contains the stripped text, without regard to case.
\<close>

lemma search_is_substring:
  assumes "txt \<noteq> []" and "plain_text txt"
  shows "search_filter (Some txt) t \<longleftrightarrow>
    (\<exists>a b. py_lower (t_title t) = a @ py_lower (py_strip txt) @ b) \<or>
    (\<exists>d a b. t_description t = Some d \<and> py_lower d = a @ py_lower (py_strip txt) @ b)"
  using assms(1) ilike_contains [OF plain_text_strip [OF assms(2)]]
  by (auto simp: search_filter_def ilike_opt_def Let_def split: option.splits)

lemma search_is_substring_witness: "search_filter (Some ''LOGIN'') (sample_task 5000 10 1000 1)"
  by (subst search_is_substring)
    (simp_all add: plain_text_def sample_task_def, intro disjI1 exI [of _ "''fix ''"] exI [of _ "[]"], simp)

text \<open>
  C17. The cursor feed of tasks is complete: a client that is admitted and hands each page's
  \<open>next_cursor\<close> back until there is none sees, on an unchanging database, every matching task of
  the tenant exactly once, newest first, and comes to an end, whatever the page size and whatever order the database
  returns rows in.
\<close>

theorem task_feed_complete:
  fixes s :: "('r, 'z) app_state_scheme"
  assumes "db_wf (committed s)" and "row_order scan" and "0 < limit"
    and "length (tbl_tasks (committed s)) < fuel"
    and "\<forall>t \<in> set (tbl_tasks (committed s)). datetime_range (t_created_at t)"
    and "fst (authorize J VIEWER token org (s\<lparr>work := committed s\<rparr>)) = Inr ctx"
  shows "token_walk (\<lambda>c. let r = projr (fst (list_tasks_feed J other scan token org pid st c limit s))
      in (cp_items r, cp_next_cursor r)) fuel None =
    map task_response (order_tasks_desc
      (filter (build_filter_criteria org (feed_filters pid st)) (tbl_tasks (committed s))))"
proof -
  define page where "page c = (case tasks_cursor_page (\<lambda>rs. rs) org (feed_filters pid st) (tbl_tasks (committed s)) limit
      (cursor_key (decode_cursor other) c) of (items, has_more) \<Rightarrow> (items, next_cursor encode_cursor task_key items has_more))" for c
  have feed: "task_feed org (feed_filters pid st) (tbl_tasks (committed s)) =
      order_tasks_desc (filter (build_filter_criteria org (feed_filters pid st)) (tbl_tasks (committed s)))"
    by (simp add: task_feed_def)
  have "token_walk page fuel None = task_feed org (feed_filters pid st) (tbl_tasks (committed s))"
    unfolding page_def
    by (rule task_tokens.token_walk_complete [OF wf_task_keys [OF assms(1)] assms(3)])
      (use assms(4,5) in \<open>auto simp: feed order_tasks_desc_def intro: le_less_trans [OF length_filter_le]\<close>)
  moreover have "(\<lambda>c. let r = projr (fst (list_tasks_feed J other scan token org pid st c limit s))
      in (cp_items r, cp_next_cursor r)) = (\<lambda>c. (map task_response (fst (page c)), snd (page c)))"
    by (simp add: fun_eq_iff page_def list_tasks_feed_eq [OF assms(1,2,6)] split: prod.splits)
  ultimately show ?thesis by (simp add: token_walk_map feed)
qed

lemma task_feed_complete_witness:
  "token_walk (\<lambda>c. let r = projr (fst (list_tasks_feed plain_jwt (\<lambda>_. None) rev sample_access 10 None None c 1 sample_state))
      in (cp_items r, cp_next_cursor r)) 9 None = [task_response (sample_task 5000 10 1000 1)]"
  by (subst task_feed_complete [where ctx = sample_ctx])
    (simp_all add: datetime_range_def feed_filters_eq)

text \<open>
  C18. Cursors are opaque but faithful: what the service decodes from a cursor it gave out is the
  time, to the microsecond, and the id it was made of.
\<close>

theorem cursor_roundtrip:
  assumes "datetime_range t"
  shows "decode_cursor other (encode_cursor (t, i)) = Some (t, i)"
  using assms by (rule decode_encode_cursor)

lemma cursor_roundtrip_witness: "decode_cursor (\<lambda>_. None) (encode_cursor (1700000000000001, 5000)) = Some (1700000000000001, 5000)"
  by (rule cursor_roundtrip) (simp add: datetime_range_def)

definition task_listing :: "uuid \<Rightarrow> task_filter_params \<Rightarrow> task list \<Rightarrow> task list" where
  "task_listing org filters rows =
     (if tf_sort_by filters = ''created_at:asc'' then order_tasks_asc else order_tasks_desc)
       (filter (build_filter_criteria org filters) rows)"

lemma concat_pages:
  "0 < n \<Longrightarrow> concat (map (\<lambda>k. take n (drop (k * n) xs)) [0..<m]) = take (m * n) xs"
proof (induction m)
  case (Suc m)
  then show ?case by (simp add: take_add add.commute [of n])
qed simp

lemma total_pages_cover: "0 < n \<Longrightarrow> len \<le> total_pages len n * n"
proof -
  assume "0 < n"
  then have "len + n - 1 < ((len + n - 1) div n + 1) * n"
    by (metis Suc_eq_plus1 dividend_less_div_times mult.commute mult_Suc_right add.commute)
  then show ?thesis using \<open>0 < n\<close> by (auto simp: total_pages_def)
qed

text \<open>
  Offset pages partition the listing: the pages 1 to \<open>total_pages\<close>, put together, are the
  whole ordered list of the tenant's matching tasks, and the total each page reports is its length.
\<close>

lemma offset_pages_complete:
  fixes s :: "'z session_scheme"
  assumes "db_wf (work s)" and "row_order scan" and "0 < page_size"
  shows "concat (map (\<lambda>page. fst (projr (fst (list_tasks_offset scan org filters ((page - 1) * page_size) page_size s))))
        [1..<total_pages (length (task_listing org filters (tbl_tasks (work s)))) page_size + 1]) =
      task_listing org filters (tbl_tasks (work s)) \<and>
    (\<forall>offset. snd (projr (fst (list_tasks_offset scan org filters offset page_size s))) =
      length (task_listing org filters (tbl_tasks (work s))))"
proof -
  define listing where "listing = task_listing org filters (tbl_tasks (work s))"
  note keys = wf_task_keys [OF assms(1)]
  have page: "list_tasks_offset scan org filters off n s = (Inr (take n (drop off listing), length listing), s)" for off n
    using assms(2) keys
    by (simp add: list_tasks_offset_def select_where_def exec_simps Let_def listing_def task_listing_def sort_key_scan
        order_tasks_asc_def order_tasks_desc_def)
  have "map (\<lambda>page. take page_size (drop ((page - 1) * page_size) listing)) [1..<total_pages (length listing) page_size + 1] =
      map (\<lambda>k. take page_size (drop (k * page_size) listing)) [0..<total_pages (length listing) page_size]"
  proof -
    have "[1..<total_pages (length listing) page_size + 1] = map Suc [0..<total_pages (length listing) page_size]"
      by (simp add: map_Suc_upt del: upt_Suc)
    then show ?thesis by (simp only: map_map comp_def diff_Suc_1)
  qed
  then show ?thesis
    using concat_pages [OF assms(3), of listing] total_pages_cover [OF assms(3), of "length listing"]
    unfolding listing_def [symmetric] by (simp add: page)
qed

lemma offset_pages_complete_witness:
  "concat (map (\<lambda>page. fst (projr (fst (list_tasks_offset rev 10 no_filters ((page - 1) * 20) 20 sample_session))))
     [1..<2]) = [sample_task 5000 10 1000 1]"
  using offset_pages_complete [of sample_session rev 20 10 no_filters]
  by (simp add: task_listing_def total_pages_def numeral_2_eq_2)

section \<open>Accounts and tokens\<close>

text \<open>
  C19. Registration: for a schema-valid payload whose normalised address is new, whose values
  fit their columns and whose generated keys are fresh, the service returns, and has committed
  exactly one user, one organization and one OWNER membership joining them.
\<close>

theorem register_provisions_workspace:
  assumes "db_wf (work s)" and "commit_fault s = None" and "valid_register p"
    and "user_with_email (py_strip (py_lower (ur_email p))) (work s) = None"
    and "register_fits H salt p" and "register_fresh p (uuid_source s) (work s)"
  shows "\<exists>u g m tokens s'. register H J salt p s = (Inr (u, tokens), s') \<and>
    committed s' = (work s)\<lparr>tbl_users := tbl_users (work s) @ [u],
      tbl_organizations := tbl_organizations (work s) @ [g],
      tbl_organization_members := tbl_organization_members (work s) @ [m]\<rparr> \<and>
    u_email u = py_strip (py_lower (ur_email p)) \<and> u_is_active u \<and>
    u_hashed_password u = hash_password H salt (ur_password p) \<and>
    o_name g = workspace_name p \<and> m_organization_id m = o_id g \<and> m_user_id m = u_id u \<and> m_role m = OWNER"
proof -
  have "user_with_email (normal_email (ur_email p)) (work s) = None"
    using assms(4) by (simp add: normal_email_def)
  from register_ok [OF assms(1-3) this assms(5,6)] show ?thesis
    by (fastforce simp: registered_database_def registered_user_def registered_organization_def
        registered_owner_def normal_email_def)
qed

lemma register_provisions_workspace_witness:
  "\<exists>u tokens s'. register plain_hasher plain_jwt 0 (sample_register ''Zed@z.io'' ''Zhou Ltd'') sample_state = (Inr (u, tokens), s') \<and>
     u_email u = ''zed@z.io''"
proof -
  have "register_fits plain_hasher 0 (sample_register ''Zed@z.io'' ''Zhou Ltd'')"
    by (simp add: register_fits_def sample_register_def normal_email_def hash_password_def plain_hasher_def
        workspace_name_def)
  moreover have "register_fresh (sample_register ''Zed@z.io'' ''Zhou Ltd'') (uuid_source sample_state) sample_db"
    by (simp add: register_fresh_def sample_register_def workspace_slug_def workspace_name_def sample_rows)
  ultimately show ?thesis
    using register_provisions_workspace [of sample_state "sample_register ''Zed@z.io'' ''Zhou Ltd''" plain_hasher 0 plain_jwt]
    by (auto simp: valid_register_def sample_register_def user_with_email_def sample_user_def)
qed

text \<open>
  An address is registered once, whatever its case and surrounding space: a registration
  whose normalised address a user has is a 409, and nothing changes.
\<close>

lemma register_duplicate:
  assumes "db_wf (work s)" and "u \<in> set (tbl_users (work s))"
    and "u_email u = py_strip (py_lower (ur_email p))"
  shows "register H J salt p s =
    (Inl (EntityConflictException (''User with email '' @ [CHR 0x27] @ ur_email p @ [CHR 0x27] @ '' already exists.'')),
     rollback s)"
proof -
  have "user_with_email (normal_email (ur_email p)) (work s) \<noteq> None"
    using assms(2,3) by (auto simp: user_with_email_def find_None_iff normal_email_def)
  then show ?thesis
    using assms(1) by (auto simp: register_def transaction_cases bindE_def get_by_email_eq raise_if_def)
qed

lemma register_duplicate_witness:
  "\<exists>e. fst (register plain_hasher plain_jwt 0 (sample_register ''ANN@A.io '' ''Zhou Ltd'') sample_state) = Inl e \<and>
     status_code e = 409"
  by (subst register_duplicate [of _ "sample_user 1 ''ann@a.io''"])
    (simp_all add: sample_register_def sample_user_def EntityConflictException_def)

text \<open>
  A registration the schema admits can still fail inside the server: when the slug of the
  workspace name is longer than 93 characters the generated slug does not fit its column, the
  insertion raises and the caller gets a 500, with nothing committed.
\<close>

lemma register_long_name_fails:
  assumes "db_wf (work s)" and "valid_register p"
    and "user_with_email (py_strip (py_lower (ur_email p))) (work s) = None"
    and "length (py_strip (py_lower (ur_email p))) \<le> 255" and "length (hash_password H salt (ur_password p)) \<le> 255"
    and "uuid_source s 0 \<notin> user_ids (work s)" and "uuid_source s 2 \<notin> organization_ids (work s)"
    and "93 < length (slugify (workspace_name p))"
  shows "fst (register H J salt p s) = Inl DataError \<and> committed (snd (register H J salt p s)) = committed s \<and>
    resp_status (exception_response rq DataError) = 500"
proof -
  define us c where "us = uuid_source s" and "c = clock s"
  let ?u = "registered_user H salt p us c" and ?g = "registered_organization p us c"
  have user: "base_create User ?u t = (Inr ?u, t\<lparr>work := (work t)\<lparr>tbl_users := tbl_users (work t) @ [?u]\<rparr>\<rparr>)"
    if "work t = work s" for t :: "('a, 'b) app_state_scheme"
    unfolding base_create_def
    using assms length_py_strip [of "ur_full_name p"] that
    by (subst insert_row_ok)
      (auto simp: violation_def User_def registered_user_def valid_register_def fits_defs us_def
        user_with_email_def find_None_iff user_ids_def normal_email_def)
  have org: "base_create Organization ?g t = (Inl DataError, t)"
    if "tbl_organizations (work t) = tbl_organizations (work s)" for t :: "('a, 'b) app_state_scheme"
    using assms(7,8) that
    by (auto simp: base_create_def insert_row_def violation_def Organization_def registered_organization_def
        workspace_slug_def fits_defs organization_ids_def us_def uuid_hex_def)
  have new: "user_with_email (normal_email (ur_email p)) (work s) = None"
    using assms(3) by (simp add: normal_email_def)
  note defs = registered_user_def registered_organization_def workspace_slug_def us_def c_def numeral_2_eq_2 numeral_3_eq_3 One_nat_def append.simps
  have "fst (register H J salt p s) = Inl DataError"
    using new assms(1) user [unfolded defs] org [unfolded defs]
    by (simp add: register_def transaction_cases bindE_def raise_if_def get_by_email_eq fresh_stamp_eq uuid4_def Let_def)
  moreover have "all_or_nothing s (register H J salt p s)"
    unfolding register_def Let_def by (rule atomic_transaction, intro no_commit_intros)
  ultimately show ?thesis
    by (auto simp: all_or_nothing_def exception_handler_defs split: prod.splits)
qed

lemma register_long_name_fails_witness:
  "fst (register plain_hasher plain_jwt 0 (sample_register ''Zed@z.io'' long_name) sample_state) = Inl DataError"
  using register_long_name_fails [of sample_state "sample_register ''Zed@z.io'' long_name" plain_hasher 0]
  by (simp add: valid_register_def sample_register_def user_with_email_def sample_user_def hash_password_def
      plain_hasher_def workspace_name_def long_name_facts)

text \<open>
  C20. The two token types cannot be exchanged: of the pair issued to a user, the access token
  names that user to the endpoints until 15 minutes have passed and never renews a session, and
  the refresh token is never accepted as a credential.
\<close>

theorem token_types_apart:
  assumes "jwt_laws J" and "db_wf (work s)" and "u \<in> set (tbl_users (work s))" and "u_is_active u"
    and "steady (clock s)" and "pair = projr (fst (generate_token_pair J (u_id u) s))"
    and "work s' = work s" and "clock s 3 \<le> clock s' 0"
    and "representable (clock s 0 + minutes 15)"
  shows "fst (get_current_user J (tr_access_token pair) s') =
      (if clock s' 0 < expiry_second (clock s 0 + minutes 15) then Inr u else Inl credentials_exception) \<and>
    fst (get_current_user J (tr_refresh_token pair) s') = Inl credentials_exception \<and>
    fst (refresh_tokens R J (tr_access_token pair) s') =
      (if clock s' 0 < expiry_second (clock s 0 + minutes 15) then Inl refresh_wrong_type else Inl refresh_invalid)"
proof -
  define i where "i = clock s 1"
  have pair: "tr_access_token pair = issued J (u_id u) (uuid_source s 0) ''access'' (clock s 0 + minutes 15) i"
    "tr_refresh_token pair = issued J (u_id u) (uuid_source s 1) ''refresh'' (clock s 2 + days 7) (clock s 3)"
    by (simp_all add: assms(6) generate_token_pair_eq token_pair_def i_def)
  have "clock s 1 \<le> clock s 3" using assms(5) by (simp add: steady_def)
  then have iat: "i \<le> clock s' 0" using assms(8) by (simp add: i_def)
  have "find (\<lambda>r. u_id r = u_id u) (tbl_users (work s)) = Some u"
    using find_Some_distinct [OF users_tbl.pk_distinct [OF assms(2)], of u] assms(3) by simp
  then show ?thesis
    using assms(4,7) unfolding pair
    by (simp add: get_current_user_issued [OF assms(1) iat] get_current_user_issued [OF assms(1,8)]
        refresh_tokens_issued [OF assms(1) iat assms(9)])
qed

lemma token_types_apart_witness:
  "fst (get_current_user plain_jwt (tr_refresh_token (projr (fst (generate_token_pair plain_jwt 1 sample_state))))
     (advance 4 sample_state)) = Inl credentials_exception"
  using token_types_apart [of plain_jwt sample_state "sample_user 1 ''ann@a.io''"
      "projr (fst (generate_token_pair plain_jwt 1 sample_state))" "advance 4 sample_state" memory_redis]
  by (simp add: plain_jwt_laws steady_sample advance_def minutes_def representable_def)



text \<open>
  The revocation list does not cover a token's last second: a refresh token presented with
  less than a second to live is accepted, gives a new pair, and is not revoked, so it can be
  used again.
\<close>

lemma late_refresh_not_revoked:
  assumes "jwt_laws J" and "i \<le> clock s 0" and "representable e"
    and "clock s 0 < expiry_second e" and "\<not> redis_down s"
    and "\<not> revoked_at R (uuid_str jti) (clock s 1) (redis s)"
    and "find (\<lambda>r. u_id r = u) (tbl_users (work s)) = Some usr" and "u_is_active usr"
    and "expiry_second e - usec_per_sec < clock s 2"
  shows "\<exists>tokens s'. refresh_tokens R J (issued J u jti ''refresh'' e i) s = (Inr tokens, s') \<and> redis s' = redis s"
proof -
  have "int_seconds (expiry_second e - clock s 2) \<le> 0"
    using int_seconds_pos [of "expiry_second e - clock s 2"] assms(9) by linarith
  then show ?thesis
    using assms(4-8)
    by (simp add: refresh_tokens_issued [OF assms(1-3)] generate_token_pair_eq revoked_store_def advance_def Let_def)
qed

lemma late_refresh_not_revoked_witness:
  "\<exists>tokens s'. refresh_tokens memory_redis plain_jwt (sample_refresh 1000000) sample_state = (Inr tokens, s') \<and>
     redis s' = redis sample_state"
  unfolding sample_refresh_def
  by (rule late_refresh_not_revoked [OF plain_jwt_laws, where usr = "sample_user 1 ''ann@a.io''"])
    (simp_all add: representable_def expiry_second_def revoked_at_def memory_redis_def live_def)

text \<open>
  C22. Single use holds only without overlap: of clients that present one live token, any number that pass
  the check of the revocation list before the first of them revokes the token all get a new pair, as
  the service checks first and revokes later.
\<close>

theorem overlapping_refreshes_all_rotate:
  assumes "jwt_laws J" and "steady (clock s)" and "i \<le> clock s 0" and "clock s (2 * n) < expiry_second e"
    and "\<not> redis_down s" and "\<forall>t. \<not> revoked_at R (uuid_str jti) t (redis s)"
    and "find (\<lambda>r. u_id r = u) (tbl_users (work s)) = Some usr" and "u_is_active usr" and "representable e"
  shows "(\<exists>s' ph. rot_reachable R J (issued J u jti ''refresh'' e i) n s (s', ph) \<and> (\<forall>j < n. \<exists>pair. ph j = Rotated pair)) \<and>
    refresh_tokens R J tok s = bindE (refresh_check R J tok) (refresh_rotate R J) s"
  using overlapping_refreshes [OF assms] by (simp_all add: refresh_tokens_parts)

lemma overlapping_refreshes_all_rotate_witness:
  "\<exists>s' ph pair pair'. rot_reachable memory_redis plain_jwt (sample_refresh 600000000) 2 sample_state (s', ph) \<and>
     ph 0 = Rotated pair \<and> ph 1 = Rotated pair'"
proof -
  have "\<exists>s' ph. rot_reachable memory_redis plain_jwt (sample_refresh 600000000) 2 sample_state (s', ph) \<and>
      (\<forall>j < 2. \<exists>pair. ph j = Rotated pair)"
    unfolding sample_refresh_def
    by (rule overlapping_refreshes_all_rotate [where usr = "sample_user 1 ''ann@a.io''", THEN conjunct1, OF plain_jwt_laws])
      (simp_all add: steady_sample representable_def expiry_second_def revoked_at_def memory_redis_def live_def)
  then show ?thesis by (auto simp: less_2_cases_iff all_conj_distrib imp_disjL)
qed

section \<open>Rate limiting\<close>

text \<open>
  C25. The Redis pipeline implements the sliding window: for requests of one client in time
  order, against an initially empty set, each is let through exactly when fewer than \<open>limit\<close>
  earlier requests, let through or not, lie in the window that ends at it.
\<close>

theorem rate_limiter_is_window:
  assumes "redis_zset_laws R" and "0 < rl_window L" and "\<not> redis_down s"
    and "\<forall>t. zset_at R t (rate_key h p) (redis s) = []"
    and "sorted (map fst hits)" and "\<forall>x \<in> set hits. 0 \<le> fst x" and "members_apart fmt hits"
  shows "serve R fmt L h p hits s = window_spec L [] hits"
proof (rule serve_spec [OF assms(1,2)])
  show "window_holds R fmt (rl_window L) (rate_key h p) [] (redis s)"
    using assms(4) by (simp add: window_holds_def zset_laws(2) [OF assms(1)])
qed (use assms in simp_all)

lemma rate_limiter_is_window_witness:
  "serve memory_redis py_str_int sample_limiter (Some ''1.2.3.4'') ''/login'' sample_hits sample_state = [True, False, True]"
  by (subst rate_limiter_is_window [OF memory_redis_zset_laws])
    (simp_all add: sample_hits_apart, simp_all add: sample_limiter_def sample_hits_def in_window_def
      memory_redis_def store_zset_def live_def)

text \<open>
  The limit holds in every window: of such a sequence of requests, at most \<open>limit\<close> are let
  through in any interval of the window's length.
\<close>

lemma rate_limit_never_exceeded:
  assumes "redis_zset_laws R" and "0 < rl_window L" and "\<not> redis_down s" and "0 \<le> rl_limit L"
    and "\<forall>t. zset_at R t (rate_key h p) (redis s) = []"
    and "sorted (map fst hits)" and "\<forall>x \<in> set hits. 0 \<le> fst x" and "members_apart fmt hits"
  shows "int (length (filter (\<lambda>(x, ok). ok \<and> t - rl_window L * usec_per_sec < fst x \<and> fst x \<le> t)
    (zip hits (serve R fmt L h p hits s)))) \<le> rl_limit L"
proof -
  have "window_holds R fmt (rl_window L) (rate_key h p) [] (redis s)"
    using assms(5) by (simp add: window_holds_def zset_laws(2) [OF assms(1)])
  then have "serve R fmt L h p hits s = window_spec L [] hits"
    by (rule serve_spec [OF assms(1,2)]) (use assms in simp_all)
  then show ?thesis
    using passed_in_bound [OF assms(6,4), of t] by (simp add: passed_in_def in_window_def)
qed

lemma rate_limit_never_exceeded_witness:
  "int (length (filter (\<lambda>(x, ok). ok \<and> 59 - rl_window sample_limiter * usec_per_sec < fst x \<and> fst x \<le> 59)
    (zip sample_hits (serve memory_redis py_str_int sample_limiter (Some ''1.2.3.4'') ''/login'' sample_hits sample_state)))) \<le> 1"
  using rate_limit_never_exceeded [OF memory_redis_zset_laws, of sample_limiter sample_state "Some ''1.2.3.4''" "''/login''"
      sample_hits py_str_int 59]
  by (simp add: sample_hits_apart, simp add: sample_limiter_def sample_hits_def memory_redis_def store_zset_def live_def)

section \<open>Comments\<close>

text \<open>
  Editing a comment on every branch, for a caller admitted to the organization: a comment
  the tenant does not have is a 404, a caller who is neither the author nor an administrator a
  403, both without effect; otherwise the stripped text is committed and the comment is marked as
  edited, with its author, task and creation time unchanged and every other comment as it was.
\<close>

lemma edit_comment_spec:
  assumes "db_wf (work s)" and "commit_fault s = None"
  shows "case update_comment now org cid u r p s of
      (Inl e, s') \<Rightarrow> s' = rollback s \<and>
        (if \<exists>c \<in> set (tbl_comments (work s)). c_id c = cid \<and> c_organization_id c = org
         then e = edit_forbidden \<and> r \<noteq> ADMIN \<and> r \<noteq> OWNER \<and>
           (\<forall>c \<in> set (tbl_comments (work s)). c_id c = cid \<longrightarrow> c_author_id c \<noteq> u)
         else e = comment_not_found cid)
    | (Inr c', s') \<Rightarrow> \<exists>c \<in> set (tbl_comments (work s)). c_id c = cid \<and> c_organization_id c = org \<and>
        (c_author_id c = u \<or> r = ADMIN \<or> r = OWNER) \<and>
        c' = c\<lparr>c_content := py_strip (cc_content p), c_is_edited := True, c_updated_at := c_updated_at c'\<rparr> \<and>
        committed s' = (work s)\<lparr>tbl_comments := map (\<lambda>q. if c_id q = cid then c' else q) (tbl_comments (work s))\<rparr> \<and>
        work s' = committed s'"
proof (cases "visible_comment org cid (work s)")
  case None
  then have "\<not> (\<exists>c \<in> set (tbl_comments (work s)). c_id c = cid \<and> c_organization_id c = org)"
    by (auto simp: visible_comment_def find_None_iff)
  with None assms show ?thesis by (auto simp: update_comment_eq)
next
  case (Some c)
  note c = visible_comment_Some [OF Some]
  have same: "q = c" if "q \<in> set (tbl_comments (work s))" "c_id q = cid" for q
    using distinct_key_unique [OF comments_tbl.pk_distinct [OF assms(1)], of q c] that c by simp
  show ?thesis
  proof (cases "c_author_id c \<noteq> u \<and> r \<notin> {ADMIN, OWNER}")
    case True
    moreover have "\<exists>q \<in> set (tbl_comments (work s)). c_id q = cid \<and> c_organization_id q = org"
      using c by blast
    ultimately show ?thesis
      using Some same update_comment_eq [OF assms, of now org cid u r p] by (auto simp: rollback_def)
  next
    case False
    define c' where "c' = edited_comment now (py_strip (cc_content p)) c"
    have c': "c_id c' = cid" "c' = c\<lparr>c_content := py_strip (cc_content p), c_is_edited := True, c_updated_at := c_updated_at c'\<rparr>"
      using c by (simp_all add: c'_def edited_comment_def)
    have "update_comment now org cid u r p s =
        (Inr c', s\<lparr>work := (work s)\<lparr>tbl_comments := replace_comment c' (tbl_comments (work s))\<rparr>,
          committed := (work s)\<lparr>tbl_comments := replace_comment c' (tbl_comments (work s))\<rparr>\<rparr>)"
      using False by (simp add: update_comment_eq [OF assms] Some c'_def Let_def)
    moreover have "c_author_id c = u \<or> r = ADMIN \<or> r = OWNER" using False by blast
    ultimately show ?thesis
      using c c' by (simp add: replace_comment_def) blast
  qed
qed

lemma edit_comment_spec_witness:
  "fst (update_comment 7 10 8000 1 MEMBER (sample_comment_text '' edited '') sample_talk) =
     Inr ((sample_comment 8000 10 5000 1)\<lparr>c_content := ''edited'', c_is_edited := True, c_updated_at := 7\<rparr>)"
  using edit_comment_spec [where s = sample_talk and now = 7 and org = 10 and cid = 8000 and u = 1 and r = MEMBER
      and p = "sample_comment_text '' edited ''"]
  by (simp add: update_comment_eq visible_comment_def sample_comment_def edited_comment_def Let_def)

text \<open>
  The comments of a task are listed in full: a client that hands the cursors back sees every
  comment of the task in the tenant exactly once, in the order they were made, each with the
  current name of its author.
\<close>

lemma comment_feed_complete:
  fixes s :: "('r, 'z) app_state_scheme"
  assumes "db_wf (committed s)" and "row_order scan" and "0 < limit"
    and "length (tbl_comments (committed s)) < fuel"
    and "\<forall>c \<in> set (tbl_comments (committed s)). datetime_range (c_created_at c)"
    and "fst (authorize J VIEWER token org (s\<lparr>work := committed s\<rparr>)) = Inr ctx"
  shows "token_walk (\<lambda>c. let r = projr (fst (get_comments J other scan token org tid c limit s))
      in (cp_items r, cp_next_cursor r)) fuel None =
    map (listed_comment (committed s)) (comment_feed org tid (tbl_comments (committed s)))"
proof -
  define page where "page c = (case comments_page (\<lambda>rs. rs) org tid (tbl_comments (committed s)) limit
      (cursor_key (decode_cursor other) c) of (items, has_more) \<Rightarrow> (items, next_cursor encode_cursor comment_key items has_more))" for c
  have "token_walk page fuel None = comment_feed org tid (tbl_comments (committed s))"
    unfolding page_def
    by (rule comment_tokens.token_walk_complete [OF wf_comment_keys [OF assms(1)] assms(3)])
      (use assms(4,5) in \<open>auto simp: comment_feed_def intro: le_less_trans [OF length_filter_le]\<close>)
  moreover have "(\<lambda>c. let r = projr (fst (get_comments J other scan token org tid c limit s))
      in (cp_items r, cp_next_cursor r)) = (\<lambda>c. (map (listed_comment (committed s)) (fst (page c)), snd (page c)))"
    by (simp add: fun_eq_iff page_def get_comments_eq [OF assms(1,2,6)] split: prod.splits)
  ultimately show ?thesis by (simp add: token_walk_map)
qed

lemma comment_feed_complete_witness:
  "token_walk (\<lambda>c. let r = projr (fst (get_comments plain_jwt (\<lambda>_. None) rev sample_access 10 5000 c 1 sample_talk))
      in (cp_items r, cp_next_cursor r)) 9 None =
    map (listed_comment (committed sample_talk)) (comment_feed 10 5000 (tbl_comments (committed sample_talk)))"
  by (rule comment_feed_complete [where ctx = sample_ctx]) (simp_all add: datetime_range_def sample_comment_def)

section \<open>Real-time events\<close>

text \<open>
  C34. A socket receives each event at most once, in the order of publication, and only events of
  the one project whose room it was admitted to, in every interleaving of connections,
  disconnections, publications, cancellations and failures.
\<close>

theorem events_in_order:
  assumes "hub_reachable admitted h"
  shows "sorted_wrt (<) (received h ws) \<and>
    (\<forall>i \<in> set (received h ws). i < length (hub_log h) \<and> peer h ws = Some (fst (hub_log h ! i)) \<and> admitted ws (fst (hub_log h ! i)))"
  using delivery_reachable [OF assms] peer_admitted [OF assms]
  unfolding delivery_inv_def socket_ok_def of_project_def by fastforce

lemma events_in_order_witness: "sorted_wrt (<) (received sample_served 0) \<and> received sample_served 0 = [0]"
  using events_in_order [OF sample_served_reachable, of 0] by simp

text \<open>
  C35. Rooms are never leaked and never doubly served: in every reachable state a room has a
  member, its members are connected sockets of its project, exactly one running or dead listener
  is registered for it, and a listener that runs is the registered one of a room that exists.
\<close>

theorem rooms_are_attended:
  assumes "hub_reachable admitted h"
  shows "dom (rooms h) = dom (listener_tasks h) \<and>
    (\<forall>pid room. rooms h pid = Some room \<longrightarrow> room \<noteq> {} \<and> (\<forall>ws \<in> room. peer h ws = Some pid) \<and>
       (\<exists>t l. listener_tasks h pid = Some t \<and> tasks h t = Some l \<and> l_project l = pid \<and> (running l \<or> l_phase l = Crashed))) \<and>
    (\<forall>t l. tasks h t = Some l \<longrightarrow> running l \<longrightarrow> listener_tasks h (l_project l) = Some t)"
proof -
  note inv = rooms_inv_reachable [OF assms]
  then have ok: "room_ok h pid" "task_ok h t" for pid t by (simp_all add: rooms_inv_def)
  have "rooms h pid = None \<longleftrightarrow> listener_tasks h pid = None" for pid
    using ok(1) [of pid] by (auto simp: room_ok_def split: option.splits)
  then have "dom (rooms h) = dom (listener_tasks h)" by (auto simp: dom_def)
  moreover have "room \<noteq> {} \<and> (\<forall>ws \<in> room. peer h ws = Some pid) \<and>
      (\<exists>t l. listener_tasks h pid = Some t \<and> tasks h t = Some l \<and> l_project l = pid \<and> (running l \<or> l_phase l = Crashed))"
    if "rooms h pid = Some room" for pid room
    using ok(1) [of pid] that by (fastforce simp: room_ok_def running_def)
  ultimately show ?thesis using ok(2) by (auto simp: task_ok_def)
qed

lemma rooms_are_attended_witness: "dom (rooms sample_served) = dom (listener_tasks sample_served)"
  using rooms_are_attended [OF sample_served_reachable] by simp

text \<open>
  An event reaches the whole room: when the listener of a room has a publication before it,
  it can run to the end of its round, and then every member of the room has received exactly that
  publication and nobody else anything.
\<close>

lemma round_serves_room:
  assumes "hub_reachable admitted h" and "rooms h pid = Some room"
    and "listener_tasks h pid = Some t" and "tasks h t = Some l"
    and "l_phase l = Waiting" and "l_inbox l = i # rest" and "snd (hub_log h ! i) \<noteq> []"
  shows "\<exists>h'. (hub_step admitted)\<^sup>*\<^sup>* h h' \<and> tasks h' t = Some (l\<lparr>l_inbox := rest, l_phase := Looping\<rparr>) \<and>
    rooms h' = rooms h \<and> (\<forall>ws. received h' ws = received h ws @ (if ws \<in> room then [i] else []))"
  by (rule round_run [OF rooms_inv_reachable [OF assms(1)] assms(2-7)])

lemma round_serves_room_witness:
  "\<exists>h'. (hub_step sample_admitted)\<^sup>*\<^sup>* sample_published h' \<and> received h' 0 = [0] \<and> received h' 1 = []"
  using round_serves_room [OF sample_published_reachable, of 1000 "{0}" 0 _ 0 "[]"]
  by (fastforce simp: sample_hub_defs)

text \<open>
  C36. A listener that dies of a Redis error is not replaced while its room has a member: from
  then on nobody in the room receives anything, whoever else joins and whatever is published.
\<close>

theorem dead_listener_silences_room:
  assumes "hub_reachable admitted h" and "listener_tasks h pid = Some t" and "tasks h t = Some l"
    and "l_project l = pid" and "l_phase l = Crashed" and "occupied_run admitted pid h h'" and "peer h ws = Some pid"
  shows "received h' ws = received h ws \<and>
    (\<exists>t l. listener_tasks h' pid = Some t \<and> tasks h' t = Some l \<and> l_phase l = Crashed)"
proof -
  have "listener_dead h pid" using assms(2-5) by (auto simp: listener_dead_def)
  from dead_run [OF assms(6,1) this] show ?thesis using assms(7) by (auto simp: listener_dead_def)
qed

lemma dead_listener_silences_room_witness:
  "received sample_missed 0 = received sample_dead 0 \<and> hub_log sample_missed = [(1000, ''{}'')]"
  using dead_listener_silences_room [OF sample_dead_reachable _ _ _ _ sample_missed_run, of 0 _ 0]
  by (simp add: sample_hub_defs)



section \<open>Answers to errors\<close>

text \<open>
  Every exception becomes a problem answer whose body repeats its status: 404, 409 and 403
  for the domain errors, the given status for an HTTP error; every other exception answers the
  same 500 body, which tells nothing of the exception; and a rate limit refusal keeps its
  \<open>Retry-After\<close> header.
\<close>

lemma errors_become_problems:
  "resp_status (exception_response rq (EntityNotFoundException n i)) = 404 \<and>
   resp_status (exception_response rq (EntityConflictException msg)) = 409 \<and>
   resp_status (exception_response rq (ForbiddenOperationException msg)) = 403 \<and>
   resp_status (exception_response rq (HTTPException st detail hs)) = st \<and>
   pd_status (resp_content (exception_response rq e)) = resp_status (exception_response rq e) \<and>
   (case e of AppException _ _ _ _ \<Rightarrow> True | HTTPException _ _ _ \<Rightarrow> True
    | _ \<Rightarrow> exception_response rq e = global_unhandled_exception_handler rq \<and>
          resp_status (exception_response rq e) = 500) \<and>
   resp_status (exception_response rq (rate_limit_exceeded L r)) = 429 \<and>
   map_of (resp_headers (exception_response rq (rate_limit_exceeded L r))) ''Retry-After'' = Some (py_str_int (rl_window L))"
proof -
  have "map_of (resp_headers (exception_response rq (rate_limit_exceeded L r))) ''Retry-After'' = Some (py_str_int (rl_window L))"
    unfolding rate_limit_exceeded_def exception_response.simps
    by (rule http_handler_keeps_headers) simp_all
  moreover have "resp_status (exception_response rq (rate_limit_exceeded L r)) = 429"
    by (simp add: rate_limit_exceeded_def exception_handler_defs)
  moreover have "case e of AppException _ _ _ _ \<Rightarrow> True | HTTPException _ _ _ \<Rightarrow> True
      | _ \<Rightarrow> exception_response rq e = global_unhandled_exception_handler rq \<and>
          resp_status (exception_response rq e) = 500"
    by (cases e) (simp_all add: exception_handler_defs)
  ultimately show ?thesis
    by (simp add: resp_status_exception_response pd_status_exception_response http_exception_handler_def)
qed

section \<open>Texts\<close>

text \<open>
  UUIDs survive their text: \<open>uuid.UUID(str(u))\<close> is \<open>u\<close>, and different UUIDs print differently.
\<close>

theorem uuid_text_faithful: "uuid_of_str (uuid_str u) = Some u \<and> (uuid_str u = uuid_str v \<longleftrightarrow> u = v)"
  by (simp add: uuid_text_roundtrip uuid_str_inject)

text \<open>
  A slug is made of lower-case letters, digits and single hyphens, and is no longer than the
  name it is made of.
\<close>

lemma slugs_are_clean:
  "list_all slug_char (slugify txt) \<and> no_double_dash (slugify txt) \<and> length (slugify txt) \<le> length txt"
  by (simp add: list_all_iff slugify_chars slugify_no_double_dash length_slugify)

section \<open>What creating a task does not check\<close>

text \<open>
  C26. The tenant of the project is not checked: a member of one organization can create a task
  under a project of another, and its creation event is published to that project's room.
\<close>

theorem create_task_crosses_tenants:
  fixes s :: "('r, 'z) app_state_scheme"
  assumes "commit_fault s = None" and "\<not> redis_down s" and "valid_task_create u"
    and "p \<in> set (tbl_projects (work s))" and "p_id p = tc_project_id u" and "p_organization_id p \<noteq> ctx_organization_id ctx"
    and "task_refs_exist (work s) (ctx_organization_id ctx) (tc_project_id u) (u_id (ctx_user ctx)) (tc_assignee_id u)"
    and "st_id st \<notin> task_ids (work s)" and "as_id ast \<notin> al_id ` set (tbl_audit_logs (work s))"
  shows "\<exists>t s' payload. create_task_handler st ast u ctx s = (Inr (task_response t), s') \<and>
    t \<in> set (tbl_tasks (committed s')) \<and> t_organization_id t = ctx_organization_id ctx \<and>
    t_project_id t = p_id p \<and> p_organization_id p \<noteq> t_organization_id t \<and>
    published s' = published s @ [(channel_name (p_id p), payload)]"
  using assms
  by (auto simp: create_task_handler_def bindE_def create_task_eq valid_task_create_def new_task_def
      broadcast_to_room_def returnE_def Let_def)

lemma create_task_crosses_tenants_witness:
  "\<exists>t s' payload. create_task_handler sample_stamp sample_audit sample_create sample_ctx sample_state = (Inr (task_response t), s') \<and>
    t_organization_id t = 10 \<and> t_project_id t = 2000 \<and> published s' = [(channel_name 2000, payload)]"
  using create_task_crosses_tenants [of sample_state sample_create "sample_project 2000 20 ''BET''" sample_ctx
      sample_stamp sample_audit]
  by (fastforce simp: sample_payloads sample_project_def valid_task_create_def task_refs_exist_def opt_ref_def)

text \<open>
  Two fields of the creation payload are dropped: whatever parent task and due date the
  caller sends, the created task has none.
\<close>

lemma create_task_drops_fields:
  "create_task_handler st ast (u\<lparr>tc_parent_id := parent, tc_due_date := due\<rparr>) ctx s = create_task_handler st ast u ctx s \<and>
   (case create_task_handler st ast u ctx s of
      (Inl _, _) \<Rightarrow> True
    | (Inr r, _) \<Rightarrow> tr_parent_id r = None \<and> tr_due_date r = None)"
proof -
  have "t_parent_id t = None \<and> t_due_date t = None"
    if "create_task st ast org pr rep ttl desc prio a s = (Inr t, s')" for org pr rep ttl desc prio a t s'
    using that
    by (auto simp: create_task_def transaction_ok bindE_ok returnE_def tenant_create_def base_create_def
        insert_row_def Let_def split: option.splits if_splits)
  then show ?thesis
    by (auto simp: create_task_handler_def bindE_def returnE_def broadcast_to_room_def task_response_def
        split: prod.splits sum.splits)
qed

end
